(* ===== verification/JsBase.thy ===== *)
theory JsBase
  imports Complex_Main
begin

text \<open>
  What the console's TypeScript uses of JavaScript itself. A string is the list of its
  UTF-16 code units; \<open>js ''abc''\<close> writes a literal. The theory models the string
  methods the code calls (\<open>trim\<close>, \<open>split\<close>, \<open>join\<close>, \<open>startsWith\<close>,
  \<open>includes\<close>, \<open>indexOf\<close>, \<open>slice\<close>, \<open>toLowerCase\<close>,
  \<open>toUpperCase\<close>), the conversions between numbers and text (\<open>String(n)\<close>,
  \<open>parseInt(s, 10)\<close>, \<open>Number(s)\<close>), the iteration order of
  \<open>new Set(xs)\<close>, and computations that run with a state and may throw.

  Two conventions hold everywhere. Case mapping is the one of the ASCII letters; other code
  units are kept. A finite number is its exact rational value: the code only computes with
  integers below $2^{53}$ and with milliseconds divided by 1000, where the exact value and
  the double that JavaScript keeps print the same.
\<close>

named_theorems js_eval \<open>equations that evaluate the model on concrete input\<close>
named_theorems io_simps \<open>equations of computations with state and exceptions\<close>

section \<open>Strings\<close>

type_synonym jsstring = "nat list"

definition js :: "string \<Rightarrow> jsstring" where
  "js s = map of_char s"

lemma js_inject [simp]: "js s = js t \<longleftrightarrow> s = t"
  by (auto simp: js_def inj_map_eq_map inj_def)

lemma js_Nil [simp]: "js [] = []"
  by (simp add: js_def)

lemma js_eq_Nil [simp]: "js s = [] \<longleftrightarrow> s = []" "[] = js s \<longleftrightarrow> s = []"
  by (auto simp: js_def)

lemma js_append: "js (s @ t) = js s @ js t"
  by (simp add: js_def)

lemma length_js [simp]: "length (js s) = length s"
  by (simp add: js_def)

definition is_digit :: "nat \<Rightarrow> bool" where
  "is_digit c \<longleftrightarrow> 48 \<le> c \<and> c \<le> 57"

definition is_lower :: "nat \<Rightarrow> bool" where
  "is_lower c \<longleftrightarrow> 97 \<le> c \<and> c \<le> 122"

definition is_upper :: "nat \<Rightarrow> bool" where
  "is_upper c \<longleftrightarrow> 65 \<le> c \<and> c \<le> 90"

definition is_hex :: "nat \<Rightarrow> bool" where
  "is_hex c \<longleftrightarrow> is_digit c \<or> (97 \<le> c \<and> c \<le> 102) \<or> (65 \<le> c \<and> c \<le> 70)"

text \<open>White space and line terminators, the class \<open>\s\<close> and what \<open>trim\<close> removes.\<close>

definition is_space :: "nat \<Rightarrow> bool" where
  "is_space c \<longleftrightarrow> (9 \<le> c \<and> c \<le> 13) \<or> c = 32 \<or> c = 160 \<or> c = 5760 \<or>
     (8192 \<le> c \<and> c \<le> 8202) \<or> c = 8232 \<or> c = 8233 \<or> c = 8239 \<or> c = 8287 \<or>
     c = 12288 \<or> c = 65279"

lemmas char_class_defs = is_digit_def is_lower_def is_upper_def is_hex_def is_space_def
declare char_class_defs [js_eval]

definition trimStart :: "jsstring \<Rightarrow> jsstring" where
  "trimStart s = dropWhile is_space s"

definition trimEnd :: "jsstring \<Rightarrow> jsstring" where
  "trimEnd s = rev (dropWhile is_space (rev s))"

definition trim :: "jsstring \<Rightarrow> jsstring" where
  "trim s = trimEnd (trimStart s)"

definition toLower :: "jsstring \<Rightarrow> jsstring" where
  "toLower s = map (\<lambda>c. if is_upper c then c + 32 else c) s"

definition toUpper :: "jsstring \<Rightarrow> jsstring" where
  "toUpper s = map (\<lambda>c. if is_lower c then c - 32 else c) s"

definition startsWith :: "jsstring \<Rightarrow> jsstring \<Rightarrow> bool" where
  "startsWith s p \<longleftrightarrow> take (length p) s = p"

definition endsWith :: "jsstring \<Rightarrow> jsstring \<Rightarrow> bool" where
  "endsWith s p \<longleftrightarrow> length p \<le> length s \<and> drop (length s - length p) s = p"

text \<open>The position of the first occurrence, \<open>None\<close> for the source's -1.\<close>

fun indexOf :: "jsstring \<Rightarrow> jsstring \<Rightarrow> nat option" where
  "indexOf [] p = (if p = [] then Some 0 else None)"
| "indexOf (c # s) p =
     (if startsWith (c # s) p then Some 0 else map_option Suc (indexOf s p))"

text \<open>The position of the last occurrence of a non-empty pattern.\<close>

fun lastIndexOf :: "jsstring \<Rightarrow> jsstring \<Rightarrow> nat option" where
  "lastIndexOf [] p = (if p = [] then Some 0 else None)"
| "lastIndexOf (c # s) p =
     (case lastIndexOf s p of
        Some i \<Rightarrow> Some (Suc i)
      | None \<Rightarrow> if startsWith (c # s) p then Some 0 else None)"

definition contains :: "jsstring \<Rightarrow> jsstring \<Rightarrow> bool" where
  "contains s p \<longleftrightarrow> indexOf s p \<noteq> None"

text \<open>\<open>s.slice(i, j)\<close> for indices that are not negative.\<close>

definition slice :: "nat \<Rightarrow> nat \<Rightarrow> 'a list \<Rightarrow> 'a list" where
  "slice i j s = take (j - i) (drop i s)"

text \<open>\<open>s.split(c)\<close> for a separator of one code unit: never the empty list.\<close>

fun split_on :: "nat \<Rightarrow> jsstring \<Rightarrow> jsstring list" where
  "split_on d [] = [[]]"
| "split_on d (c # s) =
     (if c = d then [] # split_on d s
      else case split_on d s of [] \<Rightarrow> [[c]] | w # ws \<Rightarrow> (c # w) # ws)"

fun join :: "jsstring \<Rightarrow> jsstring list \<Rightarrow> jsstring" where
  "join sep [] = []"
| "join sep [w] = w"
| "join sep (w # v # ws) = w @ sep @ join sep (v # ws)"

text \<open>\<open>s.split(/P+/)\<close> for a class of characters.\<close>

fun split_runs :: "(nat \<Rightarrow> bool) \<Rightarrow> bool \<Rightarrow> jsstring \<Rightarrow> jsstring list" where
  "split_runs P inrun [] = [[]]"
| "split_runs P inrun (c # s) =
     (if P c then (if inrun then split_runs P True s else [] # split_runs P True s)
      else case split_runs P False s of [] \<Rightarrow> [[c]] | w # ws \<Rightarrow> (c # w) # ws)"

text \<open>\<open>s.replace(/P+/g, r)\<close> for a class of characters: each maximal run becomes \<open>r\<close>.\<close>

fun replace_runs :: "(nat \<Rightarrow> bool) \<Rightarrow> jsstring \<Rightarrow> bool \<Rightarrow> jsstring \<Rightarrow> jsstring" where
  "replace_runs P r inrun [] = []"
| "replace_runs P r inrun (c # s) =
     (if P c then (if inrun then [] else r) @ replace_runs P r True s
      else c # replace_runs P r False s)"

subsection \<open>Facts about strings\<close>

lemma trim_Nil [simp]: "trim [] = []"
  by (simp add: trim_def trimStart_def trimEnd_def)

lemma dropWhile_rev_last: "rev (dropWhile P (rev xs)) = [] \<or> \<not> P (last (rev (dropWhile P (rev xs))))"
  by (metis hd_dropWhile hd_rev last_rev rev_is_Nil_conv rev_rev_ident)

lemma trimEnd_last: "trimEnd s \<noteq> [] \<Longrightarrow> \<not> is_space (last (trimEnd s))"
  using dropWhile_rev_last [of is_space s] by (auto simp: trimEnd_def)

lemma trimEnd_append: "\<exists>w. s = trimEnd s @ w \<and> (\<forall>c\<in>set w. is_space c)"
proof -
  have "rev s = takeWhile is_space (rev s) @ dropWhile is_space (rev s)" by simp
  then have "s = rev (dropWhile is_space (rev s)) @ rev (takeWhile is_space (rev s))"
    by (metis rev_append rev_rev_ident)
  moreover have "\<forall>c\<in>set (rev (takeWhile is_space (rev s))). is_space c"
    using set_takeWhileD by fastforce
  ultimately show ?thesis unfolding trimEnd_def by blast
qed

lemma trimStart_hd: "trimStart s \<noteq> [] \<Longrightarrow> \<not> is_space (hd (trimStart s))"
  by (simp add: trimStart_def hd_dropWhile)

lemma trim_hd: "trim s \<noteq> [] \<Longrightarrow> \<not> is_space (hd (trim s))"
proof -
  assume ne: "trim s \<noteq> []"
  obtain w where w: "trimStart s = trim s @ w"
    using trimEnd_append [of "trimStart s"] by (auto simp: trim_def)
  with ne have "hd (trim s) = hd (trimStart s)" "trimStart s \<noteq> []" by auto
  then show ?thesis using trimStart_hd by simp
qed

lemma trim_last: "trim s \<noteq> [] \<Longrightarrow> \<not> is_space (last (trim s))"
  unfolding trim_def by (rule trimEnd_last)

lemma trim_id: "s = [] \<or> (\<not> is_space (hd s) \<and> \<not> is_space (last s)) \<Longrightarrow> trim s = s"
proof (cases s)
  case (Cons c cs)
  assume "s = [] \<or> (\<not> is_space (hd s) \<and> \<not> is_space (last s))"
  with Cons have h: "\<not> is_space c" and l: "\<not> is_space (last s)" by auto
  have a: "trimStart s = s" using Cons h by (simp add: trimStart_def)
  have "hd (rev s) = last s" using Cons by (simp add: hd_rev)
  with l Cons have "dropWhile is_space (rev s) = rev s" by (cases "rev s") auto
  then show ?thesis using a by (simp add: trim_def trimEnd_def)
qed simp

lemma trim_trim [simp]: "trim (trim s) = trim s"
  by (rule trim_id) (use trim_hd trim_last in blast)

lemma set_trim: "set (trim s) \<subseteq> set s"
proof -
  have "set (trim s) \<subseteq> set (trimStart s)"
    using set_dropWhileD by (fastforce simp: trim_def trimEnd_def)
  also have "\<dots> \<subseteq> set s"
    using set_dropWhileD by (fastforce simp: trimStart_def)
  finally show ?thesis .
qed

lemma length_trim: "length (trim s) \<le> length s"
proof -
  have "length (trim s) \<le> length (trimStart s)"
    using length_dropWhile_le [of is_space "rev (trimStart s)"]
    by (simp add: trim_def trimEnd_def)
  also have "\<dots> \<le> length s" by (simp add: trimStart_def length_dropWhile_le)
  finally show ?thesis .
qed

lemma trim_eq_Nil_iff: "trim s = [] \<longleftrightarrow> (\<forall>c\<in>set s. is_space c)"
proof
  assume t: "trim s = []"
  obtain w where w: "trimStart s = trim s @ w" "\<forall>c\<in>set w. is_space c"
    using trimEnd_append [of "trimStart s"] by (auto simp: trim_def)
  have "trimStart s = []"
  proof (rule ccontr)
    assume "trimStart s \<noteq> []"
    then have "hd (trimStart s) \<in> set w" using w t by auto
    with w(2) trimStart_hd [OF \<open>trimStart s \<noteq> []\<close>] show False by blast
  qed
  then show "\<forall>c\<in>set s. is_space c" by (simp add: trimStart_def dropWhile_eq_Nil_conv)
next
  assume "\<forall>c\<in>set s. is_space c"
  then have "trimStart s = []" by (simp add: trimStart_def)
  then show "trim s = []" by (simp add: trim_def trimEnd_def)
qed

lemma split_on_not_Nil [simp]: "split_on d s \<noteq> []"
  by (induction s) (auto split: list.splits)

lemma join_Cons: "ws \<noteq> [] \<Longrightarrow> join sep (w # ws) = w @ sep @ join sep ws"
  by (cases ws) auto

lemma join_split_on: "join [d] (split_on d s) = s"
proof (induction s)
  case (Cons c s)
  obtain w ws where w: "split_on d s = w # ws" by (cases "split_on d s") auto
  show ?case
  proof (cases "c = d")
    case True
    then show ?thesis using Cons by (simp add: join_Cons)
  next
    case False
    then show ?thesis using Cons w by (cases ws) auto
  qed
qed simp

lemma split_on_append:
  "d \<notin> set w \<Longrightarrow> split_on d (w @ d # s) = w # split_on d s"
  by (induction w) auto

lemma split_on_plain: "d \<notin> set w \<Longrightarrow> split_on d w = [w]"
  by (induction w) auto

lemma split_on_join:
  "ws \<noteq> [] \<Longrightarrow> \<forall>w\<in>set ws. d \<notin> set w \<Longrightarrow> split_on d (join [d] ws) = ws"
proof (induction ws)
  case (Cons w ws)
  then show ?case
    by (cases "ws = []") (simp_all add: split_on_plain join_Cons split_on_append)
qed simp

lemma split_on_no_sep: "w \<in> set (split_on d s) \<Longrightarrow> d \<notin> set w"
  by (induction s arbitrary: w) (auto split: if_splits list.splits)

lemma startsWith_append [simp]: "startsWith (p @ s) p"
  by (simp add: startsWith_def)

lemma startsWith_iff: "startsWith s p \<longleftrightarrow> (\<exists>r. s = p @ r)"
  unfolding startsWith_def by (metis append_eq_conv_conj append_take_drop_id)

lemma indexOf_Some: "indexOf s p = Some i \<Longrightarrow> i \<le> length s \<and> startsWith (drop i s) p"
  by (induction s p arbitrary: i rule: indexOf.induct)
     (auto simp: startsWith_def split: if_splits)

lemma toLower_idem [simp]: "toLower (toLower s) = toLower s"
  by (auto simp: toLower_def is_upper_def)

lemma length_toLower [simp]: "length (toLower s) = length s"
  by (simp add: toLower_def)

section \<open>Numbers and text\<close>

text \<open>\<open>String(n)\<close> for an integer.\<close>

fun nat_text :: "nat \<Rightarrow> jsstring" where
  "nat_text n = (if n < 10 then [48 + n] else nat_text (n div 10) @ [48 + n mod 10])"

declare nat_text.simps [simp del]

definition int_text :: "int \<Rightarrow> jsstring" where
  "int_text n = (if n < 0 then 45 # nat_text (nat (- n)) else nat_text (nat n))"

definition digits_val :: "jsstring \<Rightarrow> nat" where
  "digits_val s = foldl (\<lambda>a c. a * 10 + (c - 48)) 0 s"

text \<open>\<open>parseInt(s, 10)\<close>: \<open>None\<close> is NaN.\<close>

definition signed_prefix :: "jsstring \<Rightarrow> int \<times> jsstring" where
  "signed_prefix s = (case s of
      [] \<Rightarrow> (1, [])
    | c # r \<Rightarrow> if c = 45 then (-1, r) else if c = 43 then (1, r) else (1, s))"

definition parseInt :: "jsstring \<Rightarrow> int option" where
  "parseInt s =
     (let (sg, r) = signed_prefix (trimStart s); ds = takeWhile is_digit r
      in if ds = [] then None else Some (sg * int (digits_val ds)))"

datatype jsnum = NaN | Infinity | NegInfinity | Fin rat

definition pow10 :: "int \<Rightarrow> rat" where
  "pow10 e = (if 0 \<le> e then 10 ^ nat e else 1 / 10 ^ nat (- e))"

text \<open>The optional exponent that ends a decimal literal.\<close>

definition exponent_part :: "jsstring \<Rightarrow> int option" where
  "exponent_part s = (case s of
      [] \<Rightarrow> Some 0
    | c # r \<Rightarrow>
        if c = 101 \<or> c = 69 then
          (let (sg, ds) = signed_prefix r
           in if ds \<noteq> [] \<and> list_all is_digit ds then Some (sg * int (digits_val ds)) else None)
        else None)"

definition unsigned_decimal :: "jsstring \<Rightarrow> rat option" where
  "unsigned_decimal s =
     (let ip = takeWhile is_digit s; r = dropWhile is_digit s;
          (fp, r') = (case r of
             [] \<Rightarrow> ([], [])
           | c # q \<Rightarrow> if c = 46 then (takeWhile is_digit q, dropWhile is_digit q) else ([], r))
      in if ip = [] \<and> fp = [] then None
         else map_option (\<lambda>e. of_nat (digits_val (ip @ fp)) * pow10 (e - int (length fp)))
                (exponent_part r'))"

definition hex_digit_val :: "nat \<Rightarrow> nat" where
  "hex_digit_val c = (if is_digit c then c - 48 else if c \<ge> 97 then c - 87 else c - 55)"

definition radix_literal :: "nat \<Rightarrow> (nat \<Rightarrow> bool) \<Rightarrow> jsstring \<Rightarrow> jsnum" where
  "radix_literal b ok s =
     (if s \<noteq> [] \<and> list_all ok s
      then Fin (of_nat (foldl (\<lambda>a c. a * b + hex_digit_val c) 0 s)) else NaN)"

text \<open>\<open>Number(s)\<close> for a string.\<close>

definition toNumber :: "jsstring \<Rightarrow> jsnum" where
  "toNumber s0 =
     (let s = trim s0 in
      if s = [] then Fin 0
      else if startsWith s (js ''0x'') \<or> startsWith s (js ''0X'') then radix_literal 16 is_hex (drop 2 s)
      else if startsWith s (js ''0o'') \<or> startsWith s (js ''0O'')
        then radix_literal 8 (\<lambda>c. 48 \<le> c \<and> c \<le> 55) (drop 2 s)
      else if startsWith s (js ''0b'') \<or> startsWith s (js ''0B'')
        then radix_literal 2 (\<lambda>c. 48 \<le> c \<and> c \<le> 49) (drop 2 s)
      else (let (sg, r) = signed_prefix s in
        if r = js ''Infinity'' then (if sg = 1 then Infinity else NegInfinity)
        else case unsigned_decimal r of None \<Rightarrow> NaN | Some q \<Rightarrow> Fin (of_int sg * q)))"

fun isInteger :: "jsnum \<Rightarrow> bool" where
  "isInteger (Fin q) = (of_int \<lfloor>q\<rfloor> = q)"
| "isInteger _ = False"

text \<open>Comparisons with a finite number; every comparison with NaN is false.\<close>

fun num_gt :: "jsnum \<Rightarrow> rat \<Rightarrow> bool" where
  "num_gt (Fin q) r = (r < q)"
| "num_gt Infinity r = True"
| "num_gt _ r = False"

fun num_le :: "jsnum \<Rightarrow> rat \<Rightarrow> bool" where
  "num_le (Fin q) r = (q \<le> r)"
| "num_le NegInfinity r = True"
| "num_le _ r = False"

lemma nat_text_not_Nil [simp]: "nat_text n \<noteq> []"
  by (subst nat_text.simps) simp

lemma nat_text_digits: "list_all is_digit (nat_text n)"
proof (induction n rule: nat_text.induct)
  case (1 n)
  then show ?case by (cases "n < 10") (simp_all add: nat_text.simps [of n] is_digit_def)
qed

lemma nat_text_digit: "c \<in> set (nat_text n) \<Longrightarrow> is_digit c"
  using nat_text_digits [of n] by (simp add: list_all_iff)

lemma digits_val_snoc: "digits_val (s @ [c]) = digits_val s * 10 + (c - 48)"
  by (simp add: digits_val_def)

lemma digits_val_nat_text [simp]: "digits_val (nat_text n) = n"
proof (induction n rule: nat_text.induct)
  case (1 n)
  show ?case
  proof (cases "n < 10")
    case True
    then show ?thesis by (subst nat_text.simps) (simp add: digits_val_def)
  next
    case False
    then have "digits_val (nat_text n) = digits_val (nat_text (n div 10)) * 10 + n mod 10"
      by (subst nat_text.simps) (simp add: digits_val_snoc)
    with False "1" show ?thesis by simp
  qed
qed

lemma nat_text_hd: "is_digit (hd (nat_text n))"
  using nat_text_digits [of n] by (cases "nat_text n") auto

lemma digit_not_space: "is_digit c \<Longrightarrow> \<not> is_space c"
  by (auto simp: char_class_defs)

lemma takeWhile_nat_text [simp]: "takeWhile is_digit (nat_text n) = nat_text n"
  by (simp add: nat_text_digit)

lemma dropWhile_nat_text [simp]: "dropWhile is_digit (nat_text n) = []"
  by (simp add: nat_text_digit)

lemma signed_prefix_nat_text [simp]: "signed_prefix (nat_text n) = (1, nat_text n)"
  using nat_text_hd [of n]
  by (cases "nat_text n") (auto simp: signed_prefix_def is_digit_def)

lemma trim_nat_text [simp]: "trim (nat_text n) = nat_text n"
  by (rule trim_id) (simp add: digit_not_space nat_text_digit [of _ n])

lemma int_text_trim [simp]: "trim (int_text n) = int_text n"
proof (rule trim_id)
  have "last (int_text n) = last (nat_text (nat \<bar>n\<bar>))" by (auto simp: int_text_def)
  moreover have "\<not> is_space (last (nat_text (nat \<bar>n\<bar>)))"
    by (rule digit_not_space, rule nat_text_digit [of _ "nat \<bar>n\<bar>"]) simp
  moreover have "\<not> is_space (hd (int_text n))"
    using digit_not_space [OF nat_text_hd] by (auto simp: int_text_def is_space_def)
  ultimately show "int_text n = [] \<or> \<not> is_space (hd (int_text n)) \<and> \<not> is_space (last (int_text n))"
    by simp
qed

lemma parseInt_int_text [simp]: "parseInt (int_text n) = Some n"
proof (cases "n < 0")
  case True
  then show ?thesis
    by (simp add: parseInt_def int_text_def trimStart_def is_space_def signed_prefix_def)
next
  case False
  moreover have "trimStart (nat_text (nat n)) = nat_text (nat n)"
    using digit_not_space [OF nat_text_hd [of "nat n"]]
    by (cases "nat_text (nat n)") (auto simp: trimStart_def)
  ultimately show ?thesis by (simp add: parseInt_def int_text_def)
qed

lemma unsigned_decimal_nat_text [simp]: "unsigned_decimal (nat_text n) = Some (of_nat n)"
  by (simp add: unsigned_decimal_def exponent_part_def pow10_def)

lemma nat_text_prefix_second:
  "nat_text n = c # d # r \<Longrightarrow> is_digit d"
  by (metis insert_iff list.set(2) nat_text_digit)

lemma toNumber_nat_text [simp]: "toNumber (nat_text n) = Fin (of_nat n)"
proof -
  have nohex: "\<not> startsWith (nat_text n) [48, x]" if "\<not> is_digit x" for x
    using nat_text_prefix_second [of n] that by (auto simp: startsWith_iff)
  have "nat_text n \<noteq> js ''Infinity''"
    using nat_text_hd [of n] by (auto simp: js_def is_digit_def)
  then show ?thesis
    using nohex by (simp add: toNumber_def js_def is_digit_def)
qed

lemma isInteger_of_int [simp]: "isInteger (Fin (of_int n))"
  by simp

lemma isInteger_of_nat [simp]: "isInteger (Fin (of_nat n))"
  using isInteger_of_int [of "int n"] by simp

section \<open>The order of a set and of an object's keys\<close>

text \<open>\<open>[...new Set(xs)]\<close>: the first occurrence of each element, in order.\<close>

fun dedupe :: "'a list \<Rightarrow> 'a list" where
  "dedupe [] = []"
| "dedupe (x # xs) = x # filter (\<lambda>y. y \<noteq> x) (dedupe xs)"

lemma set_dedupe [simp]: "set (dedupe xs) = set xs"
  by (induction xs) auto

lemma distinct_dedupe [simp]: "distinct (dedupe xs)"
  by (induction xs) auto

lemma dedupe_distinct [simp]: "distinct xs \<Longrightarrow> dedupe xs = xs"
  by (induction xs) (auto simp: filter_id_conv)

lemma dedupe_snoc: "dedupe (xs @ [x]) = (if x \<in> set xs then dedupe xs else dedupe xs @ [x])"
  by (induction xs) auto

lemma find_in_set: "find P xs = Some x \<Longrightarrow> x \<in> set xs"
  by (auto simp: find_Some_iff)

section \<open>Computations with a state that may throw\<close>

text \<open>
  \<open>JsError m\<close> is a thrown \<open>Error\<close> with message \<open>m\<close>; \<open>OtherThrow t\<close>
  is a thrown value that is not an \<open>Error\<close> and whose \<open>String(err)\<close> is \<open>t\<close>. A computation takes the state and returns
  the exception or the result, with the new state: what was written before a throw stays.
\<close>

datatype exn = JsError jsstring | OtherThrow jsstring

type_synonym ('w, 'a) io = "'w \<Rightarrow> (exn + 'a) \<times> 'w"

definition ret :: "'a \<Rightarrow> ('w, 'a) io" where
  "ret x = (\<lambda>w. (Inr x, w))"

definition throw :: "exn \<Rightarrow> ('w, 'a) io" where
  "throw e = (\<lambda>w. (Inl e, w))"

definition bind :: "('w, 'a) io \<Rightarrow> ('a \<Rightarrow> ('w, 'b) io) \<Rightarrow> ('w, 'b) io" where
  "bind m f = (\<lambda>w. case m w of (Inl e, w') \<Rightarrow> (Inl e, w') | (Inr x, w') \<Rightarrow> f x w')"

definition seq :: "('w, 'a) io \<Rightarrow> ('w, 'b) io \<Rightarrow> ('w, 'b) io" where
  "seq m k = bind m (\<lambda>_. k)"

definition catch :: "('w, 'a) io \<Rightarrow> (exn \<Rightarrow> ('w, 'a) io) \<Rightarrow> ('w, 'a) io" where
  "catch m h = (\<lambda>w. case m w of (Inl e, w') \<Rightarrow> h e w' | (Inr x, w') \<Rightarrow> (Inr x, w'))"

definition gets :: "('w \<Rightarrow> 'a) \<Rightarrow> ('w, 'a) io" where
  "gets f = (\<lambda>w. (Inr (f w), w))"

definition modify :: "('w \<Rightarrow> 'w) \<Rightarrow> ('w, unit) io" where
  "modify f = (\<lambda>w. (Inr (), f w))"

lemmas io_defs = ret_def throw_def bind_def seq_def catch_def gets_def modify_def
declare io_defs [io_simps]

lemma bind_ok: "bind m f w = (Inr x, w') \<longleftrightarrow> (\<exists>y w1. m w = (Inr y, w1) \<and> f y w1 = (Inr x, w'))"
  by (auto simp: bind_def split: prod.splits sum.splits)

lemma seq_ok: "seq m k w = (Inr x, w') \<longleftrightarrow> (\<exists>y w1. m w = (Inr y, w1) \<and> k w1 = (Inr x, w'))"
  by (simp add: seq_def bind_ok)

lemma seq_assoc: "seq (seq a b) c = seq a (seq b c)"
  by (rule ext) (simp add: seq_def bind_def split: prod.splits sum.splits)

lemma catch_ok: "catch m h w = (Inr x, w') \<longleftrightarrow>
    m w = (Inr x, w') \<or> (\<exists>e w1. m w = (Inl e, w1) \<and> h e w1 = (Inr x, w'))"
  by (auto simp: catch_def split: prod.splits sum.splits)

text \<open>\<open>keeps f m\<close>: the part \<open>f\<close> of the state is the same after \<open>m\<close>, thrown or not.\<close>

definition keeps :: "('w \<Rightarrow> 'x) \<Rightarrow> ('w, 'a) io \<Rightarrow> bool" where
  "keeps f m \<longleftrightarrow> (\<forall>w. f (snd (m w)) = f w)"

lemma keepsD: "keeps f m \<Longrightarrow> m w = (r, w') \<Longrightarrow> f w' = f w"
  by (metis keeps_def snd_conv)

lemma keeps_basic [intro, simp]:
  "keeps f (ret x)" "keeps f (throw e)" "keeps f (gets g)"
  by (simp_all add: keeps_def io_simps)

lemma keeps_bind [intro]: "keeps f m \<Longrightarrow> (\<And>x. keeps f (k x)) \<Longrightarrow> keeps f (bind m k)"
  by (auto simp: keeps_def bind_def split: prod.splits sum.splits) (metis snd_conv)+

lemma keeps_seq [intro]: "keeps f m \<Longrightarrow> keeps f k \<Longrightarrow> keeps f (seq m k)"
  by (auto simp: seq_def)

lemma keeps_catch [intro]: "keeps f m \<Longrightarrow> (\<And>e. keeps f (h e)) \<Longrightarrow> keeps f (catch m h)"
  by (auto simp: keeps_def catch_def split: prod.splits sum.splits) (metis snd_conv)+

lemma keeps_modify [intro]: "(\<And>w. f (g w) = f w) \<Longrightarrow> keeps f (modify g)"
  by (simp add: keeps_def modify_def)

text \<open>\<open>err instanceof Error ? err.message : d\<close>.\<close>

fun err_message :: "exn \<Rightarrow> jsstring \<Rightarrow> jsstring" where
  "err_message (JsError m) d = m"
| "err_message (OtherThrow t) d = d"

end
