(* ===== verification/Json.thy ===== *)
theory Json
  imports JsBase
begin

text \<open>
  JSON values with \<open>JSON.stringify\<close> and \<open>JSON.parse\<close>, which the console uses for everything
  it keeps in the browser's storage, sends to the server or receives as text. The printer
  follows the well-formed variant of the language (lone surrogates are escaped); the parser
  is a recursive descent with a counter. \<open>pval_fuel_enough\<close> shows that the counter that
  \<open>JSON_parse\<close> starts with is enough for every text, and \<open>parse_stringify\<close> that parsing
  gives back what was printed.
\<close>

datatype json =
    JNull
  | JBool bool
  | JNum rat
  | JStr jsstring
  | JArr "json list"
  | JObj "(jsstring \<times> json) list"

section \<open>Printing\<close>

definition hex_char :: "nat \<Rightarrow> nat" where
  "hex_char d = (if d < 10 then 48 + d else 87 + d)"

definition unicode_escape :: "nat \<Rightarrow> jsstring" where
  "unicode_escape c =
     [92, 117, hex_char (c div 4096 mod 16), hex_char (c div 256 mod 16),
      hex_char (c div 16 mod 16), hex_char (c mod 16)]"

definition high_surrogate :: "nat \<Rightarrow> bool" where
  "high_surrogate c \<longleftrightarrow> 55296 \<le> c \<and> c \<le> 56319"

definition low_surrogate :: "nat \<Rightarrow> bool" where
  "low_surrogate c \<longleftrightarrow> 56320 \<le> c \<and> c \<le> 57343"

definition quote_char :: "nat \<Rightarrow> jsstring" where
  "quote_char c =
     (if c = 34 then [92, 34] else if c = 92 then [92, 92]
      else if c = 8 then [92, 98] else if c = 12 then [92, 102]
      else if c = 10 then [92, 110] else if c = 13 then [92, 114]
      else if c = 9 then [92, 116]
      else if c < 32 \<or> high_surrogate c \<or> low_surrogate c then unicode_escape c
      else [c])"

fun quote_chars :: "jsstring \<Rightarrow> jsstring" where
  "quote_chars [] = []"
| "quote_chars [c] = quote_char c"
| "quote_chars (c # d # s) =
     (if high_surrogate c \<and> low_surrogate d then c # d # quote_chars s
      else quote_char c @ quote_chars (d # s))"

definition quote :: "jsstring \<Rightarrow> jsstring" where
  "quote s = 34 # quote_chars s @ [34]"

text \<open>The decimal digits of a number that is not an integer.\<close>

definition frac_places :: "rat \<Rightarrow> nat" where
  "frac_places q =
     (case filter (\<lambda>k. of_int \<lfloor>q * 10 ^ k\<rfloor> = q * 10 ^ k) [1..<18] of [] \<Rightarrow> 17 | k # _ \<Rightarrow> k)"

definition pad_zeros :: "nat \<Rightarrow> jsstring \<Rightarrow> jsstring" where
  "pad_zeros k s = replicate (k - length s) 48 @ s"

definition num_text :: "rat \<Rightarrow> jsstring" where
  "num_text q =
     (if of_int \<lfloor>q\<rfloor> = q then int_text \<lfloor>q\<rfloor>
      else (let k = frac_places \<bar>q\<bar>; n = nat \<lfloor>\<bar>q\<bar> * 10 ^ k\<rfloor>
            in (if q < 0 then [45] else []) @ nat_text (n div 10 ^ k) @ [46]
               @ pad_zeros k (nat_text (n mod 10 ^ k))))"

fun stringify :: "json \<Rightarrow> jsstring"
and stringify_list :: "json list \<Rightarrow> jsstring"
and stringify_members :: "(jsstring \<times> json) list \<Rightarrow> jsstring" where
  "stringify JNull = js ''null''"
| "stringify (JBool b) = (if b then js ''true'' else js ''false'')"
| "stringify (JNum q) = num_text q"
| "stringify (JStr s) = quote s"
| "stringify (JArr vs) = 91 # stringify_list vs @ [93]"
| "stringify (JObj ms) = 123 # stringify_members ms @ [125]"
| "stringify_list [] = []"
| "stringify_list (v # vs) =
     stringify v @ (if vs = [] then [] else 44 # stringify_list vs)"
| "stringify_members [] = []"
| "stringify_members ((k, v) # ms) =
     quote k @ 58 # stringify v @ (if ms = [] then [] else 44 # stringify_members ms)"

section \<open>Parsing\<close>

definition json_space :: "nat \<Rightarrow> bool" where
  "json_space c \<longleftrightarrow> c = 32 \<or> c = 9 \<or> c = 10 \<or> c = 13"

definition skip_ws :: "jsstring \<Rightarrow> jsstring" where
  "skip_ws s = dropWhile json_space s"

definition hex4 :: "nat \<Rightarrow> nat \<Rightarrow> nat \<Rightarrow> nat \<Rightarrow> nat option" where
  "hex4 a b c d =
     (if is_hex a \<and> is_hex b \<and> is_hex c \<and> is_hex d
      then Some (((hex_digit_val a * 16 + hex_digit_val b) * 16 + hex_digit_val c) * 16
                 + hex_digit_val d)
      else None)"

definition simple_escape :: "nat \<Rightarrow> nat option" where
  "simple_escape e =
     (if e = 34 then Some 34 else if e = 92 then Some 92 else if e = 47 then Some 47
      else if e = 98 then Some 8 else if e = 102 then Some 12 else if e = 110 then Some 10
      else if e = 114 then Some 13 else if e = 116 then Some 9 else None)"

definition push_char :: "nat \<Rightarrow> (jsstring \<times> jsstring) option \<Rightarrow> (jsstring \<times> jsstring) option" where
  "push_char c r = map_option (\<lambda>(s, rest). (c # s, rest)) r"

text \<open>The characters of a string up to its closing quote.\<close>

fun pchars :: "jsstring \<Rightarrow> (jsstring \<times> jsstring) option" where
  "pchars [] = None"
| "pchars (c # r) =
     (if c = 34 then Some ([], r)
      else if c = 92 then
        (case r of
           [] \<Rightarrow> None
         | e # r1 \<Rightarrow>
             if e = 117 then
               (case r1 of
                  h1 # h2 # h3 # h4 # r2 \<Rightarrow>
                    (case hex4 h1 h2 h3 h4 of None \<Rightarrow> None | Some u \<Rightarrow> push_char u (pchars r2))
                | _ \<Rightarrow> None)
             else (case simple_escape e of None \<Rightarrow> None | Some u \<Rightarrow> push_char u (pchars r1)))
      else if c < 32 then None
      else push_char c (pchars r))"

definition pfrac :: "jsstring \<Rightarrow> (jsstring \<times> jsstring) option" where
  "pfrac r = (case r of
      [] \<Rightarrow> Some ([], [])
    | c # q \<Rightarrow>
        if c = 46 then
          (if takeWhile is_digit q = [] then None
           else Some (takeWhile is_digit q, dropWhile is_digit q))
        else Some ([], r))"

definition pexp :: "jsstring \<Rightarrow> (int \<times> jsstring) option" where
  "pexp r = (case r of
      [] \<Rightarrow> Some (0, [])
    | c # q \<Rightarrow>
        if c = 101 \<or> c = 69 then
          (let (sg, ds) = signed_prefix q
           in if takeWhile is_digit ds = [] then None
              else Some (sg * int (digits_val (takeWhile is_digit ds)), dropWhile is_digit ds))
        else Some (0, r))"

definition pnumber :: "jsstring \<Rightarrow> (json \<times> jsstring) option" where
  "pnumber s =
     (let (sg, r) = (case s of [] \<Rightarrow> (1, []) | c # q \<Rightarrow> if c = 45 then (-1, q) else (1::rat, s));
          ip = takeWhile is_digit r
      in if ip = [] \<or> (1 < length ip \<and> hd ip = 48) then None
         else case pfrac (dropWhile is_digit r) of
            None \<Rightarrow> None
          | Some (fp, r1) \<Rightarrow>
              (case pexp r1 of
                 None \<Rightarrow> None
               | Some (e, r2) \<Rightarrow>
                   Some (JNum (sg * (of_nat (digits_val (ip @ fp)) * pow10 (e - int (length fp)))), r2)))"

definition pliteral :: "jsstring \<Rightarrow> (json \<times> jsstring) option" where
  "pliteral s =
     (if startsWith s (js ''true'') then Some (JBool True, drop 4 s)
      else if startsWith s (js ''false'') then Some (JBool False, drop 5 s)
      else if startsWith s (js ''null'') then Some (JNull, drop 4 s)
      else pnumber s)"

fun pval :: "nat \<Rightarrow> jsstring \<Rightarrow> (json \<times> jsstring) option"
and pelems :: "nat \<Rightarrow> jsstring \<Rightarrow> (json list \<times> jsstring) option"
and pmembers :: "nat \<Rightarrow> jsstring \<Rightarrow> ((jsstring \<times> json) list \<times> jsstring) option" where
  "pval 0 s = None"
| "pval (Suc n) s =
     (case skip_ws s of
        [] \<Rightarrow> None
      | c # r \<Rightarrow>
          if c = 91 then
            (if startsWith (skip_ws r) [93] then Some (JArr [], tl (skip_ws r))
             else map_option (\<lambda>(vs, q). (JArr vs, q)) (pelems n r))
          else if c = 123 then
            (if startsWith (skip_ws r) [125] then Some (JObj [], tl (skip_ws r))
             else map_option (\<lambda>(ms, q). (JObj ms, q)) (pmembers n r))
          else if c = 34 then map_option (\<lambda>(s, q). (JStr s, q)) (pchars r)
          else pliteral (c # r))"
| "pelems 0 s = None"
| "pelems (Suc n) s =
     (case pval n s of
        None \<Rightarrow> None
      | Some (v, r) \<Rightarrow>
          (case skip_ws r of
             [] \<Rightarrow> None
           | c # q \<Rightarrow>
               if c = 44 then map_option (\<lambda>(vs, q'). (v # vs, q')) (pelems n q)
               else if c = 93 then Some ([v], q) else None))"
| "pmembers 0 s = None"
| "pmembers (Suc n) s =
     (case skip_ws s of
        [] \<Rightarrow> None
      | c # r \<Rightarrow>
          if c \<noteq> 34 then None
          else (case pchars r of
             None \<Rightarrow> None
           | Some (k, r1) \<Rightarrow>
               (case skip_ws r1 of
                  [] \<Rightarrow> None
                | d # r2 \<Rightarrow>
                    if d \<noteq> 58 then None
                    else (case pval n r2 of
                       None \<Rightarrow> None
                     | Some (v, r3) \<Rightarrow>
                         (case skip_ws r3 of
                            [] \<Rightarrow> None
                          | e # q \<Rightarrow>
                              if e = 44 then map_option (\<lambda>(ms, q'). ((k, v) # ms, q')) (pmembers n q)
                              else if e = 125 then Some ([(k, v)], q) else None)))))"

definition JSON_parse :: "jsstring \<Rightarrow> json option" where
  "JSON_parse s =
     (case pval (2 * length s + 2) s of
        None \<Rightarrow> None
      | Some (v, r) \<Rightarrow> if skip_ws r = [] then Some v else None)"

section \<open>Reading members\<close>

text \<open>
  \<open>v.k\<close> on a parsed value: the last member with that name, \<open>None\<close> for \<open>undefined\<close>. The names
  the code reads are not properties of numbers, strings, booleans or arrays. \<open>truthy\<close> is the
  test that \<open>!v\<close> negates.
\<close>

fun getp :: "json \<Rightarrow> jsstring \<Rightarrow> json option" where
  "getp (JObj ms) k = map_of (rev ms) k"
| "getp _ k = None"

fun truthy :: "json \<Rightarrow> bool" where
  "truthy JNull = False"
| "truthy (JBool b) = b"
| "truthy (JNum q) = (q \<noteq> 0)"
| "truthy (JStr s) = (s \<noteq> [])"
| "truthy _ = True"

fun as_string :: "json option \<Rightarrow> jsstring option" where
  "as_string (Some (JStr s)) = Some s"
| "as_string _ = None"

fun as_number :: "json option \<Rightarrow> rat option" where
  "as_number (Some (JNum q)) = Some q"
| "as_number _ = None"

fun as_bool :: "json option \<Rightarrow> bool option" where
  "as_bool (Some (JBool b)) = Some b"
| "as_bool _ = None"

section \<open>Facts about the parser\<close>

lemma skip_ws_length: "length (skip_ws s) \<le> length s"
  by (simp add: skip_ws_def length_dropWhile_le)

lemma skip_ws_Cons: "skip_ws s = c # r \<Longrightarrow> length r < length s"
  using skip_ws_length [of s] by simp

lemma pchars_shorter: "pchars s = Some (t, r) \<Longrightarrow> length r < length s"
proof (induction s arbitrary: t r rule: pchars.induct)
  case 1
  then show ?case by simp
next
  case (2 c s)
  then show ?case
    by (fastforce simp: push_char_def split: if_splits list.splits option.splits)
qed

lemma pfrac_length: "pfrac r = Some (f, q) \<Longrightarrow> length q \<le> length r"
  by (auto simp: pfrac_def le_SucI length_dropWhile_le split: list.splits if_splits)

lemma signed_prefix_length: "signed_prefix s = (sg, r) \<Longrightarrow> length r \<le> length s"
  by (auto simp: signed_prefix_def split: list.splits if_splits)

lemma pexp_length: "pexp r = Some (e, q) \<Longrightarrow> length q \<le> length r"
  using le_trans [OF length_dropWhile_le signed_prefix_length]
  by (fastforce simp: pexp_def le_SucI Let_def split: list.splits if_splits prod.splits)

lemma dropWhile_shorter: "takeWhile P s \<noteq> [] \<Longrightarrow> length (dropWhile P s) < length s"
proof -
  assume "takeWhile P s \<noteq> []"
  moreover have "length (takeWhile P s) + length (dropWhile P s) = length s"
    by (metis length_append takeWhile_dropWhile_id)
  ultimately show ?thesis by (cases "takeWhile P s") auto
qed

lemma pnumber_shorter: "pnumber s = Some (v, q) \<Longrightarrow> length q < length s"
proof -
  assume p: "pnumber s = Some (v, q)"
  obtain sg r where sr: "(case s of [] \<Rightarrow> (1, []) | c # q \<Rightarrow> if c = 45 then (-1, q) else (1::rat, s)) = (sg, r)"
    by force
  then have lr: "length r \<le> length s" by (auto split: list.splits if_splits)
  from p sr obtain fp r1 e where
    ip: "takeWhile is_digit r \<noteq> []" and f: "pfrac (dropWhile is_digit r) = Some (fp, r1)"
    and e: "pexp r1 = Some (e, q)"
    by (auto simp: pnumber_def Let_def split: if_splits option.splits)
  have "length q \<le> length (dropWhile is_digit r)"
    using pexp_length [OF e] pfrac_length [OF f] by simp
  also have "\<dots> < length r" using ip by (rule dropWhile_shorter)
  finally show ?thesis using lr by simp
qed

lemma pliteral_shorter: "pliteral s = Some (v, q) \<Longrightarrow> length q < length s"
  using pnumber_shorter [of s v q]
  by (auto simp: pliteral_def startsWith_iff split: if_splits)

lemma skip_ws_tl: "startsWith (skip_ws s) [c] \<Longrightarrow> length (tl (skip_ws s)) < length s"
  using skip_ws_length [of s] by (auto simp: startsWith_iff)

lemma pval_shorter_step:
  assumes e: "\<And>vs r s. pelems n s = Some (vs, r) \<Longrightarrow> length r < length s"
    and m: "\<And>ms r s. pmembers n s = Some (ms, r) \<Longrightarrow> length r < length s"
    and p: "pval (Suc n) s = Some (v, r)"
  shows "length r < length s"
proof -
  from p obtain c t where ct: "skip_ws s = c # t" by (auto split: list.splits)
  then have lt: "length t < length s" by (rule skip_ws_Cons)
  consider "c = 91" | "c = 123" | "c = 34" | "c \<noteq> 91" "c \<noteq> 123" "c \<noteq> 34" by blast
  then show ?thesis
  proof cases
    case 1
    then show ?thesis using p ct lt e [of t] skip_ws_tl [of t 93]
      by (auto split: if_splits)
  next
    case 2
    then show ?thesis using p ct lt m [of t] skip_ws_tl [of t 125]
      by (auto split: if_splits)
  next
    case 3
    then show ?thesis using p ct lt pchars_shorter [of t] by fastforce
  next
    case 4
    then show ?thesis using p ct lt pliteral_shorter [of "c # t"] by fastforce
  qed
qed

lemma pelems_shorter_step:
  assumes v: "\<And>v r s. pval n s = Some (v, r) \<Longrightarrow> length r < length s"
    and e: "\<And>vs r s. pelems n s = Some (vs, r) \<Longrightarrow> length r < length s"
    and p: "pelems (Suc n) s = Some (vs, r)"
  shows "length r < length s"
proof -
  from p obtain x t where x: "pval n s = Some (x, t)" by (auto split: option.splits)
  from p x obtain c q where c: "skip_ws t = c # q" by (auto split: list.splits)
  have "length q < length s" using v [OF x] skip_ws_Cons [OF c] by simp
  then show ?thesis using p x c e [of q] by (auto split: if_splits)
qed

lemma pmembers_shorter_step:
  assumes v: "\<And>v r s. pval n s = Some (v, r) \<Longrightarrow> length r < length s"
    and m: "\<And>ms r s. pmembers n s = Some (ms, r) \<Longrightarrow> length r < length s"
    and p: "pmembers (Suc n) s = Some (ms, r)"
  shows "length r < length s"
proof -
  from p obtain c t where c: "skip_ws s = c # t" "c = 34" by (auto split: list.splits if_splits)
  from p c obtain k t1 where k: "pchars t = Some (k, t1)" by (auto split: option.splits)
  from p c k obtain d t2 where d: "skip_ws t1 = d # t2" "d = 58"
    by (auto split: list.splits if_splits)
  from p c k d obtain x t3 where x: "pval n t2 = Some (x, t3)" by (auto split: option.splits)
  from p c k d x obtain e q where q: "skip_ws t3 = e # q" by (auto split: list.splits)
  have "length q < length s"
    using skip_ws_Cons [OF c(1)] pchars_shorter [OF k] skip_ws_Cons [OF d(1)] v [OF x]
      skip_ws_Cons [OF q] by simp
  then show ?thesis using p c k d x q m [of q] by (auto split: if_splits)
qed

lemma parser_shorter:
  "(\<forall>s v r. pval n s = Some (v, r) \<longrightarrow> length r < length s) \<and>
   (\<forall>s vs r. pelems n s = Some (vs, r) \<longrightarrow> length r < length s) \<and>
   (\<forall>s ms r. pmembers n s = Some (ms, r) \<longrightarrow> length r < length s)"
proof (induction n)
  case (Suc n)
  have v: "length r < length s" if "pval n s = Some (v, r)" for s v r using Suc that by blast
  have e: "length r < length s" if "pelems n s = Some (vs, r)" for s vs r using Suc that by blast
  have m: "length r < length s" if "pmembers n s = Some (ms, r)" for s ms r using Suc that by blast
  have "length r < length s" if "pval (Suc n) s = Some (v, r)" for s v r
    using e m that by (rule pval_shorter_step)
  moreover have "length r < length s" if "pelems (Suc n) s = Some (vs, r)" for s vs r
    using v e that by (rule pelems_shorter_step)
  moreover have "length r < length s" if "pmembers (Suc n) s = Some (ms, r)" for s ms r
    using v m that by (rule pmembers_shorter_step)
  ultimately show ?case by blast
qed simp

lemmas pval_shorter = parser_shorter [THEN conjunct1, rule_format]
lemmas pelems_shorter = parser_shorter [THEN conjunct2, THEN conjunct1, rule_format]
lemmas pmembers_shorter = parser_shorter [THEN conjunct2, THEN conjunct2, rule_format]

text \<open>One more unit of the counter changes nothing once there are two units per code unit.\<close>

lemma parser_fuel_Suc:
  "(\<forall>s. 2 * length s + 2 \<le> n \<longrightarrow> pval (Suc n) s = pval n s) \<and>
   (\<forall>s. 2 * length s + 3 \<le> n \<longrightarrow> pelems (Suc n) s = pelems n s) \<and>
   (\<forall>s. 2 * length s + 3 \<le> n \<longrightarrow> pmembers (Suc n) s = pmembers n s)"
proof (induction n)
  case (Suc n)
  have v: "pval (Suc n) s = pval n s" if "2 * length s + 2 \<le> n" for s using Suc that by blast
  have e: "pelems (Suc n) s = pelems n s" if "2 * length s + 3 \<le> n" for s using Suc that by blast
  have m: "pmembers (Suc n) s = pmembers n s" if "2 * length s + 3 \<le> n" for s using Suc that by blast
  have A: "pval (Suc (Suc n)) s = pval (Suc n) s" if l: "2 * length s + 2 \<le> Suc n" for s
  proof (cases "skip_ws s")
    case (Cons c r)
    then have "2 * length r + 3 \<le> n" using l skip_ws_Cons [OF Cons] by simp
    then show ?thesis using Cons e [of r] m [of r] by (simp del: pelems.simps pmembers.simps)
  qed simp
  have B: "pelems (Suc (Suc n)) s = pelems (Suc n) s" if l: "2 * length s + 3 \<le> Suc n" for s
  proof (cases "pval n s")
    case None
    then show ?thesis using v [of s] l by (simp del: pval.simps)
  next
    case (Some a)
    obtain x r where a: "a = (x, r)" by force
    show ?thesis
    proof (cases "skip_ws r")
      case (Cons c q)
      then have "2 * length q + 3 \<le> n"
        using l skip_ws_Cons [OF Cons] pval_shorter [of n s x r] Some a by simp
      then show ?thesis using v [of s] l e [of q] Some a Cons by (simp del: pval.simps pelems.simps(2) add: pelems.simps(2) [of "Suc n"] pelems.simps(2) [of n s])
    qed (use v [of s] l Some a in \<open>simp del: pval.simps\<close>)
  qed
  have C: "pmembers (Suc (Suc n)) s = pmembers (Suc n) s" if l: "2 * length s + 3 \<le> Suc n" for s
  proof (cases "\<exists>t k t1 t2. skip_ws s = 34 # t \<and> pchars t = Some (k, t1) \<and> skip_ws t1 = 58 # t2")
    case True
    then obtain t k t1 t2 where h: "skip_ws s = 34 # t" "pchars t = Some (k, t1)" "skip_ws t1 = 58 # t2"
      by blast
    have l2: "length t2 < length s"
      using skip_ws_Cons [OF h(1)] pchars_shorter [OF h(2)] skip_ws_Cons [OF h(3)] by simp
    then have vt: "pval (Suc n) t2 = pval n t2" using l by (intro v) simp
    show ?thesis
    proof (cases "pval n t2")
      case None
      then show ?thesis using h vt by (simp del: pval.simps)
    next
      case (Some a)
      obtain x r where a: "a = (x, r)" by force
      show ?thesis
      proof (cases "skip_ws r")
        case (Cons c q)
        then have "2 * length q + 3 \<le> n"
          using l l2 skip_ws_Cons [OF Cons] pval_shorter [of n t2 x r] Some a by simp
        then show ?thesis using h vt m [of q] Some a Cons by (simp del: pval.simps pmembers.simps(2) add: pmembers.simps(2) [of "Suc n"] pmembers.simps(2) [of n s])
      qed (use h vt Some a in \<open>simp del: pval.simps\<close>)
    qed
  next
    case False
    then show ?thesis by (auto simp del: pval.simps split: list.splits option.splits)
  qed
  from A B C show ?case by blast
qed simp

lemma pval_fuel_enough: "pval (2 * length s + 2 + k) s = pval (2 * length s + 2) s"
proof (induction k)
  case (Suc k)
  then show ?case using parser_fuel_Suc [of "2 * length s + 2 + k"] by simp
qed simp

section \<open>Parsing what was printed\<close>

text \<open>
  The values that are read back: every number is a decimal fraction of at most seventeen places and every
  string consists of 16-bit code units.
\<close>

definition decimal :: "rat \<Rightarrow> bool" where
  "decimal q \<longleftrightarrow> of_int \<lfloor>q * 10 ^ 17\<rfloor> = q * 10 ^ 17"

definition code_units :: "jsstring \<Rightarrow> bool" where
  "code_units s \<longleftrightarrow> list_all (\<lambda>c. c < 65536) s"

fun wf_json :: "json \<Rightarrow> bool" where
  "wf_json (JNum q) = decimal q"
| "wf_json (JStr s) = code_units s"
| "wf_json (JArr vs) = list_all wf_json vs"
| "wf_json (JObj ms) = list_all (\<lambda>(k, v). code_units k \<and> wf_json v) ms"
| "wf_json _ = True"

lemma decimal_integer [simp]: "decimal (of_int n)" "decimal (of_nat m)" "decimal 0" "decimal 1" "decimal (numeral k)"
proof -
  show n: "decimal (of_int n)" for n
  proof -
    have "(of_int n :: rat) * 10 ^ 17 = of_int (n * 10 ^ 17)"
      by simp
    then show ?thesis
      unfolding decimal_def by (metis floor_of_int)
  qed
  from n [of "int m"] n [of 0] n [of 1] n [of "numeral k"]
  show "decimal (of_nat m)" "decimal 0" "decimal 1" "decimal (numeral k)"
    by simp_all
qed

lemma code_units_js [simp]: "code_units (js s)"
  by (induction s) (auto simp: code_units_def js_def intro: less_trans [OF nat_of_char_less_256])

lemma hex_char_is_hex: "d < 16 \<Longrightarrow> is_hex (hex_char d)"
  by (auto simp: hex_char_def is_hex_def is_digit_def)

lemma hex_digit_val_hex_char [simp]: "d < 16 \<Longrightarrow> hex_digit_val (hex_char d) = d"
  by (auto simp: hex_char_def hex_digit_val_def is_digit_def)

lemma hex4_hex_char:
  assumes "c < 65536"
  shows "hex4 (hex_char (c div 4096 mod 16)) (hex_char (c div 256 mod 16))
      (hex_char (c div 16 mod 16)) (hex_char (c mod 16)) = Some c"
proof -
  have a: "c div 4096 mod 16 = c div 4096" using assms by simp
  have b: "c div 4096 * 16 + c div 256 mod 16 = c div 256"
    using div_mult_mod_eq [of "c div 256" 16] by (simp flip: div_mult2_eq)
  have d: "c div 256 * 16 + c div 16 mod 16 = c div 16"
    using div_mult_mod_eq [of "c div 16" 16] by (simp flip: div_mult2_eq)
  have "((c div 4096 mod 16 * 16 + c div 256 mod 16) * 16 + c div 16 mod 16) * 16 + c mod 16 = c"
    unfolding a b d by simp
  moreover have "hex_digit_val (hex_char (k mod 16)) = k mod 16" "is_hex (hex_char (k mod 16))" for k
    by (simp_all add: hex_char_is_hex)
  ultimately show ?thesis by (simp only: hex4_def if_True simp_thms)
qed

lemma pchars_unicode_escape:
  "c < 65536 \<Longrightarrow> pchars (unicode_escape c @ r) = push_char c (pchars r)"
  using hex4_hex_char [of c] by (simp add: unicode_escape_def)

lemma pchars_quote_char: "c < 65536 \<Longrightarrow> pchars (quote_char c @ r) = push_char c (pchars r)"
  by (auto simp: quote_char_def pchars_unicode_escape simple_escape_def)

lemma pchars_quote_chars:
  "code_units s \<Longrightarrow> pchars (quote_chars s @ 34 # r) = Some (s, r)"
proof (induction s rule: quote_chars.induct)
  case (2 c)
  then show ?case by (simp add: pchars_quote_char code_units_def push_char_def)
next
  case (3 c d s)
  then show ?case
    by (auto simp: pchars_quote_char code_units_def push_char_def high_surrogate_def
        low_surrogate_def)
qed simp

definition delimited :: "jsstring \<Rightarrow> bool" where
  "delimited r \<longleftrightarrow> r = [] \<or> hd r \<in> {44, 93, 125}"

lemma nat_text_no_leading_zero: "1 < length (nat_text n) \<Longrightarrow> hd (nat_text n) \<noteq> 48"
proof (induction n rule: nat_text.induct)
  case (1 n)
  show ?case
  proof (cases "n < 10")
    case True
    then show ?thesis using "1.prems" by (simp add: nat_text.simps [of n])
  next
    case False
    then have n: "nat_text n = nat_text (n div 10) @ [48 + n mod 10]"
      by (simp add: nat_text.simps [of n])
    show ?thesis
    proof (cases "1 < length (nat_text (n div 10))")
      case True
      then show ?thesis using "1.IH" False n by simp
    next
      case short: False
      then have "n div 10 < 10"
        by (subst (asm) nat_text.simps) (auto split: if_splits simp: nat_text.simps [of "n div 10 div 10"])
      then have "nat_text (n div 10) = [48 + n div 10]" by (simp add: nat_text.simps [of "n div 10"])
      then show ?thesis using n False by simp
    qed
  qed
qed

lemma delimited_not_digit: "delimited r \<Longrightarrow> r = [] \<or> \<not> is_digit (hd r)"
  by (auto simp: delimited_def is_digit_def)

lemma takeWhile_nat_text_append:
  "delimited r \<Longrightarrow> takeWhile is_digit (nat_text n @ r) = nat_text n"
  "delimited r \<Longrightarrow> dropWhile is_digit (nat_text n @ r) = r"
  using nat_text_digit [of _ n]
  by (cases r; auto simp: takeWhile_append2 dropWhile_append2 delimited_def is_digit_def)+

lemma pfrac_delimited: "delimited r \<Longrightarrow> pfrac r = Some ([], r)"
  by (cases r) (auto simp: pfrac_def delimited_def)

lemma pexp_delimited: "delimited r \<Longrightarrow> pexp r = Some (0, r)"
  by (cases r) (auto simp: pexp_def delimited_def)

lemma pnumber_int_text:
  assumes r: "delimited r"
  shows "pnumber (int_text n @ r) = Some (JNum (of_int n), r)"
proof (cases "n < 0")
  case True
  then show ?thesis using r nat_text_no_leading_zero [of "nat (- n)"]
    by (auto simp: pnumber_def int_text_def takeWhile_nat_text_append pfrac_delimited pexp_delimited pow10_def Let_def)
next
  case False
  obtain c q where c: "nat_text (nat n) = c # q" "is_digit c"
    using nat_text_hd [of "nat n"] by (cases "nat_text (nat n)") auto
  then have "(case nat_text (nat n) @ r of [] \<Rightarrow> (1, []) | c # q \<Rightarrow> if c = 45 then (-1, q) else (1::rat, nat_text (nat n) @ r))
      = (1, nat_text (nat n) @ r)" by (auto simp: is_digit_def)
  then show ?thesis using r False nat_text_no_leading_zero [of "nat n"]
    by (auto simp: pnumber_def int_text_def takeWhile_nat_text_append pfrac_delimited pexp_delimited pow10_def Let_def simp del: list.case)
qed

lemma int_text_start:
  obtains c t where "int_text n = c # t" "c = 45 \<or> (48 \<le> c \<and> c \<le> 57)"
proof (cases "n < 0")
  case True
  then show ?thesis using that by (simp add: int_text_def)
next
  case False
  then show ?thesis using that nat_text_hd [of "nat n"]
    by (cases "nat_text (nat n)") (auto simp: int_text_def is_digit_def)
qed

lemma num_text_start:
  obtains c t where "num_text q = c # t" "c = 45 \<or> (48 \<le> c \<and> c \<le> 57)"
proof (cases "of_int \<lfloor>q\<rfloor> = q")
  case True
  then show ?thesis
    using that by (metis int_text_start num_text_def)
next
  case False
  let ?m = "nat \<lfloor>\<bar>q\<bar> * 10 ^ frac_places \<bar>q\<bar>\<rfloor> div 10 ^ frac_places \<bar>q\<bar>"
  obtain c t where "nat_text ?m = c # t" "is_digit c"
    using nat_text_hd [of ?m] by (cases "nat_text ?m") auto
  then show ?thesis
    using False that by (cases "q < 0") (auto simp: num_text_def Let_def is_digit_def)
qed

lemma stringify_start:
  "wf_json v \<Longrightarrow> stringify v \<noteq> [] \<and> \<not> json_space (hd (stringify v)) \<and> hd (stringify v) \<noteq> 93 \<and> hd (stringify v) \<noteq> 125"
proof (cases v)
  case (JNum q)
  obtain c t where "num_text q = c # t" "c = 45 \<or> (48 \<le> c \<and> c \<le> 57)"
    by (rule num_text_start)
  then show ?thesis using JNum by (auto simp: json_space_def)
qed (auto simp: quote_def js_def json_space_def)

text \<open>A fraction is read back: its digits are the integer part and the padded places.\<close>

lemma digits_val_append: "digits_val (s @ t) = digits_val s * 10 ^ length t + digits_val t"
proof (induction t rule: rev_induct)
  case (snoc c t)
  have "digits_val (s @ t @ [c]) = digits_val (s @ t) * 10 + (c - 48)"
    using digits_val_snoc [of "s @ t" c] by simp
  then show ?case
    using snoc by (simp add: digits_val_snoc algebra_simps)
qed (simp add: digits_val_def)

lemma digits_val_zeros: "digits_val (replicate n 48 @ s) = digits_val s"
  by (induction n) (simp_all add: digits_val_def)

lemma length_nat_text_le: "m < 10 ^ k \<Longrightarrow> 0 < k \<Longrightarrow> length (nat_text m) \<le> k"
proof (induction k arbitrary: m)
  case (Suc k)
  show ?case
  proof (cases "m < 10")
    case True
    then show ?thesis by (simp add: nat_text.simps [of m])
  next
    case False
    then have "0 < k" using Suc.prems(1) by (cases k) auto
    moreover have "m div 10 < 10 ^ k" using Suc.prems(1) by (simp add: less_mult_imp_div_less mult.commute)
    ultimately show ?thesis using Suc.IH [of "m div 10"] False by (simp add: nat_text.simps [of m])
  qed
qed simp

lemma pad_zeros_facts:
  assumes "m < 10 ^ k" "0 < k"
  shows "length (pad_zeros k (nat_text m)) = k" "digits_val (pad_zeros k (nat_text m)) = m"
    "list_all is_digit (pad_zeros k (nat_text m))"
  using length_nat_text_le [OF assms] nat_text_digits [of m]
  by (auto simp: pad_zeros_def digits_val_zeros list_all_iff is_digit_def)

lemma frac_places_exact:
  assumes "decimal q"
  shows "of_int \<lfloor>q * 10 ^ frac_places q\<rfloor> = q * 10 ^ frac_places q" "0 < frac_places q"
proof -
  let ?P = "\<lambda>k. of_int \<lfloor>q * 10 ^ k\<rfloor> = q * 10 ^ k"
  have "17 \<in> set (filter ?P [1..<18])"
    using assms by (simp add: decimal_def)
  then obtain k ks where f: "filter ?P [1..<18] = k # ks"
    by (metis empty_iff empty_set list.exhaust)
  then have "k \<in> set (filter ?P [1..<18])"
    by simp
  moreover have "frac_places q = k"
    unfolding frac_places_def f by simp
  ultimately show "of_int \<lfloor>q * 10 ^ frac_places q\<rfloor> = q * 10 ^ frac_places q" "0 < frac_places q"
    by auto
qed

lemma decimal_abs: "decimal q \<Longrightarrow> decimal \<bar>q\<bar>"
proof (cases "0 \<le> q")
  case False
  assume "decimal q"
  then have "q * 10 ^ 17 \<in> \<int>" by (metis Ints_of_int decimal_def)
  then have "- (q * 10 ^ 17) \<in> \<int>" by simp
  then show ?thesis using False by (simp add: decimal_def)
qed simp

lemma pnumber_fraction:
  fixes n k :: nat
  assumes "delimited r" "0 < k" "sg = 1 \<or> sg = (-1::rat)"
  shows "pnumber ((if sg < 0 then [45] else []) @ nat_text (n div 10 ^ k) @ [46] @
      pad_zeros k (nat_text (n mod 10 ^ k)) @ r) = Some (JNum (sg * (of_nat n / 10 ^ k)), r)"
proof -
  let ?i = "nat_text (n div 10 ^ k)" and ?f = "pad_zeros k (nat_text (n mod 10 ^ k))"
  have f: "length ?f = k" "digits_val ?f = n mod 10 ^ k" "list_all is_digit ?f"
    using pad_zeros_facts [of "n mod 10 ^ k" k] assms(2) by simp_all
  have dot: "takeWhile is_digit (?i @ 46 # ?f @ r) = ?i" "dropWhile is_digit (?i @ 46 # ?f @ r) = 46 # ?f @ r"
    using nat_text_digits [of "n div 10 ^ k"]
    by (simp_all add: takeWhile_append2 dropWhile_append2 list_all_iff is_digit_def)
  have stop: "takeWhile is_digit r = []" "dropWhile is_digit r = r"
    using delimited_not_digit [OF assms(1)] by (cases r; auto)+
  have frac: "pfrac (46 # ?f @ r) = Some (?f, r)"
    using f(1,3) assms(2) stop
    by (auto simp: pfrac_def takeWhile_append2 dropWhile_append2 list_all_iff)
  obtain c q where c: "?i = c # q" "is_digit c"
    using nat_text_hd [of "n div 10 ^ k"] by (cases ?i) auto
  have lead: "\<not> (1 < length ?i \<and> hd ?i = 48)"
    using nat_text_no_leading_zero [of "n div 10 ^ k"] by blast
  have "digits_val (?i @ ?f) = n"
    by (simp add: digits_val_append f div_mult_mod_eq)
  then have val: "of_nat (digits_val (?i @ ?f)) * pow10 (0 - int (length ?f)) = (of_nat n :: rat) / 10 ^ k"
    using f(1) assms(2) by (simp add: pow10_def)
  have pick: "(case (if sg < 0 then [45] else []) @ ?i @ [46] @ ?f @ r of
       [] \<Rightarrow> (1, []) | c # q \<Rightarrow> if c = 45 then (-1, q) else (1::rat, (if sg < 0 then [45] else []) @ ?i @ [46] @ ?f @ r))
     = (sg, ?i @ 46 # ?f @ r)"
    using assms(3) c by (auto simp: is_digit_def)
  show ?thesis
    unfolding pnumber_def pick Let_def prod.case dot frac using lead val
    by (simp add: pexp_delimited [OF assms(1)])
qed

lemma pnumber_num_text:
  assumes "delimited r" "decimal q"
  shows "pnumber (num_text q @ r) = Some (JNum q, r)"
proof (cases "of_int \<lfloor>q\<rfloor> = q")
  case True
  then show ?thesis
    using pnumber_int_text [OF assms(1), of "\<lfloor>q\<rfloor>"] by (simp add: num_text_def)
next
  case False
  define k where "k = frac_places \<bar>q\<bar>"
  define n where "n = nat \<lfloor>\<bar>q\<bar> * 10 ^ k\<rfloor>"
  have k: "of_int \<lfloor>\<bar>q\<bar> * 10 ^ k\<rfloor> = \<bar>q\<bar> * 10 ^ k" "0 < k"
    using frac_places_exact [OF decimal_abs [OF assms(2)]] by (simp_all add: k_def)
  have "of_nat n = \<bar>q\<bar> * 10 ^ k"
    using k(1) by (simp add: n_def)
  then have n: "of_nat n / 10 ^ k = \<bar>q\<bar>"
    by (simp add: field_simps)
  have "num_text q = (if q < 0 then [45] else []) @ nat_text (n div 10 ^ k) @ [46] @
      pad_zeros k (nat_text (n mod 10 ^ k))"
    unfolding num_text_def Let_def n_def k_def by (rule if_not_P [OF False])
  then show ?thesis
    using pnumber_fraction [OF assms(1) k(2), of "-1" n] pnumber_fraction [OF assms(1) k(2), of 1 n] n
    by (cases "q < 0") simp_all
qed

lemma skip_ws_start: "s \<noteq> [] \<Longrightarrow> \<not> json_space (hd s) \<Longrightarrow> skip_ws (s @ r) = s @ r"
  by (cases s) (auto simp: skip_ws_def)

lemma skip_ws_stringify [simp]: "wf_json v \<Longrightarrow> skip_ws (stringify v @ r) = stringify v @ r"
  using stringify_start [of v] by (simp add: skip_ws_start)

lemma skip_ws_plain [simp]: "\<not> json_space c \<Longrightarrow> skip_ws (c # r) = c # r"
  by (simp add: skip_ws_def)

lemma pliteral_num_text:
  assumes "delimited r" "decimal q"
  shows "pliteral (num_text q @ r) = Some (JNum q, r)"
proof -
  have "hd (num_text q @ r) \<notin> {116, 102, 110}" by (rule num_text_start [of q]) auto
  then have "\<not> startsWith (num_text q @ r) (js w)" if "w \<in> {''true'', ''false'', ''null''}" for w
    using that by (auto simp: startsWith_iff js_def)
  then show ?thesis using pnumber_num_text [OF assms] by (simp add: pliteral_def)
qed

lemma pval_literal:
  assumes "delimited r" "v = JNull \<or> (\<exists>b. v = JBool b)"
  shows "pval (Suc n) (stringify v @ r) = Some (v, r)"
  using assms by (auto simp: js_def json_space_def pliteral_def startsWith_def)

lemma pval_num:
  assumes "delimited r" "wf_json (JNum q)"
  shows "pval (Suc n) (stringify (JNum q) @ r) = Some (JNum q, r)"
proof -
  obtain c t where c: "num_text q = c # t" "c = 45 \<or> (48 \<le> c \<and> c \<le> 57)" by (rule num_text_start)
  then have "pval (Suc n) (num_text q @ r) = pliteral (num_text q @ r)" by (auto simp: json_space_def)
  then show ?thesis using pliteral_num_text [OF assms(1), of q] assms(2)
    by simp
qed

lemma pval_str: "code_units t \<Longrightarrow> pval (Suc n) (stringify (JStr t) @ r) = Some (JStr t, r)"
  using pchars_quote_chars [of t r] by (simp add: quote_def json_space_def)

lemma parse_stringify_gen:
  "wf_json v \<Longrightarrow> delimited r \<Longrightarrow> 2 * length (stringify v) \<le> n \<Longrightarrow>
     pval n (stringify v @ r) = Some (v, r)"
  "list_all wf_json vs \<Longrightarrow> vs \<noteq> [] \<Longrightarrow> 2 * length (stringify_list vs) + 1 \<le> n \<Longrightarrow>
     pelems n (stringify_list vs @ 93 # r) = Some (vs, r)"
  "list_all (\<lambda>(k, v). code_units k \<and> wf_json v) ms \<Longrightarrow> ms \<noteq> [] \<Longrightarrow>
     2 * length (stringify_members ms) + 1 \<le> n \<Longrightarrow>
     pmembers n (stringify_members ms @ 125 # r) = Some (ms, r)"
proof (induction v and vs and ms arbitrary: r n and r n and r n
       rule: stringify_stringify_list_stringify_members.induct)
  case 1
  then show ?case using pval_literal [of r JNull "n - 1"] by (cases n) auto
next
  case (2 b)
  then show ?case using pval_literal [of r "JBool b" "n - 1"] stringify_start [of "JBool b"]
    by (cases n) (auto simp del: stringify.simps)
next
  case (3 q)
  then show ?case
    using pval_num [of r q "n - 1"] stringify_start [of "JNum q"]
    by (cases n) (auto simp del: stringify.simps)
next
  case (4 t)
  then show ?case using pval_str [of t "n - 1"] by (cases n) (auto simp: quote_def)
next
  case (5 vs)
  then obtain m where n: "n = Suc m" by (cases n) auto
  show ?case
  proof (cases vs)
    case Nil
    then show ?thesis by (simp add: n json_space_def startsWith_def)
  next
    case (Cons w ws)
    have w: "wf_json w" using "5.prems" Cons by simp
    have "pelems m (stringify_list vs @ 93 # r) = Some (vs, r)"
      using "5.prems" n Cons by (intro "5.IH") auto
    moreover have "\<not> startsWith (skip_ws (stringify_list vs @ 93 # r)) [93]"
      using stringify_start [OF w] w Cons by (cases "stringify w") (auto simp: startsWith_def)
    ultimately show ?thesis by (simp add: n json_space_def)
  qed
next
  case (6 ms)
  then obtain m where n: "n = Suc m" by (cases n) auto
  show ?case
  proof (cases ms)
    case Nil
    then show ?thesis by (simp add: n json_space_def startsWith_def)
  next
    case (Cons w ws)
    have "pmembers m (stringify_members ms @ 125 # r) = Some (ms, r)"
      using "6.prems" n Cons by (intro "6.IH") auto
    moreover have "\<not> startsWith (skip_ws (stringify_members ms @ 125 # r)) [125]"
      using Cons by (cases w) (auto simp: startsWith_def quote_def json_space_def)
    ultimately show ?thesis by (simp add: n json_space_def)
  qed
next
  case (8 w ws)
  then obtain m where n: "n = Suc m" by (cases n) auto
  have w: "pval m (stringify w @ 44 # q) = Some (w, 44 # q)" "pval m (stringify w @ 93 # q) = Some (w, 93 # q)" for q
    using "8.prems" n by (auto intro!: "8.IH"(1) simp: delimited_def)
  show ?case
  proof (cases "ws = []")
    case True
    then show ?thesis using w(2) [of r] n by (simp add: json_space_def)
  next
    case False
    have "pelems m (stringify_list ws @ 93 # r) = Some (ws, r)"
      using "8.prems" n False by (intro "8.IH"(2)) auto
    then show ?thesis using w(1) [of "stringify_list ws @ 93 # r"] n False by (simp add: json_space_def)
  qed
next
  case (10 k w ws)
  then obtain m where n: "n = Suc m" by (cases n) auto
  have k: "pchars (quote_chars k @ 34 # q) = Some (k, q)" for q
    using "10.prems" by (intro pchars_quote_chars) simp
  have w: "pval m (stringify w @ 44 # q) = Some (w, 44 # q)" "pval m (stringify w @ 125 # q) = Some (w, 125 # q)" for q
    using "10.prems" n by (auto intro!: "10.IH"(1) simp: delimited_def)
  show ?case
  proof (cases "ws = []")
    case True
    then show ?thesis using w(2) [of r] k n by (simp add: json_space_def quote_def)
  next
    case False
    have "pmembers m (stringify_members ws @ 125 # r) = Some (ws, r)"
      using "10.prems" n False by (intro "10.IH"(2)) auto
    then show ?thesis using w(1) [of "stringify_members ws @ 125 # r"] k n False
      by (simp add: json_space_def quote_def)
  qed
qed simp_all

lemma parse_stringify [simp]: "wf_json v \<Longrightarrow> JSON_parse (stringify v) = Some v"
  using parse_stringify_gen(1) [of v "[]" "2 * length (stringify v) + 2"]
  by (simp add: JSON_parse_def delimited_def skip_ws_def)

lemma stringify_not_Nil [simp]: "wf_json v \<Longrightarrow> stringify v \<noteq> []"
  using stringify_start by blast

end
