(* ===== verification/Codec.thy ===== *)
theory Codec
  imports Json "HOL-Library.Word"
begin

text \<open>
  Bytes and text: \<open>TextEncoder\<close> and \<open>TextDecoder\<close> (UTF-8), \<open>btoa\<close> and \<open>atob\<close> (base64), the
  \<open>Buffer\<close> variants the console uses, and on top of them the codecs of the repository:
  \<open>toBase64\<close>, \<open>fromBase64\<close> of \<open>utils/vault-crypto.ts\<close> and \<open>toBase64Json\<close> of
  \<open>utils/encoding.ts\<close>. The lemmas are the round trips.
\<close>

type_synonym byte = "8 word"

section \<open>UTF-8\<close>

definition utf8_point :: "nat \<Rightarrow> nat list" where
  "utf8_point c =
     (if c < 128 then [c]
      else if c < 2048 then [192 + c div 64, 128 + c mod 64]
      else if c < 65536 then [224 + c div 4096, 128 + c div 64 mod 64, 128 + c mod 64]
      else [240 + c div 262144, 128 + c div 4096 mod 64, 128 + c div 64 mod 64, 128 + c mod 64])"

definition surrogate_pair :: "nat \<Rightarrow> nat \<Rightarrow> nat" where
  "surrogate_pair h l = 65536 + (h - 55296) * 1024 + (l - 56320)"

text \<open>A surrogate without its partner is encoded as the replacement character.\<close>

fun utf8_units :: "jsstring \<Rightarrow> nat list" where
  "utf8_units [] = []"
| "utf8_units [c] = utf8_point (if high_surrogate c \<or> low_surrogate c then 65533 else c)"
| "utf8_units (c # d # s) =
     (if high_surrogate c \<and> low_surrogate d then utf8_point (surrogate_pair c d) @ utf8_units s
      else utf8_point (if high_surrogate c \<or> low_surrogate c then 65533 else c) @ utf8_units (d # s))"

definition utf8_encode :: "jsstring \<Rightarrow> byte list" where
  "utf8_encode s = map of_nat (utf8_units s)"

definition utf16_point :: "nat \<Rightarrow> jsstring" where
  "utf16_point c =
     (if c < 65536 then [c]
      else [55296 + (c - 65536) div 1024, 56320 + (c - 65536) mod 1024])"

text \<open>
  The decoder's state: how many continuation bytes are needed, the range the next one must be
  in, and the code point so far. A byte outside the range ends the sequence with a
  replacement character and is read again.
\<close>

function utf8_dec :: "nat \<Rightarrow> nat \<Rightarrow> nat \<Rightarrow> nat \<Rightarrow> nat list \<Rightarrow> jsstring" where
  "utf8_dec k lo hi cp [] = (if k = 0 then [] else [65533])"
| "utf8_dec k lo hi cp (b # bs) =
     (if k = 0 then
        (if b < 128 then b # utf8_dec 0 128 191 0 bs
         else if 194 \<le> b \<and> b \<le> 223 then utf8_dec 1 128 191 (b - 192) bs
         else if 224 \<le> b \<and> b \<le> 239 then
           utf8_dec 2 (if b = 224 then 160 else 128) (if b = 237 then 159 else 191) (b - 224) bs
         else if 240 \<le> b \<and> b \<le> 244 then
           utf8_dec 3 (if b = 240 then 144 else 128) (if b = 244 then 143 else 191) (b - 240) bs
         else 65533 # utf8_dec 0 128 191 0 bs)
      else if lo \<le> b \<and> b \<le> hi then
        (if k = 1 then utf16_point (cp * 64 + (b - 128)) @ utf8_dec 0 128 191 0 bs
         else utf8_dec (k - 1) 128 191 (cp * 64 + (b - 128)) bs)
      else 65533 # utf8_dec 0 128 191 0 (b # bs))"
  by pat_completeness auto
termination
  by (relation "measure (\<lambda>(k, lo, hi, cp, bs). 2 * length bs + (if k = 0 then 0 else 1))") auto

definition utf8_decode :: "byte list \<Rightarrow> jsstring" where
  "utf8_decode bs =
     (let us = map unat bs
      in utf8_dec 0 128 191 0 (if take 3 us = [239, 187, 191] then drop 3 us else us))"

text \<open>No lone surrogate: what \<open>String.prototype.isWellFormed\<close> tests.\<close>

fun well_formed :: "jsstring \<Rightarrow> bool" where
  "well_formed [] = True"
| "well_formed [c] = (c < 65536 \<and> \<not> high_surrogate c \<and> \<not> low_surrogate c)"
| "well_formed (c # d # s) =
     (if high_surrogate c then low_surrogate d \<and> well_formed s
      else c < 65536 \<and> \<not> low_surrogate c \<and> well_formed (d # s))"

section \<open>Base64\<close>

definition b64_char :: "nat \<Rightarrow> nat" where
  "b64_char d =
     (if d < 26 then 65 + d else if d < 52 then 71 + d else if d < 62 then d - 4
      else if d = 62 then 43 else 47)"

definition b64_val :: "nat \<Rightarrow> nat option" where
  "b64_val c =
     (if is_upper c then Some (c - 65) else if is_lower c then Some (c - 71)
      else if is_digit c then Some (c + 4) else if c = 43 then Some 62
      else if c = 47 then Some 63 else None)"

text \<open>The digits of base64 without the padding.\<close>

fun b64_digits :: "nat list \<Rightarrow> nat list" where
  "b64_digits [] = []"
| "b64_digits [a] = [a div 4, a mod 4 * 16]"
| "b64_digits [a, b] = [a div 4, a mod 4 * 16 + b div 16, b mod 16 * 4]"
| "b64_digits (a # b # c # s) =
     a div 4 # (a mod 4 * 16 + b div 16) # (b mod 16 * 4 + c div 64) # c mod 64 # b64_digits s"

fun b64_bytes :: "nat list \<Rightarrow> nat list" where
  "b64_bytes (p # q # r # t # s) =
     (p * 4 + q div 16) # (q mod 16 * 16 + r div 4) # (r mod 4 * 64 + t) # b64_bytes s"
| "b64_bytes [p, q, r] = [p * 4 + q div 16, q mod 16 * 16 + r div 4]"
| "b64_bytes [p, q] = [p * 4 + q div 16]"
| "b64_bytes _ = []"

definition b64_unpadded :: "nat list \<Rightarrow> jsstring" where
  "b64_unpadded bs = map b64_char (b64_digits bs)"

definition b64_padding :: "nat \<Rightarrow> nat" where
  "b64_padding n = (if n mod 3 = 0 then 0 else 3 - n mod 3)"

definition b64_text :: "nat list \<Rightarrow> jsstring" where
  "b64_text bs = b64_unpadded bs @ replicate (b64_padding (length bs)) 61"

text \<open>\<open>btoa\<close> throws on a code unit above 255.\<close>

definition btoa :: "jsstring \<Rightarrow> jsstring option" where
  "btoa s = (if list_all (\<lambda>c. c < 256) s then Some (b64_text s) else None)"

definition ascii_space :: "nat \<Rightarrow> bool" where
  "ascii_space c \<longleftrightarrow> c = 9 \<or> c = 10 \<or> c = 12 \<or> c = 13 \<or> c = 32"

definition strip_padding :: "jsstring \<Rightarrow> jsstring" where
  "strip_padding s =
     (if endsWith s [61, 61] then take (length s - 2) s
      else if endsWith s [61] then take (length s - 1) s else s)"

fun collect :: "'a option list \<Rightarrow> 'a list option" where
  "collect [] = Some []"
| "collect (x # xs) =
     (case x of None \<Rightarrow> None | Some y \<Rightarrow> map_option (\<lambda>ys. y # ys) (collect xs))"

definition atob :: "jsstring \<Rightarrow> jsstring option" where
  "atob s0 =
     (let s = filter (\<lambda>c. \<not> ascii_space c) s0;
          t = (if length s mod 4 = 0 then strip_padding s else s)
      in if length t mod 4 = 1 then None
         else map_option b64_bytes (collect (map b64_val t)))"

section \<open>The console's codecs\<close>

definition bytes_text :: "byte list \<Rightarrow> jsstring" where
  "bytes_text bs = map unat bs"

text \<open>\<open>utils/vault-crypto.ts\<close>: the string of the bytes never leaves the range of \<open>btoa\<close>.\<close>

definition toBase64 :: "byte list \<Rightarrow> jsstring" where
  "toBase64 bs = (case btoa (bytes_text bs) of Some t \<Rightarrow> t | None \<Rightarrow> [])"

definition fromBase64 :: "jsstring \<Rightarrow> exn + byte list" where
  "fromBase64 s = (case atob s of
      None \<Rightarrow> Inl (JsError (js ''Invalid base64 encoding''))
    | Some bin \<Rightarrow> Inr (map of_nat bin))"

text \<open>\<open>replace(/=+$/, "")\<close>.\<close>

definition drop_trailing :: "nat \<Rightarrow> jsstring \<Rightarrow> jsstring" where
  "drop_trailing c s = rev (dropWhile (\<lambda>x. x = c) (rev s))"

definition url_safe :: "jsstring \<Rightarrow> jsstring" where
  "url_safe s = map (\<lambda>c. if c = 47 then 95 else c) (map (\<lambda>c. if c = 43 then 45 else c) s)"

definition toBase64Json :: "json \<Rightarrow> jsstring" where
  "toBase64Json v =
     drop_trailing 61 (url_safe (b64_text (map unat (utf8_encode (stringify v)))))"

section \<open>Base64 round trips\<close>

lemma b64_val_char [simp]: "d < 64 \<Longrightarrow> b64_val (b64_char d) = Some d"
  by (auto simp: b64_val_def b64_char_def char_class_defs)

lemma b64_char_range:
  "d < 64 \<Longrightarrow> is_upper (b64_char d) \<or> is_lower (b64_char d) \<or> is_digit (b64_char d) \<or>
     b64_char d = 43 \<or> b64_char d = 47"
  by (auto simp: b64_char_def char_class_defs)

lemma b64_digits_range: "list_all (\<lambda>c. c < 256) s \<Longrightarrow> list_all (\<lambda>d. d < 64) (b64_digits s)"
  by (induction s rule: b64_digits.induct) (auto simp: less_mult_imp_div_less)

lemma b64_group_bytes:
  assumes "a < 256" "b < (256::nat)" "c < (256::nat)"
  shows "a div 4 * 4 + (a mod 4 * 16 + b div 16) div 16 = a"
    and "(a mod 4 * 16 + b div 16) mod 16 * 16 + (b mod 16 * 4 + c div 64) div 4 = b"
    and "(b mod 16 * 4 + c div 64) mod 4 * 64 + c mod 64 = c"
proof -
  have q: "b div 16 < 16" "c div 64 < 4" using assms by auto
  then have "(a mod 4 * 16 + b div 16) div 16 = a mod 4" by simp
  then show "a div 4 * 4 + (a mod 4 * 16 + b div 16) div 16 = a" by simp
  have "(b mod 16 * 4 + c div 64) div 4 = b mod 16" using q by simp
  moreover have "(a mod 4 * 16 + b div 16) mod 16 = b div 16" using q by simp
  ultimately show "(a mod 4 * 16 + b div 16) mod 16 * 16 + (b mod 16 * 4 + c div 64) div 4 = b" by simp
  have "(b mod 16 * 4 + c div 64) mod 4 = c div 64" using q by simp
  then show "(b mod 16 * 4 + c div 64) mod 4 * 64 + c mod 64 = c" by simp
qed

lemma b64_bytes_digits: "list_all (\<lambda>c. c < 256) s \<Longrightarrow> b64_bytes (b64_digits s) = s"
proof (induction s rule: b64_digits.induct)
  case (2 a)
  then have "a div 4 * 4 + (a mod 4 * 16) div 16 = a" by simp
  then show ?case by (simp only: b64_digits.simps b64_bytes.simps)
next
  case (3 a b)
  then have "a div 4 * 4 + (a mod 4 * 16 + b div 16) div 16 = a"
    "(a mod 4 * 16 + b div 16) mod 16 * 16 + b mod 16 * 4 div 4 = b"
    using b64_group_bytes(1,2) [of a b 0] by simp_all
  then show ?case by (simp only: b64_digits.simps b64_bytes.simps)
next
  case (4 a b c s)
  then have "a < 256" "b < 256" "c < 256" "b64_bytes (b64_digits s) = s" by simp_all
  then show ?case by (simp only: b64_digits.simps b64_bytes.simps b64_group_bytes)
qed simp

lemma collect_map_Some: "(\<And>x. x \<in> set xs \<Longrightarrow> f x = Some (g x)) \<Longrightarrow> collect (map f xs) = Some (map g xs)"
  by (induction xs) auto

lemma length_b64_digits:
  "(length (b64_digits s) + b64_padding (length s)) mod 4 = 0 \<and> length (b64_digits s) mod 4 \<noteq> 1"
proof (induction s rule: b64_digits.induct)
  case (4 a b c s)
  have "length (a # b # c # s) mod 3 = length s mod 3"
    by simp
  then have p: "b64_padding (length (a # b # c # s)) = b64_padding (length s)"
    by (simp only: b64_padding_def)
  have l: "length (b64_digits (a # b # c # s)) = 4 + length (b64_digits s)" by simp
  show ?case using 4 unfolding p l by (simp only: add.assoc mod_add_self1 simp_thms)
qed (auto simp: b64_padding_def)

lemma b64_padding_le: "b64_padding n \<le> 2"
  by (auto simp: b64_padding_def)

lemma endsWith_snoc: "endsWith (s @ [c]) [d] \<longleftrightarrow> c = d"
  by (auto simp: endsWith_def)

lemma endsWith_snoc2: "endsWith (s @ [b, c]) [d, e] \<longleftrightarrow> b = d \<and> c = e"
  by (auto simp: endsWith_def)

lemma strip_padding_replicate:
  assumes u: "61 \<notin> set u" and n: "n \<le> 2"
  shows "strip_padding (u @ replicate n 61) = u"
proof -
  consider "n = 0" | "n = 1" | "n = 2" using n by linarith
  then show ?thesis
  proof cases
    case 1
    have no: "\<not> endsWith u [61]" "\<not> endsWith u [61, 61]"
      using u by (auto simp: endsWith_def dest: in_set_dropD [of 61])
        (metis in_set_dropD list.set_intros(1))+
    then show ?thesis using 1 by (simp add: strip_padding_def)
  next
    case 2
    have "\<not> endsWith (u @ [61]) [61, 61]"
    proof (cases u rule: rev_cases)
      case Nil
      then show ?thesis by (simp add: endsWith_def)
    next
      case (snoc v x)
      then show ?thesis using u endsWith_snoc2 [of v x 61 61 61] by auto
    qed
    then show ?thesis using 2 endsWith_snoc [of u 61 61] by (simp add: strip_padding_def)
  next
    case 3
    then show ?thesis using endsWith_snoc2 [of u 61 61 61 61]
      by (simp add: strip_padding_def numeral_2_eq_2)
  qed
qed

lemma b64_unpadded_chars:
  assumes "list_all (\<lambda>c. c < 256) s" "c \<in> set (b64_unpadded s)"
  shows "is_upper c \<or> is_lower c \<or> is_digit c \<or> c = 43 \<or> c = 47"
  using assms b64_digits_range [of s] b64_char_range by (auto simp: b64_unpadded_def list_all_iff)

lemma atob_unpadded_gen:
  assumes s: "list_all (\<lambda>c. c < 256) s" and t: "t = b64_unpadded s \<or> t = b64_text s"
  shows "atob t = Some s"
proof -
  let ?u = "b64_unpadded s"
  have ch: "\<not> ascii_space c" "c \<noteq> 61" if "c \<in> set ?u" for c
    using b64_unpadded_chars [OF s that] by (auto simp: ascii_space_def char_class_defs)
  have f: "filter (\<lambda>c. \<not> ascii_space c) t = t"
    using t ch(1) by (auto simp: filter_id_conv b64_text_def) (auto simp: ascii_space_def)
  have strip: "strip_padding ?u = ?u" "strip_padding (b64_text s) = ?u"
    using strip_padding_replicate [of ?u 0] strip_padding_replicate [of ?u "b64_padding (length s)"]
      ch(2) b64_padding_le by (auto simp: b64_text_def)
  have len: "length ?u mod 4 \<noteq> 1" "length (b64_text s) mod 4 = 0"
    using length_b64_digits [of s] by (auto simp: b64_unpadded_def b64_text_def)
  have core: "map_option b64_bytes (collect (map b64_val ?u)) = Some s"
    using b64_digits_range [OF s] b64_bytes_digits [OF s]
      collect_map_Some [of "b64_digits s" "b64_val \<circ> b64_char" id]
    by (simp add: b64_unpadded_def list_all_iff)
  show ?thesis
  proof (cases "t = b64_text s")
    case True
    then show ?thesis using f strip len core by (simp add: atob_def Let_def)
  next
    case False
    then have "t = ?u" using t by blast
    then show ?thesis using f strip len core by (simp add: atob_def Let_def)
  qed
qed

lemma atob_btoa: "btoa s = Some t \<Longrightarrow> atob t = Some s"
  using atob_unpadded_gen [of s t] by (auto simp: btoa_def split: if_splits)

lemma unat_byte_less: "unat (b::byte) < 256"
  using unsigned_less [of b, where 'a = nat] by simp

lemma bytes_in_range: "list_all (\<lambda>c. c < 256) (bytes_text bs)"
  by (auto simp: bytes_text_def list_all_iff unat_byte_less)

lemma btoa_bytes: "btoa (bytes_text bs) = Some (toBase64 bs)"
  using bytes_in_range [of bs] by (simp add: toBase64_def btoa_def)

lemma fromBase64_toBase64 [simp]: "fromBase64 (toBase64 bs) = Inr bs"
  using atob_btoa [OF btoa_bytes [of bs]]
  by (simp add: fromBase64_def bytes_text_def comp_def)

section \<open>UTF-8 round trips\<close>

definition scalar_value :: "nat \<Rightarrow> bool" where
  "scalar_value c \<longleftrightarrow> c < 55296 \<or> (57343 < c \<and> c < 1114112)"

lemma base64_split:
  obtains w x y z where "c = 262144 * w + 4096 * x + 64 * y + z" "x < 64" "y < 64" "z < (64::nat)"
    "w = c div 262144" "x = c div 4096 mod 64" "y = c div 64 mod 64" "z = c mod 64"
proof -
  have a: "c = 64 * (c div 64) + c mod 64" by simp
  have b: "c div 64 = 64 * (c div 4096) + c div 64 mod 64"
    using mult_div_mod_eq [of 64 "c div 64"] by (simp flip: div_mult2_eq)
  have d: "c div 4096 = 64 * (c div 262144) + c div 4096 mod 64"
    using mult_div_mod_eq [of 64 "c div 4096"] by (simp flip: div_mult2_eq)
  have e: "c = 262144 * (c div 262144) + 4096 * (c div 4096 mod 64) + 64 * (c div 64 mod 64) + c mod 64"
    using a b d by linarith
  show ?thesis by (rule that [OF e]) auto
qed

lemma utf8_dec_2:
  assumes "128 \<le> c" "c < 2048"
  shows "utf8_dec 0 128 191 0 (utf8_point c @ bs) = c # utf8_dec 0 128 191 0 bs"
proof -
  define x z where "x = c div 64" and "z = c mod 64"
  have c: "x * 64 + z = c" "z < 64" by (simp_all add: x_def z_def)
  have u: "utf8_point c = [192 + x, 128 + z]" using assms by (simp add: utf8_point_def x_def z_def)
  have "2 \<le> x" "x < 32" using assms c by linarith+
  then show ?thesis unfolding u using assms c by (simp add: utf16_point_def)
qed

lemma utf8_dec_3:
  assumes "2048 \<le> c" "c < 65536" "scalar_value c"
  shows "utf8_dec 0 128 191 0 (utf8_point c @ bs) = c # utf8_dec 0 128 191 0 bs"
proof -
  obtain w x y z where c: "c = 262144 * w + 4096 * x + 64 * y + z" "x < 64" "y < 64" "z < 64"
    and d: "w = c div 262144" "x = c div 4096 mod 64" "y = c div 64 mod 64" "z = c mod 64"
    by (rule base64_split)
  have w: "w = 0" using assms d by simp
  have x: "c div 4096 = x" using assms c w by simp
  have u: "utf8_point c = [224 + x, 128 + y, 128 + z]"
    using assms x d by (simp add: utf8_point_def)
  have "x < 16" using assms c w by linarith
  moreover have "x = 0 \<Longrightarrow> 32 \<le> y" using assms c w by linarith
  moreover have "x = 13 \<Longrightarrow> y \<le> 31" using assms c w by (auto simp: scalar_value_def)
  moreover have "(x * 64 + y) * 64 + z = c" using c w by simp
  ultimately show ?thesis unfolding u using assms c by (auto simp: utf16_point_def)
qed

lemma utf8_dec_4:
  assumes "65536 \<le> c" "c < 1114112"
  shows "utf8_dec 0 128 191 0 (utf8_point c @ bs) = utf16_point c @ utf8_dec 0 128 191 0 bs"
proof -
  obtain w x y z where c: "c = 262144 * w + 4096 * x + 64 * y + z" "x < 64" "y < 64" "z < 64"
    and d: "w = c div 262144" "x = c div 4096 mod 64" "y = c div 64 mod 64" "z = c mod 64"
    by (rule base64_split)
  have u: "utf8_point c = [240 + w, 128 + x, 128 + y, 128 + z]"
    using assms d by (simp add: utf8_point_def)
  have "w < 5" using assms c by linarith
  moreover have "w = 0 \<Longrightarrow> 16 \<le> x" using assms c by linarith
  moreover have "w = 4 \<Longrightarrow> x \<le> 15" using assms c by linarith
  moreover have "((w * 64 + x) * 64 + y) * 64 + z = c" using c by simp
  ultimately show ?thesis unfolding u using c(2-4) by auto
qed

lemma utf8_dec_point:
  assumes "scalar_value c"
  shows "utf8_dec 0 128 191 0 (utf8_point c @ bs) = utf16_point c @ utf8_dec 0 128 191 0 bs"
proof -
  consider "c < 128" | "128 \<le> c" "c < 2048" | "2048 \<le> c" "c < 65536" | "65536 \<le> c" by linarith
  then show ?thesis
  proof cases
    case 1
    then show ?thesis by (simp add: utf8_point_def utf16_point_def)
  next
    case 2
    then show ?thesis using utf8_dec_2 by (simp add: utf16_point_def)
  next
    case 3
    then show ?thesis using utf8_dec_3 assms by (simp add: utf16_point_def)
  next
    case 4
    then show ?thesis using utf8_dec_4 assms by (simp add: scalar_value_def)
  qed
qed

lemma surrogate_pair_scalar:
  "high_surrogate h \<Longrightarrow> low_surrogate l \<Longrightarrow> scalar_value (surrogate_pair h l) \<and> utf16_point (surrogate_pair h l) = [h, l]"
proof -
  assume "high_surrogate h" "low_surrogate l"
  then have r: "55296 \<le> h" "h \<le> 56319" "56320 \<le> l" "l \<le> 57343"
    by (auto simp: high_surrogate_def low_surrogate_def)
  define a b where "a = h - 55296" and "b = l - 56320"
  have ab: "a < 1024" "b < 1024" "h = 55296 + a" "l = 56320 + b" using r by (auto simp: a_def b_def)
  have s: "surrogate_pair h l = 65536 + (a * 1024 + b)" using ab by (simp add: surrogate_pair_def)
  have "(a * 1024 + b) div 1024 = a" "(a * 1024 + b) mod 1024 = b" using ab by auto
  then show ?thesis using ab unfolding s by (simp add: scalar_value_def utf16_point_def)
qed

lemma utf8_dec_units_append:
  "well_formed s \<Longrightarrow> utf8_dec 0 128 191 0 (utf8_units s @ bs) = s @ utf8_dec 0 128 191 0 bs"
proof (induction s rule: well_formed.induct)
  case (2 c)
  then have "scalar_value c" by (auto simp: scalar_value_def high_surrogate_def low_surrogate_def)
  then show ?case using 2 utf8_dec_point [of c bs] by (simp add: utf16_point_def)
next
  case (3 c d s)
  show ?case
  proof (cases "high_surrogate c")
    case True
    then show ?thesis using 3 surrogate_pair_scalar [of c d]
      by (simp add: utf8_dec_point)
  next
    case False
    then have "scalar_value c" "c < 65536" "\<not> low_surrogate c" using 3
      by (auto simp: scalar_value_def high_surrogate_def low_surrogate_def)
    then show ?thesis using 3 False by (simp add: utf8_dec_point utf16_point_def)
  qed
qed simp

lemma utf8_dec_units: "well_formed s \<Longrightarrow> utf8_dec 0 128 191 0 (utf8_units s) = s"
  using utf8_dec_units_append [of s "[]"] by simp

lemma utf8_point_range: "c < 1114112 \<Longrightarrow> list_all (\<lambda>b. b < 256) (utf8_point c)"
proof -
  assume c: "c < 1114112"
  have "c < 2048 \<Longrightarrow> c div 64 < 32" "c < 65536 \<Longrightarrow> c div 4096 < 16" "c div 262144 < 5"
    using c by auto
  moreover have "k mod 64 < 64" for k :: nat by simp
  ultimately show ?thesis
    by (auto simp: utf8_point_def intro: less_trans [of _ "64 + 128" 256] add_less_mono)
qed

lemma utf8_units_range:
  "list_all (\<lambda>c. c < 65536) s \<Longrightarrow> list_all (\<lambda>b. b < 256) (utf8_units s)"
proof (induction s rule: utf8_units.induct)
  case (2 c)
  then show ?case by (auto intro: utf8_point_range)
next
  case (3 c d s)
  have "high_surrogate c \<Longrightarrow> low_surrogate d \<Longrightarrow> surrogate_pair c d < 1114112"
    by (auto simp: surrogate_pair_def high_surrogate_def low_surrogate_def)
  with 3 show ?case by (auto intro!: utf8_point_range)
qed simp

lemma unat_of_nat_bytes:
  "list_all (\<lambda>b. b < 256) bs \<Longrightarrow> map unat (map of_nat bs :: byte list) = bs"
  by (induction bs) (auto simp: unat_of_nat)

lemma well_formed_code_units: "well_formed s \<Longrightarrow> list_all (\<lambda>c. c < 65536) s"
  by (induction s rule: well_formed.induct)
     (auto simp: high_surrogate_def low_surrogate_def split: if_splits)

lemma utf8_bytes:
  "list_all (\<lambda>c. c < 65536) s \<Longrightarrow> map unat (utf8_encode s) = utf8_units s"
  by (simp add: utf8_encode_def unat_of_nat_bytes utf8_units_range del: map_map)

lemma utf8_dec_bom: "utf8_dec 0 128 191 0 ([239, 187, 191] @ r) = 65279 # utf8_dec 0 128 191 0 r"
  using utf8_dec_3 [of 65279 r] by (simp add: utf8_point_def scalar_value_def del: utf8_dec.simps)

lemma utf8_bom: "take 3 (utf8_units s) = [239, 187, 191] \<Longrightarrow> well_formed s \<Longrightarrow> hd s = 65279"
proof -
  assume t: "take 3 (utf8_units s) = [239, 187, 191]" and w: "well_formed s"
  have "utf8_units s = [239, 187, 191] @ drop 3 (utf8_units s)"
    using append_take_drop_id [of 3 "utf8_units s"] unfolding t by (rule sym)
  then have "utf8_dec 0 128 191 0 (utf8_units s) =
      utf8_dec 0 128 191 0 ([239, 187, 191] @ drop 3 (utf8_units s))" by (rule arg_cong)
  also have "\<dots> = 65279 # utf8_dec 0 128 191 0 (drop 3 (utf8_units s))" by (rule utf8_dec_bom)
  finally show "hd s = 65279" unfolding utf8_dec_units [OF w] by (rule ssubst) simp
qed

lemma utf8_decode_encode:
  "well_formed s \<Longrightarrow> s = [] \<or> hd s \<noteq> 65279 \<Longrightarrow> utf8_decode (utf8_encode s) = s"
  using utf8_bom [of s] utf8_dec_units [of s]
  by (auto simp: utf8_decode_def utf8_bytes well_formed_code_units Let_def)

text \<open>What \<open>JSON.stringify\<close> prints is always well formed.\<close>

lemma well_formed_Cons:
  "c < 65536 \<Longrightarrow> \<not> high_surrogate c \<Longrightarrow> \<not> low_surrogate c \<Longrightarrow> well_formed (c # s) = well_formed s"
  by (cases s) auto

definition plain_unit :: "nat \<Rightarrow> bool" where
  "plain_unit c \<longleftrightarrow> c < 55296"

lemma well_formed_plain_Cons [simp]: "c < 55296 \<Longrightarrow> well_formed (c # s) = well_formed s"
  by (rule well_formed_Cons) (auto simp: high_surrogate_def low_surrogate_def)

declare well_formed.simps(2,3) [simp del]

lemma well_formed_plain_append: "list_all plain_unit u \<Longrightarrow> well_formed (u @ s) = well_formed s"
  by (induction u) (auto simp: plain_unit_def)

lemma unicode_escape_plain: "list_all plain_unit (unicode_escape c)"
proof -
  have "d < 16 \<Longrightarrow> hex_char d < 55296" for d by (simp add: hex_char_def)
  then have "plain_unit (hex_char (k mod 16))" for k by (simp add: plain_unit_def)
  then show ?thesis unfolding unicode_escape_def by (simp add: plain_unit_def)
qed

lemma well_formed_quote_char:
  "c < 65536 \<Longrightarrow> well_formed (quote_char c @ s) = well_formed s"
  using unicode_escape_plain [of c]
  by (auto simp: quote_char_def well_formed_plain_append well_formed_Cons)

lemma well_formed_quote_chars:
  "code_units t \<Longrightarrow> well_formed s \<Longrightarrow> well_formed (quote_chars t @ s)"
proof (induction t rule: quote_chars.induct)
  case (3 c d t)
  then show ?case by (auto simp: well_formed_quote_char code_units_def well_formed.simps(3))
qed (auto simp: well_formed_quote_char code_units_def)

lemma well_formed_quote: "code_units t \<Longrightarrow> well_formed s \<Longrightarrow> well_formed (quote t @ s)"
  using well_formed_quote_chars [of t "34 # s"]
  by (simp add: quote_def plain_unit_def)

lemma nat_text_plain: "list_all plain_unit (nat_text n)"
  using nat_text_digit [of _ n] by (fastforce simp: list_all_iff plain_unit_def is_digit_def)

lemma int_text_plain: "list_all plain_unit (int_text n)"
  by (simp add: int_text_def nat_text_plain plain_unit_def)

lemma num_text_plain: "list_all plain_unit (num_text q)"
proof -
  have "list_all plain_unit (pad_zeros k (nat_text m))" for k m
    using nat_text_plain [of m] by (auto simp: pad_zeros_def list_all_iff plain_unit_def)
  then show ?thesis
    by (simp add: num_text_def Let_def int_text_plain nat_text_plain plain_unit_def)
qed

lemma well_formed_stringify:
  "wf_json v \<Longrightarrow> well_formed s \<Longrightarrow> well_formed (stringify v @ s)"
  "list_all wf_json vs \<Longrightarrow> well_formed s \<Longrightarrow> well_formed (stringify_list vs @ s)"
  "list_all (\<lambda>(k, v). code_units k \<and> wf_json v) ms \<Longrightarrow> well_formed s \<Longrightarrow>
     well_formed (stringify_members ms @ s)"
proof (induction v and vs and ms arbitrary: s and s and s
       rule: stringify_stringify_list_stringify_members.induct)
  case (3 q)
  then show ?case by (simp add: well_formed_plain_append num_text_plain)
next
  case (4 t)
  then show ?case by (simp add: well_formed_quote)
next
  case (10 k v ms)
  then show ?case by (auto simp: well_formed_quote plain_unit_def)
qed (auto simp: js_def well_formed_plain_append plain_unit_def)

lemma stringify_utf8: "wf_json v \<Longrightarrow> utf8_decode (utf8_encode (stringify v)) = stringify v"
proof -
  assume v: "wf_json v"
  have "hd (stringify v) \<noteq> 65279"
  proof (cases v)
    case (JNum q)
    obtain c t where "num_text q = c # t" "c = 45 \<or> (48 \<le> c \<and> c \<le> 57)"
      by (rule num_text_start)
    then show ?thesis using JNum v by auto
  qed (auto simp: quote_def js_def)
  then show ?thesis
    using well_formed_stringify(1) [OF v, of "[]"] by (intro utf8_decode_encode) auto
qed

end
