(* ===== verification/VaultParse.thy ===== *)
theory VaultParse
  imports Codec
begin

text \<open>
  The types of the secure vault (\<open>types/vault.ts\<close>) and the parsers that read them back from
  stored text (\<open>utils/vault-parse.ts\<close>). A parser accepts any text: what is not a valid value
  gives \<open>null\<close> or the default settings. The lemmas show that what the console writes is read
  back unchanged, and that no text gives a value outside the allowed ranges.
\<close>

section \<open>Types\<close>

datatype vault_status = Uninitialized | Locked | Unlocked

record vault_settings =
  autoLockTimeoutMinutes :: rat
  lockOnHidden :: bool

definition ALLOWED_TIMEOUT_MINUTES :: "rat list" where
  "ALLOWED_TIMEOUT_MINUTES = [0, 5, 15, 30, 60]"

definition DEFAULT_VAULT_SETTINGS :: vault_settings where
  "DEFAULT_VAULT_SETTINGS = \<lparr>autoLockTimeoutMinutes = 15, lockOnHidden = False\<rparr>"

definition HIDDEN_GRACE_MS :: rat where
  "HIDDEN_GRACE_MS = 60000"

text \<open>The member \<open>version\<close> of the source has the literal type 1: it is written and checked, not kept.\<close>

record vault_meta =
  salt :: jsstring
  iterations :: int
  verifier :: jsstring
  verifierIv :: jsstring

record vault_data =
  iv :: jsstring
  ciphertext :: jsstring

record vault_key =
  key_id :: jsstring
  key_name :: jsstring
  key_data :: jsstring
  hasPassphrase :: bool
  fingerprint :: jsstring
  algorithm :: "jsstring option"
  createdAt :: jsstring
  updatedAt :: jsstring

record legacy_key =
  legacy_name :: jsstring
  legacy_data :: jsstring
  legacy_hasPassphrase :: bool
  legacy_fingerprint :: jsstring

section \<open>What is written\<close>

definition meta_json :: "vault_meta \<Rightarrow> json" where
  "meta_json m = JObj
     [(js ''version'', JNum 1), (js ''salt'', JStr (salt m)),
      (js ''iterations'', JNum (of_int (iterations m))),
      (js ''verifier'', JStr (verifier m)), (js ''verifierIv'', JStr (verifierIv m))]"

definition data_json :: "vault_data \<Rightarrow> json" where
  "data_json d = JObj [(js ''iv'', JStr (iv d)), (js ''ciphertext'', JStr (ciphertext d))]"

definition settings_json :: "vault_settings \<Rightarrow> json" where
  "settings_json s = JObj
     [(js ''autoLockTimeoutMinutes'', JNum (autoLockTimeoutMinutes s)),
      (js ''lockOnHidden'', JBool (lockOnHidden s))]"

section \<open>The parsers\<close>

text \<open>\<open>JNull\<close> is the source's \<open>null\<close>: no text, empty text, or text that does not parse.\<close>

definition safeParse :: "jsstring option \<Rightarrow> json" where
  "safeParse raw = (case raw of
      None \<Rightarrow> JNull
    | Some t \<Rightarrow> if t = [] then JNull else (case JSON_parse t of None \<Rightarrow> JNull | Some v \<Rightarrow> v))"

definition parseVaultMeta :: "jsstring option \<Rightarrow> vault_meta option" where
  "parseVaultMeta raw =
     (let parsed = safeParse raw in
      if \<not> truthy parsed \<or> getp parsed (js ''version'') \<noteq> Some (JNum 1) then None
      else case as_string (getp parsed (js ''salt'')) of None \<Rightarrow> None | Some sa \<Rightarrow>
        (case as_number (getp parsed (js ''iterations'')) of None \<Rightarrow> None | Some it \<Rightarrow>
          if \<not> isInteger (Fin it) \<or> it < 100000 \<or> it > 10000000 then None
          else case as_string (getp parsed (js ''verifier'')) of None \<Rightarrow> None | Some ve \<Rightarrow>
            (case as_string (getp parsed (js ''verifierIv'')) of None \<Rightarrow> None | Some vi \<Rightarrow>
              Some \<lparr>salt = sa, iterations = \<lfloor>it\<rfloor>, verifier = ve, verifierIv = vi\<rparr>)))"

definition parseVaultData :: "jsstring option \<Rightarrow> vault_data option" where
  "parseVaultData raw =
     (let parsed = safeParse raw in
      if \<not> truthy parsed then None
      else case as_string (getp parsed (js ''iv'')) of None \<Rightarrow> None | Some i \<Rightarrow>
        (case as_string (getp parsed (js ''ciphertext'')) of None \<Rightarrow> None | Some c \<Rightarrow>
          Some \<lparr>iv = i, ciphertext = c\<rparr>))"

definition parseVaultSettings :: "jsstring option \<Rightarrow> vault_settings" where
  "parseVaultSettings raw =
     (let parsed = safeParse raw in
      if \<not> truthy parsed then DEFAULT_VAULT_SETTINGS
      else
        \<lparr>autoLockTimeoutMinutes =
           (case as_number (getp parsed (js ''autoLockTimeoutMinutes'')) of
              Some t \<Rightarrow> if t \<in> set ALLOWED_TIMEOUT_MINUTES then t
                        else autoLockTimeoutMinutes DEFAULT_VAULT_SETTINGS
            | None \<Rightarrow> autoLockTimeoutMinutes DEFAULT_VAULT_SETTINGS),
         lockOnHidden =
           (case as_bool (getp parsed (js ''lockOnHidden'')) of
              Some b \<Rightarrow> b | None \<Rightarrow> lockOnHidden DEFAULT_VAULT_SETTINGS)\<rparr>)"

section \<open>What is read back\<close>

definition valid_meta :: "vault_meta \<Rightarrow> bool" where
  "valid_meta m \<longleftrightarrow> 100000 \<le> iterations m \<and> iterations m \<le> 10000000 \<and>
     code_units (salt m) \<and> code_units (verifier m) \<and> code_units (verifierIv m)"

definition valid_data :: "vault_data \<Rightarrow> bool" where
  "valid_data d \<longleftrightarrow> code_units (iv d) \<and> code_units (ciphertext d)"

definition valid_settings :: "vault_settings \<Rightarrow> bool" where
  "valid_settings s \<longleftrightarrow> autoLockTimeoutMinutes s \<in> set ALLOWED_TIMEOUT_MINUTES"

lemma safeParse_stringify [simp]: "wf_json v \<Longrightarrow> safeParse (Some (stringify v)) = v"
  by (simp add: safeParse_def)

lemma safeParse_None [simp]: "safeParse None = JNull"
  by (simp add: safeParse_def)

lemma wf_meta_json: "valid_meta m \<Longrightarrow> wf_json (meta_json m)"
  by (simp add: meta_json_def valid_meta_def)

lemma wf_data_json: "valid_data d \<Longrightarrow> wf_json (data_json d)"
  by (simp add: data_json_def valid_data_def)

lemma wf_settings_json: "valid_settings s \<Longrightarrow> wf_json (settings_json s)"
  by (auto simp: settings_json_def valid_settings_def ALLOWED_TIMEOUT_MINUTES_def)

lemma parseVaultMeta_written: "valid_meta m \<Longrightarrow> parseVaultMeta (Some (stringify (meta_json m))) = Some m"
  by (simp add: parseVaultMeta_def wf_meta_json)
     (simp add: meta_json_def valid_meta_def)

lemma parseVaultData_written: "valid_data d \<Longrightarrow> parseVaultData (Some (stringify (data_json d))) = Some d"
  by (simp add: parseVaultData_def wf_data_json) (simp add: data_json_def)

lemma parseVaultSettings_written:
  "valid_settings s \<Longrightarrow> parseVaultSettings (Some (stringify (settings_json s))) = s"
  by (simp add: parseVaultSettings_def wf_settings_json) (simp add: settings_json_def valid_settings_def)

lemma parse_none [simp]:
  "parseVaultMeta None = None" "parseVaultData None = None"
  "parseVaultSettings None = DEFAULT_VAULT_SETTINGS"
  by (simp_all add: parseVaultMeta_def parseVaultData_def parseVaultSettings_def)

lemma parseVaultMeta_iterations:
  "parseVaultMeta raw = Some m \<Longrightarrow> 100000 \<le> iterations m \<and> iterations m \<le> 10000000"
  by (auto simp: parseVaultMeta_def Let_def le_floor_iff floor_le_iff split: if_splits option.splits)

lemma parseVaultSettings_valid: "valid_settings (parseVaultSettings raw)"
  by (auto simp: parseVaultSettings_def valid_settings_def Let_def DEFAULT_VAULT_SETTINGS_def
      ALLOWED_TIMEOUT_MINUTES_def split: option.splits)

end
