(* ===== verification/VaultCrypto.thy ===== *)
theory VaultCrypto
  imports VaultParse
begin

text \<open>
  Key derivation, encryption and the password verifier of the vault (\<open>utils/vault-crypto.ts\<close>).
  WebCrypto is not part of the sources: its three operations are the fields of \<open>webcrypto\<close>, and
  \<open>gcm_ok\<close> is what the code relies on, that AES-GCM decryption inverts encryption. Random bytes
  are arguments.
\<close>

section \<open>WebCrypto\<close>

text \<open>Each operation returns a value or rejects; \<open>derive_key\<close> is \<open>importKey\<close> followed by
  PBKDF2 with SHA-256 to an AES-GCM key.\<close>

record 'k webcrypto =
  derive_key :: "byte list \<Rightarrow> byte list \<Rightarrow> int \<Rightarrow> exn + 'k"
  gcm_encrypt :: "'k \<Rightarrow> byte list \<Rightarrow> byte list \<Rightarrow> exn + byte list"
  gcm_decrypt :: "'k \<Rightarrow> byte list \<Rightarrow> byte list \<Rightarrow> exn + byte list"

definition gcm_ok :: "'k webcrypto \<Rightarrow> bool" where
  "gcm_ok wc \<longleftrightarrow> (\<forall>k n p c. gcm_encrypt wc k n p = Inr c \<longrightarrow> gcm_decrypt wc k n c = Inr p)"

section \<open>Operations\<close>

definition VERIFIER_PLAINTEXT :: jsstring where
  "VERIFIER_PLAINTEXT = js ''shellhub-vault-ok''"

definition PBKDF2_ITERATIONS :: int where
  "PBKDF2_ITERATIONS = 600000"

definition SALT_BYTES :: nat where "SALT_BYTES = 16"

definition IV_BYTES :: nat where "IV_BYTES = 12"

definition deriveKey :: "'k webcrypto \<Rightarrow> jsstring \<Rightarrow> byte list \<Rightarrow> int \<Rightarrow> exn + 'k" where
  "deriveKey wc password slt its = derive_key wc (utf8_encode password) slt its"

definition encrypt :: "'k webcrypto \<Rightarrow> byte list \<Rightarrow> 'k \<Rightarrow> jsstring \<Rightarrow> exn + vault_data" where
  "encrypt wc nonce key plaintext =
     (case gcm_encrypt wc key nonce (utf8_encode plaintext) of
        Inl e \<Rightarrow> Inl e
      | Inr c \<Rightarrow> Inr \<lparr>iv = toBase64 nonce, ciphertext = toBase64 c\<rparr>)"

definition decrypt :: "'k webcrypto \<Rightarrow> 'k \<Rightarrow> vault_data \<Rightarrow> exn + jsstring" where
  "decrypt wc key d =
     (case fromBase64 (iv d) of Inl e \<Rightarrow> Inl e | Inr nonce \<Rightarrow>
      (case fromBase64 (ciphertext d) of Inl e \<Rightarrow> Inl e | Inr c \<Rightarrow>
       (case gcm_decrypt wc key nonce c of Inl e \<Rightarrow> Inl e | Inr p \<Rightarrow> Inr (utf8_decode p))))"

definition createVaultMeta ::
  "'k webcrypto \<Rightarrow> byte list \<Rightarrow> byte list \<Rightarrow> jsstring \<Rightarrow> exn + (vault_meta \<times> 'k)" where
  "createVaultMeta wc slt vnonce password =
     (case deriveKey wc password slt PBKDF2_ITERATIONS of Inl e \<Rightarrow> Inl e | Inr k \<Rightarrow>
      (case gcm_encrypt wc k vnonce (utf8_encode VERIFIER_PLAINTEXT) of Inl e \<Rightarrow> Inl e | Inr c \<Rightarrow>
        Inr (\<lparr>salt = toBase64 slt, iterations = PBKDF2_ITERATIONS,
              verifier = toBase64 c, verifierIv = toBase64 vnonce\<rparr>, k)))"

definition verifyPassword :: "'k webcrypto \<Rightarrow> jsstring \<Rightarrow> vault_meta \<Rightarrow> exn + 'k" where
  "verifyPassword wc password meta =
     (case fromBase64 (salt meta) of Inl e \<Rightarrow> Inl e | Inr slt \<Rightarrow>
      (case deriveKey wc password slt (iterations meta) of Inl e \<Rightarrow> Inl e | Inr k \<Rightarrow>
       (case fromBase64 (verifierIv meta) of Inl e \<Rightarrow> Inl e | Inr nonce \<Rightarrow>
        (case fromBase64 (verifier meta) of Inl e \<Rightarrow> Inl e | Inr c \<Rightarrow>
         (case gcm_decrypt wc k nonce c of Inl e \<Rightarrow> Inl e | Inr p \<Rightarrow>
           if utf8_decode p \<noteq> VERIFIER_PLAINTEXT then Inl (JsError (js ''Vault verifier mismatch''))
           else Inr k)))))"

section \<open>Lemmas\<close>

lemma well_formed_verifier: "utf8_decode (utf8_encode VERIFIER_PLAINTEXT) = VERIFIER_PLAINTEXT"
  by (rule utf8_decode_encode) (simp_all add: VERIFIER_PLAINTEXT_def js_def)

lemma decrypt_encrypt:
  assumes "gcm_ok wc" and "encrypt wc n k p = Inr d" and "utf8_decode (utf8_encode p) = p"
  shows "decrypt wc k d = Inr p"
  using assms by (auto simp: gcm_ok_def encrypt_def decrypt_def split: sum.splits)

lemma decrypt_encrypt_json:
  assumes "gcm_ok wc" and "encrypt wc n k (stringify v) = Inr d" and "wf_json v"
  shows "decrypt wc k d = Inr (stringify v)"
  using assms by (intro decrypt_encrypt) (auto simp: stringify_utf8)

lemma verify_created:
  assumes "gcm_ok wc" and "createVaultMeta wc slt vn pw = Inr (m, k)"
  shows "verifyPassword wc pw m = Inr k"
  using assms
  by (auto simp: gcm_ok_def createVaultMeta_def verifyPassword_def well_formed_verifier split: sum.splits)

lemma code_units_toBase64 [simp]: "code_units (toBase64 bs)"
proof -
  have t: "toBase64 bs = b64_text (bytes_text bs)"
    using btoa_bytes [of bs] bytes_in_range [of bs] by (simp add: btoa_def)
  have "c < 65536" if "c \<in> set (b64_unpadded (bytes_text bs))" for c
    using b64_unpadded_chars [OF bytes_in_range that] by (auto simp: char_class_defs)
  then show ?thesis by (auto simp: t b64_text_def code_units_def list_all_iff)
qed

lemma created_valid:
  "createVaultMeta wc slt vn pw = Inr (m, k) \<Longrightarrow> valid_meta m"
  by (auto simp: createVaultMeta_def valid_meta_def PBKDF2_ITERATIONS_def split: sum.splits)

lemma encrypt_valid: "encrypt wc n k p = Inr d \<Longrightarrow> valid_data d"
  by (auto simp: encrypt_def valid_data_def split: sum.splits)

lemma verifyPassword_derived:
  assumes "verifyPassword wc pw m = Inr k"
  shows "\<exists>slt. fromBase64 (salt m) = Inr slt \<and> deriveKey wc pw slt (iterations m) = Inr k"
  using assms by (auto simp: verifyPassword_def split: sum.splits if_splits)

end
