(* ===== verification/VaultBackend.thy ===== *)
theory VaultBackend
  imports VaultCrypto
begin

text \<open>
  Where the encrypted vault is kept: in the browser (\<open>utils/vault-backend-local.ts\<close>) or on the
  server (\<open>utils/vault-backend-server.ts\<close>), which of the two is in effect
  (\<open>utils/vault-backend-factory.ts\<close>), and the migration between them
  (\<open>utils/vault-migrate.ts\<close>). The interface \<open>IVaultBackend\<close> is the locale
  \<open>vault_backend\<close>; the local backend is its interpretation. The server behind the API client is
  not part of the sources: it is the parameter \<open>vault_api\<close>.
\<close>

section \<open>The browser\<close>

text \<open>
  \<open>setItem\<close> may be refused by the browser: the parameter \<open>quota\<close> decides, from the
  present content, the key and the value. The \<open>DOMException\<close>s it throws are \<open>Error\<close>s.
\<close>

type_synonym storage = "jsstring \<rightharpoonup> jsstring"

datatype set_result = Accepted | QuotaExceeded jsstring | Refused exn

type_synonym quota = "storage \<Rightarrow> jsstring \<Rightarrow> jsstring \<Rightarrow> set_result"

record 's browser =
  localStorage :: storage
  server :: 's
  versionRegistry :: "jsstring \<rightharpoonup> int"

definition setItem :: "quota \<Rightarrow> jsstring \<Rightarrow> jsstring \<Rightarrow> (('s, 'z) browser_scheme, unit) io" where
  "setItem q k v = (\<lambda>w. case q (localStorage w) k v of
      Accepted \<Rightarrow> (Inr (), w\<lparr>localStorage := (localStorage w)(k \<mapsto> v)\<rparr>)
    | QuotaExceeded m \<Rightarrow> (Inl (JsError m), w)
    | Refused e \<Rightarrow> (Inl e, w))"

definition removeItem :: "jsstring \<Rightarrow> ('s, 'z) browser_scheme \<Rightarrow> ('s, 'z) browser_scheme" where
  "removeItem k w = w\<lparr>localStorage := (localStorage w)(k := None)\<rparr>"

section \<open>The local backend\<close>

type_synonym scope = "(jsstring \<times> jsstring) option"

definition VAULT_META_KEY :: jsstring where "VAULT_META_KEY = js ''shellhub-vault-meta''"
definition VAULT_DATA_KEY :: jsstring where "VAULT_DATA_KEY = js ''shellhub-vault-data''"
definition VAULT_SETTINGS_KEY :: jsstring where "VAULT_SETTINGS_KEY = js ''shellhub-vault-settings''"
definition LEGACY_KEYS_KEY :: jsstring where "LEGACY_KEYS_KEY = js ''privateKeys''"

definition scope_prefix :: "scope \<Rightarrow> jsstring option" where
  "scope_prefix sc = map_option (\<lambda>(user, tenant). user @ js '':'' @ tenant) sc"

definition prefixKey :: "jsstring \<Rightarrow> jsstring option \<Rightarrow> jsstring" where
  "prefixKey base prefix = (case prefix of
      None \<Rightarrow> base
    | Some p \<Rightarrow> if p = [] then base else base @ js '':'' @ p)"

definition localVaultExists :: "scope \<Rightarrow> ('s, 'z) browser_scheme \<Rightarrow> bool" where
  "localVaultExists sc w \<longleftrightarrow>
     localStorage w (prefixKey VAULT_META_KEY (scope_prefix sc)) \<noteq> None"

definition QUOTA_MESSAGE :: jsstring where
  "QUOTA_MESSAGE = js ''Storage quota exceeded. Free up space or reset the vault.''"

definition safeSetItem :: "quota \<Rightarrow> jsstring \<Rightarrow> jsstring \<Rightarrow> (('s, 'z) browser_scheme, unit) io" where
  "safeSetItem q k v = (\<lambda>w. case q (localStorage w) k v of
      QuotaExceeded _ \<Rightarrow> (Inl (JsError QUOTA_MESSAGE), w)
    | _ \<Rightarrow> setItem q k v w)"

fun settle :: "('w, unit) io \<Rightarrow> ('w, unit) io" where
  "settle m w = catch m (\<lambda>e. case e of
      JsError t \<Rightarrow> throw (JsError t)
    | OtherThrow t \<Rightarrow> throw (JsError t)) w"

declare settle.simps [simp del]

text \<open>An entry of the legacy list that lacks one of the four members is dropped.\<close>

definition legacy_of_json :: "json \<Rightarrow> legacy_key option" where
  "legacy_of_json item =
     (case (as_string (getp item (js ''name'')), as_string (getp item (js ''data'')),
            as_bool (getp item (js ''hasPassphrase'')), as_string (getp item (js ''fingerprint''))) of
        (Some n, Some d, Some h, Some f) \<Rightarrow>
          Some \<lparr>legacy_name = n, legacy_data = d, legacy_hasPassphrase = h, legacy_fingerprint = f\<rparr>
      | _ \<Rightarrow> None)"

definition loadLegacyKeysFromStorage :: "('s, 'z) browser_scheme \<Rightarrow> legacy_key list" where
  "loadLegacyKeysFromStorage w =
     (case JSON_parse (case localStorage w LEGACY_KEYS_KEY of None \<Rightarrow> js ''[]'' | Some t \<Rightarrow> t) of
        Some (JArr items) \<Rightarrow> List.map_filter legacy_of_json items
      | _ \<Rightarrow> [])"

definition clearLegacyKeysFromStorage :: "('s, 'z) browser_scheme \<Rightarrow> ('s, 'z) browser_scheme" where
  "clearLegacyKeysFromStorage w = removeItem LEGACY_KEYS_KEY w"

definition local_loadMeta :: "scope \<Rightarrow> (('s, 'z) browser_scheme, vault_meta option) io" where
  "local_loadMeta sc = gets (\<lambda>w. parseVaultMeta (localStorage w (prefixKey VAULT_META_KEY (scope_prefix sc))))"

definition local_saveMeta :: "quota \<Rightarrow> scope \<Rightarrow> vault_meta \<Rightarrow> (('s, 'z) browser_scheme, unit) io" where
  "local_saveMeta q sc meta =
     settle (safeSetItem q (prefixKey VAULT_META_KEY (scope_prefix sc)) (stringify (meta_json meta)))"

definition local_loadData :: "scope \<Rightarrow> (('s, 'z) browser_scheme, vault_data option) io" where
  "local_loadData sc = gets (\<lambda>w. parseVaultData (localStorage w (prefixKey VAULT_DATA_KEY (scope_prefix sc))))"

definition local_saveData :: "quota \<Rightarrow> scope \<Rightarrow> vault_data \<Rightarrow> (('s, 'z) browser_scheme, unit) io" where
  "local_saveData q sc d =
     settle (safeSetItem q (prefixKey VAULT_DATA_KEY (scope_prefix sc)) (stringify (data_json d)))"

definition local_clear :: "scope \<Rightarrow> (('s, 'z) browser_scheme, unit) io" where
  "local_clear sc = modify (\<lambda>w.
     removeItem (prefixKey VAULT_SETTINGS_KEY (scope_prefix sc))
      (removeItem (prefixKey VAULT_DATA_KEY (scope_prefix sc))
        (removeItem (prefixKey VAULT_META_KEY (scope_prefix sc)) w)))"

definition local_loadSettings :: "scope \<Rightarrow> (('s, 'z) browser_scheme, vault_settings) io" where
  "local_loadSettings sc =
     gets (\<lambda>w. parseVaultSettings (localStorage w (prefixKey VAULT_SETTINGS_KEY (scope_prefix sc))))"

definition local_saveSettings :: "quota \<Rightarrow> scope \<Rightarrow> vault_settings \<Rightarrow> (('s, 'z) browser_scheme, unit) io" where
  "local_saveSettings q sc s =
     settle (safeSetItem q (prefixKey VAULT_SETTINGS_KEY (scope_prefix sc)) (stringify (settings_json s)))"

section \<open>The server backend\<close>

text \<open>
  A reply of the generated client: \<open>rstatus\<close> is \<open>response.status\<close>, and \<open>None\<close> when no
  response arrived (\<open>response\<close> is then undefined and reading its status throws); \<open>rerror\<close>
  whether \<open>error\<close> is truthy; \<open>rdata\<close> the body.
\<close>

record vault_response =
  vmeta :: "jsstring option"
  vdata :: "jsstring option"
  vsettings :: "jsstring option"
  vversion :: "int option"

record reply =
  rstatus :: "int option"
  rerror :: bool
  rdata :: "vault_response option"

record 's vault_api =
  getVault :: "'s \<Rightarrow> reply \<times> 's"
  saveVaultMeta :: "jsstring \<Rightarrow> 's \<Rightarrow> reply \<times> 's"
  saveVaultData :: "jsstring \<Rightarrow> int \<Rightarrow> 's \<Rightarrow> reply \<times> 's"
  saveVaultSettings :: "jsstring \<Rightarrow> 's \<Rightarrow> reply \<times> 's"
  deleteVault :: "'s \<Rightarrow> reply \<times> 's"

definition call :: "('s \<Rightarrow> reply \<times> 's) \<Rightarrow> (('s, 'z) browser_scheme, reply) io" where
  "call f = (\<lambda>w. let (r, s) = f (server w) in (Inr r, w\<lparr>server := s\<rparr>))"

definition statusOf :: "reply \<Rightarrow> ('w, int) io" where
  "statusOf r = (case rstatus r of
      None \<Rightarrow> throw (JsError (js ''Cannot read properties of undefined (reading 'status')''))
    | Some n \<Rightarrow> ret n)"

definition scopeKey :: "scope \<Rightarrow> jsstring" where
  "scopeKey sc = (case scope_prefix sc of None \<Rightarrow> [] | Some p \<Rightarrow> p)"

definition server_version :: "scope \<Rightarrow> ('s, 'z) browser_scheme \<Rightarrow> int" where
  "server_version sc w = (case versionRegistry w (scopeKey sc) of None \<Rightarrow> 0 | Some v \<Rightarrow> v)"

definition track :: "scope \<Rightarrow> vault_response \<Rightarrow> (('s, 'z) browser_scheme, unit) io" where
  "track sc v = modify (\<lambda>w. case vversion v of
      None \<Rightarrow> w
    | Some n \<Rightarrow> w\<lparr>versionRegistry := (versionRegistry w)(scopeKey sc \<mapsto> n)\<rparr>)"

definition LOAD_FAILED :: exn where
  "LOAD_FAILED = JsError (js ''Failed to load the vault from the server.'')"
definition SAVE_FAILED :: exn where
  "SAVE_FAILED = JsError (js ''Failed to save the vault to the server.'')"
definition CONFLICT :: exn where
  "CONFLICT = JsError (js ''The vault was changed in another session. Reload the vault and try again.'')"
definition RESET_FAILED :: exn where
  "RESET_FAILED = JsError (js ''Failed to reset the vault on the server.'')"
definition SETTINGS_FAILED :: exn where
  "SETTINGS_FAILED = JsError (js ''Failed to save the vault settings to the server.'')"

definition server_fetch :: "'s vault_api \<Rightarrow> scope \<Rightarrow> (('s, 'z) browser_scheme, vault_response option) io" where
  "server_fetch api sc =
     bind (call (getVault api)) (\<lambda>r.
     bind (statusOf r) (\<lambda>st.
       if st = 404 then ret None
       else case rdata r of
           None \<Rightarrow> throw LOAD_FAILED
         | Some d \<Rightarrow> if rerror r then throw LOAD_FAILED else seq (track sc d) (ret (Some d))))"

definition accept_write :: "scope \<Rightarrow> exn \<Rightarrow> reply \<Rightarrow> (('s, 'z) browser_scheme, unit) io" where
  "accept_write sc e r = (case rdata r of
      None \<Rightarrow> throw e
    | Some d \<Rightarrow> if rerror r then throw e else track sc d)"

definition server_loadMeta :: "'s vault_api \<Rightarrow> scope \<Rightarrow> (('s, 'z) browser_scheme, vault_meta option) io" where
  "server_loadMeta api sc =
     bind (server_fetch api sc) (\<lambda>v. ret (parseVaultMeta (Option.bind v vmeta)))"

definition server_saveMeta :: "'s vault_api \<Rightarrow> scope \<Rightarrow> vault_meta \<Rightarrow> (('s, 'z) browser_scheme, unit) io" where
  "server_saveMeta api sc meta =
     bind (call (saveVaultMeta api (stringify (meta_json meta)))) (accept_write sc SAVE_FAILED)"

definition server_loadData :: "'s vault_api \<Rightarrow> scope \<Rightarrow> (('s, 'z) browser_scheme, vault_data option) io" where
  "server_loadData api sc =
     bind (server_fetch api sc) (\<lambda>v. ret (parseVaultData (Option.bind v vdata)))"

definition server_saveData :: "'s vault_api \<Rightarrow> scope \<Rightarrow> vault_data \<Rightarrow> (('s, 'z) browser_scheme, unit) io" where
  "server_saveData api sc d =
     bind (gets (server_version sc)) (\<lambda>v.
     bind (call (saveVaultData api (stringify (data_json d)) v)) (\<lambda>r.
     bind (statusOf r) (\<lambda>st.
       if st = 409
       then seq (catch (server_fetch api sc) (\<lambda>_. ret None)) (throw CONFLICT)
       else accept_write sc SAVE_FAILED r)))"

definition server_clear :: "'s vault_api \<Rightarrow> scope \<Rightarrow> (('s, 'z) browser_scheme, unit) io" where
  "server_clear api sc =
     bind (call (deleteVault api)) (\<lambda>r.
     seq (if rerror r
          then bind (statusOf r) (\<lambda>st. if st \<noteq> 404 then throw RESET_FAILED else ret ())
          else ret ())
         (modify (\<lambda>w. w\<lparr>versionRegistry := (versionRegistry w)(scopeKey sc := None)\<rparr>)))"

definition server_loadSettings :: "'s vault_api \<Rightarrow> scope \<Rightarrow> (('s, 'z) browser_scheme, vault_settings) io" where
  "server_loadSettings api sc =
     bind (catch (server_fetch api sc) (\<lambda>_. ret None))
       (\<lambda>v. ret (parseVaultSettings (Option.bind v vsettings)))"

definition server_saveSettings :: "'s vault_api \<Rightarrow> scope \<Rightarrow> vault_settings \<Rightarrow> (('s, 'z) browser_scheme, unit) io" where
  "server_saveSettings api sc s =
     bind (call (saveVaultSettings api (stringify (settings_json s)))) (accept_write sc SETTINGS_FAILED)"

section \<open>Which backend\<close>

datatype storage_mode = Local | Server

definition VAULT_STORAGE_MODE_KEY :: jsstring where
  "VAULT_STORAGE_MODE_KEY = js ''shellhub-vault-storage''"

definition modeKey :: "scope \<Rightarrow> jsstring" where
  "modeKey sc = (case sc of
      None \<Rightarrow> VAULT_STORAGE_MODE_KEY
    | Some (user, tenant) \<Rightarrow> VAULT_STORAGE_MODE_KEY @ js '':'' @ user @ js '':'' @ tenant)"

primrec mode_text :: "storage_mode \<Rightarrow> jsstring" where
  "mode_text Local = js ''local''"
| "mode_text Server = js ''server''"

text \<open>\<open>enabled\<close> is \<open>isVaultServerEnabled()\<close>, the deployment's \<open>isEnterpriseOrCloud()\<close>.\<close>

definition getVaultStorageMode :: "bool \<Rightarrow> scope \<Rightarrow> ('s, 'z) browser_scheme \<Rightarrow> storage_mode" where
  "getVaultStorageMode enabled sc w =
     (if \<not> enabled then Local
      else let stored = localStorage w (modeKey sc) in
        if stored = Some (mode_text Local) then Local
        else if stored = Some (mode_text Server) then Server
        else if localVaultExists sc w then Local else Server)"

definition setVaultStorageMode :: "quota \<Rightarrow> storage_mode \<Rightarrow> scope \<Rightarrow> (('s, 'z) browser_scheme, unit) io" where
  "setVaultStorageMode q mode sc = setItem q (modeKey sc) (mode_text mode)"

definition VAULT_SYNC_PROMO_KEY :: jsstring where
  "VAULT_SYNC_PROMO_KEY = js ''shellhub-vault-sync-promo-dismissed''"

definition promoKey :: "scope \<Rightarrow> jsstring" where
  "promoKey sc = (case sc of
      None \<Rightarrow> VAULT_SYNC_PROMO_KEY
    | Some (user, tenant) \<Rightarrow> VAULT_SYNC_PROMO_KEY @ js '':'' @ user @ js '':'' @ tenant)"

definition isVaultSyncPromoDismissed :: "scope \<Rightarrow> ('s, 'z) browser_scheme \<Rightarrow> bool" where
  "isVaultSyncPromoDismissed sc w \<longleftrightarrow> localStorage w (promoKey sc) = Some (js ''true'')"

definition dismissVaultSyncPromo :: "quota \<Rightarrow> scope \<Rightarrow> (('s, 'z) browser_scheme, unit) io" where
  "dismissVaultSyncPromo q sc = setItem q (promoKey sc) (js ''true'')"

datatype backend = LocalVaultBackend scope | ServerVaultBackend scope

definition getVaultBackend :: "bool \<Rightarrow> scope \<Rightarrow> ('s, 'z) browser_scheme \<Rightarrow> backend" where
  "getVaultBackend enabled sc w =
     (if getVaultStorageMode enabled sc w = Server then ServerVaultBackend sc else LocalVaultBackend sc)"

section \<open>Migration\<close>

definition serverVaultExists :: "'s vault_api \<Rightarrow> scope \<Rightarrow> (('s, 'z) browser_scheme, bool) io" where
  "serverVaultExists api sc = bind (server_loadMeta api sc) (\<lambda>m. ret (m \<noteq> None))"

definition migrateLocalToServer :: "quota \<Rightarrow> 's vault_api \<Rightarrow> scope \<Rightarrow> (('s, 'z) browser_scheme, unit) io" where
  "migrateLocalToServer q api sc =
     bind (local_loadMeta sc) (\<lambda>m. case m of
       None \<Rightarrow> throw (JsError (js ''No local vault to migrate.''))
     | Some meta \<Rightarrow>
         bind (local_loadData sc) (\<lambda>d.
         bind (local_loadSettings sc) (\<lambda>s.
         seq (server_clear api sc)
         (seq (server_saveMeta api sc meta)
         (seq (case d of None \<Rightarrow> ret () | Some x \<Rightarrow> server_saveData api sc x)
         (seq (server_saveSettings api sc s)
         (seq (local_clear sc)
              (setVaultStorageMode q Server sc))))))))"

definition adoptServerVault :: "quota \<Rightarrow> scope \<Rightarrow> (('s, 'z) browser_scheme, unit) io" where
  "adoptServerVault q sc = seq (local_clear sc) (setVaultStorageMode q Server sc)"

definition migrateServerToLocal :: "quota \<Rightarrow> 's vault_api \<Rightarrow> scope \<Rightarrow> (('s, 'z) browser_scheme, unit) io" where
  "migrateServerToLocal q api sc =
     bind (server_loadMeta api sc) (\<lambda>m. case m of
       None \<Rightarrow> throw (JsError (js ''No synced vault to migrate.''))
     | Some meta \<Rightarrow>
         bind (server_loadData api sc) (\<lambda>d.
         bind (server_loadSettings api sc) (\<lambda>s.
         seq (local_saveMeta q sc meta)
         (seq (case d of None \<Rightarrow> ret () | Some x \<Rightarrow> local_saveData q sc x)
         (seq (local_saveSettings q sc s)
         (seq (server_clear api sc)
              (setVaultStorageMode q Local sc)))))))"

section \<open>The interface\<close>

text \<open>
  \<open>IVaultBackend\<close>: what the store and the migration rely on. \<open>meta_of\<close>, \<open>data_of\<close> and
  \<open>settings_of\<close> read the three parts a backend keeps; a save changes its own part only, a
  rejected save changes nothing, and \<open>clear\<close> leaves no vault.
\<close>

locale vault_backend =
  fixes loadMeta :: "('w, vault_meta option) io"
    and saveMeta :: "vault_meta \<Rightarrow> ('w, unit) io"
    and loadData :: "('w, vault_data option) io"
    and saveData :: "vault_data \<Rightarrow> ('w, unit) io"
    and clear :: "('w, unit) io"
    and loadSettings :: "('w, vault_settings) io"
    and saveSettings :: "vault_settings \<Rightarrow> ('w, unit) io"
    and meta_of :: "'w \<Rightarrow> vault_meta option"
    and data_of :: "'w \<Rightarrow> vault_data option"
    and settings_of :: "'w \<Rightarrow> vault_settings"
  assumes loadMeta_law: "loadMeta w = (Inr (meta_of w), w)"
    and loadData_law: "loadData w = (Inr (data_of w), w)"
    and loadSettings_law: "loadSettings w = (Inr (settings_of w), w)"
    and saveMeta_law: "saveMeta m w = (Inr (), w') \<Longrightarrow> valid_meta m \<Longrightarrow>
      meta_of w' = Some m \<and> data_of w' = data_of w \<and> settings_of w' = settings_of w"
    and saveData_law: "saveData d w = (Inr (), w') \<Longrightarrow> valid_data d \<Longrightarrow>
      meta_of w' = meta_of w \<and> data_of w' = Some d \<and> settings_of w' = settings_of w"
    and saveSettings_law: "saveSettings s w = (Inr (), w') \<Longrightarrow> valid_settings s \<Longrightarrow>
      meta_of w' = meta_of w \<and> data_of w' = data_of w \<and> settings_of w' = s"
    and saveMeta_err: "saveMeta m w = (Inl e, w') \<Longrightarrow> w' = w"
    and saveData_err: "saveData d w = (Inl e, w') \<Longrightarrow> w' = w"
    and saveSettings_err: "saveSettings s w = (Inl e, w') \<Longrightarrow> w' = w"
    and clear_law: "clear w = (r, w') \<Longrightarrow>
      r = Inr () \<and> meta_of w' = None \<and> data_of w' = None \<and> settings_of w' = DEFAULT_VAULT_SETTINGS"
begin

lemma save_all:
  assumes "seq (saveMeta m) (seq (case d of None \<Rightarrow> ret () | Some x \<Rightarrow> saveData x) (saveSettings s)) w = (Inr (), w')"
    and "valid_meta m" and "valid_settings s" and "\<And>x. d = Some x \<Longrightarrow> valid_data x"
  shows "meta_of w' = Some m \<and> settings_of w' = s \<and>
         data_of w' = (case d of None \<Rightarrow> data_of w | Some x \<Rightarrow> Some x)"
  using assms saveMeta_law saveData_law saveSettings_law
  by (cases d) (fastforce simp: io_simps split: prod.splits sum.splits)+

text \<open>A write of the data that is later undone by writing the old data back.\<close>

lemma restore_data:
  assumes "saveData d w = (Inr (), w1)" "saveData d0 w1 = (Inr (), w2)" "data_of w = Some d0"
    and "valid_data d" "valid_data d0"
  shows "meta_of w2 = meta_of w \<and> data_of w2 = data_of w \<and> settings_of w2 = settings_of w"
  using saveData_law [OF assms(1,4)] saveData_law [OF assms(2,5)] assms(3) by simp

lemma cleared_then_saved:
  assumes "clear w = (r, w1)" "saveMeta m w1 = (Inr (), w2)" "valid_meta m"
  shows "meta_of w2 = Some m \<and> data_of w2 = None \<and> settings_of w2 = DEFAULT_VAULT_SETTINGS"
  using clear_law [OF assms(1)] saveMeta_law [OF assms(2,3)] by simp

end

section \<open>The local backend keeps the contract\<close>

definition local_meta :: "scope \<Rightarrow> ('s, 'z) browser_scheme \<Rightarrow> vault_meta option" where
  "local_meta sc w = parseVaultMeta (localStorage w (prefixKey VAULT_META_KEY (scope_prefix sc)))"

definition local_data :: "scope \<Rightarrow> ('s, 'z) browser_scheme \<Rightarrow> vault_data option" where
  "local_data sc w = parseVaultData (localStorage w (prefixKey VAULT_DATA_KEY (scope_prefix sc)))"

definition local_settings :: "scope \<Rightarrow> ('s, 'z) browser_scheme \<Rightarrow> vault_settings" where
  "local_settings sc w = parseVaultSettings (localStorage w (prefixKey VAULT_SETTINGS_KEY (scope_prefix sc)))"

lemmas local_views = local_meta_def local_data_def local_settings_def
lemmas vault_key_defs = VAULT_META_KEY_def VAULT_DATA_KEY_def VAULT_SETTINGS_KEY_def LEGACY_KEYS_KEY_def

lemma prefixKey_distinct [simp]:
  "prefixKey VAULT_META_KEY p \<noteq> prefixKey VAULT_DATA_KEY p'"
  "prefixKey VAULT_DATA_KEY p \<noteq> prefixKey VAULT_META_KEY p'"
  "prefixKey VAULT_META_KEY p \<noteq> prefixKey VAULT_SETTINGS_KEY p'"
  "prefixKey VAULT_SETTINGS_KEY p \<noteq> prefixKey VAULT_META_KEY p'"
  "prefixKey VAULT_DATA_KEY p \<noteq> prefixKey VAULT_SETTINGS_KEY p'"
  "prefixKey VAULT_SETTINGS_KEY p \<noteq> prefixKey VAULT_DATA_KEY p'"
  "LEGACY_KEYS_KEY \<noteq> prefixKey VAULT_META_KEY p"
  "LEGACY_KEYS_KEY \<noteq> prefixKey VAULT_DATA_KEY p"
  "LEGACY_KEYS_KEY \<noteq> prefixKey VAULT_SETTINGS_KEY p"
  "modeKey sc \<noteq> prefixKey VAULT_META_KEY p"
  "modeKey sc \<noteq> prefixKey VAULT_DATA_KEY p"
  "modeKey sc \<noteq> prefixKey VAULT_SETTINGS_KEY p"
  by (simp_all add: prefixKey_def vault_key_defs modeKey_def VAULT_STORAGE_MODE_KEY_def js_def
      split: option.splits prod.splits)

lemma local_write_ok:
  "settle (safeSetItem q k v) w = (Inr (), w') \<Longrightarrow>
     w' = w\<lparr>localStorage := (localStorage w)(k \<mapsto> v)\<rparr>"
  by (auto simp: settle.simps io_simps safeSetItem_def setItem_def split: set_result.splits exn.splits)

lemma local_write_err: "settle (safeSetItem q k v) w = (Inl e, w') \<Longrightarrow> w' = w"
  by (auto simp: settle.simps io_simps safeSetItem_def setItem_def split: set_result.splits exn.splits)

lemma local_write_error_is_Error:
  "settle (safeSetItem q k v) w = (Inl e, w') \<Longrightarrow> \<exists>m. e = JsError m"
  by (auto simp: settle.simps io_simps safeSetItem_def setItem_def split: set_result.splits exn.splits)

interpretation local: vault_backend "local_loadMeta sc" "local_saveMeta q sc" "local_loadData sc"
  "local_saveData q sc" "local_clear sc" "local_loadSettings sc" "local_saveSettings q sc"
  "local_meta sc" "local_data sc" "local_settings sc" for q sc
proof
  fix m :: vault_meta and w w' :: "('s, 'z) browser_scheme"
  assume "local_saveMeta q sc m w = (Inr (), w')" and "valid_meta m"
  then show "local_meta sc w' = Some m \<and> local_data sc w' = local_data sc w \<and>
      local_settings sc w' = local_settings sc w"
    using local_write_ok by (fastforce simp: local_saveMeta_def local_views parseVaultMeta_written)
next
  fix d :: vault_data and w w' :: "('s, 'z) browser_scheme"
  assume "local_saveData q sc d w = (Inr (), w')" and "valid_data d"
  then show "local_meta sc w' = local_meta sc w \<and> local_data sc w' = Some d \<and>
      local_settings sc w' = local_settings sc w"
    using local_write_ok by (fastforce simp: local_saveData_def local_views parseVaultData_written)
next
  fix s :: vault_settings and w w' :: "('s, 'z) browser_scheme"
  assume "local_saveSettings q sc s w = (Inr (), w')" and "valid_settings s"
  then show "local_meta sc w' = local_meta sc w \<and> local_data sc w' = local_data sc w \<and>
      local_settings sc w' = s"
    using local_write_ok
    by (fastforce simp: local_saveSettings_def local_views parseVaultSettings_written)
qed (auto simp: local_loadMeta_def local_loadData_def local_loadSettings_def local_views
      local_saveMeta_def local_saveData_def local_saveSettings_def local_clear_def removeItem_def
      ret_def gets_def modify_def dest: local_write_err)

section \<open>Scopes do not share a vault\<close>

text \<open>A user name has no colon (\<open>validateUsername\<close>); with one, two scopes could give one key.\<close>

definition scope_ok :: "scope \<Rightarrow> bool" where
  "scope_ok sc = (case sc of None \<Rightarrow> True | Some (user, tenant) \<Rightarrow> 58 \<notin> set user)"

lemma colon_split_inj: "58 \<notin> set u \<Longrightarrow> 58 \<notin> set u' \<Longrightarrow> u @ 58 # t = u' @ 58 # (t' :: nat list) \<longleftrightarrow> u = u' \<and> t = t'"
proof (induction u arbitrary: u')
  case Nil
  then show ?case by (cases u') auto
next
  case (Cons a u)
  then show ?case by (cases u') auto
qed

lemma prefixKey_scope_inj:
  assumes "scope_ok sc" "scope_ok sc'"
  shows "prefixKey b (scope_prefix sc) = prefixKey b (scope_prefix sc') \<longleftrightarrow> sc = sc'"
  using assms by (auto simp: prefixKey_def scope_prefix_def scope_ok_def js_def colon_split_inj
      split: option.splits)

lemmas local_writes = local_saveMeta_def local_saveData_def local_saveSettings_def

lemma local_write_snd:
  "snd (settle (safeSetItem q k v) w) = w \<or>
   snd (settle (safeSetItem q k v) w) = w\<lparr>localStorage := (localStorage w)(k \<mapsto> v)\<rparr>"
  by (auto simp: settle.simps io_simps safeSetItem_def setItem_def split: set_result.splits exn.splits)



section \<open>The server's versions\<close>

text \<open>
  \<open>serves_versions api ver\<close> is the optimistic concurrency the API documents: an accepted reply
  carries the version the vault then has, and a data write is answered 409 only when the version it
  carries is not the current one.
\<close>

definition accepted :: "reply \<Rightarrow> bool" where
  "accepted r \<longleftrightarrow> \<not> rerror r \<and> rdata r \<noteq> None"

definition carries :: "reply \<Rightarrow> int \<Rightarrow> bool" where
  "carries r n \<longleftrightarrow> (case rdata r of None \<Rightarrow> False | Some v \<Rightarrow> vversion v = Some n)"

definition serves_versions :: "'s vault_api \<Rightarrow> ('s \<Rightarrow> int) \<Rightarrow> bool" where
  "serves_versions api ver \<longleftrightarrow>
     (\<forall>s r s'. getVault api s = (r, s') \<longrightarrow> accepted r \<longrightarrow> carries r (ver s')) \<and>
     (\<forall>t s r s'. saveVaultMeta api t s = (r, s') \<longrightarrow> accepted r \<longrightarrow> carries r (ver s')) \<and>
     (\<forall>t s r s'. saveVaultSettings api t s = (r, s') \<longrightarrow> accepted r \<longrightarrow> carries r (ver s')) \<and>
     (\<forall>t v s r s'. saveVaultData api t v s = (r, s') \<longrightarrow> accepted r \<longrightarrow> carries r (ver s')) \<and>
     (\<forall>t v s r s'. saveVaultData api t v s = (r, s') \<longrightarrow> rstatus r = Some 409 \<longrightarrow> v \<noteq> ver s)"

lemma serves_versionsD:
  assumes "serves_versions api ver"
  shows "getVault api s = (r, s') \<Longrightarrow> accepted r \<Longrightarrow> carries r (ver s')"
    and "saveVaultMeta api t s = (r, s') \<Longrightarrow> accepted r \<Longrightarrow> carries r (ver s')"
    and "saveVaultSettings api t s = (r, s') \<Longrightarrow> accepted r \<Longrightarrow> carries r (ver s')"
    and "saveVaultData api t v s = (r, s') \<Longrightarrow> accepted r \<Longrightarrow> carries r (ver s')"
    and "saveVaultData api t v s = (r, s') \<Longrightarrow> rstatus r = Some 409 \<Longrightarrow> v \<noteq> ver s"
  using assms [unfolded serves_versions_def] by (elim conjE; metis)+

lemma accept_write_ok:
  "accept_write sc e r w = (Inr (), w') \<Longrightarrow>
     accepted r \<and> server w' = server w \<and> localStorage w' = localStorage w \<and>
     (\<forall>n. carries r n \<longrightarrow> server_version sc w' = n)"
  by (auto simp: accept_write_def accepted_def carries_def server_version_def track_def io_simps
      split: option.splits if_splits)

lemma accept_write_err:
  "accept_write sc e r w = (Inl e', w') \<Longrightarrow> w' = w \<and> e' = e"
  by (auto simp: accept_write_def track_def io_simps split: option.splits if_splits)

lemma server_fetch_Some:
  assumes "server_fetch api sc w = (Inr (Some v), w')"
  shows "\<exists>r. getVault api (server w) = (r, server w') \<and> accepted r \<and> rdata r = Some v \<and>
             rstatus r \<noteq> Some 404 \<and> localStorage w' = localStorage w \<and>
             (\<forall>n. carries r n \<longrightarrow> server_version sc w' = n)"
  using assms
  by (auto simp: server_fetch_def call_def statusOf_def accepted_def carries_def track_def
      server_version_def io_simps Let_def split: option.splits if_splits prod.splits sum.splits)

lemma server_fetch_frame: "localStorage (snd (server_fetch api sc w)) = localStorage w"
  by (auto simp: server_fetch_def call_def statusOf_def track_def io_simps Let_def
      split: option.splits prod.splits sum.splits)

lemma bind_call_accept:
  assumes "bind (call f) (accept_write sc e) w = (Inr (), w')"
  shows "\<exists>r. f (server w) = (r, server w') \<and> accepted r \<and> localStorage w' = localStorage w \<and>
             (\<forall>n. carries r n \<longrightarrow> server_version sc w' = n)"
  using assms by (auto simp: bind_def call_def Let_def split: prod.splits dest!: accept_write_ok)

lemma server_saveData_ok:
  assumes "server_saveData api sc d w = (Inr (), w')"
  shows "bind (call (saveVaultData api (stringify (data_json d)) (server_version sc w)))
           (accept_write sc SAVE_FAILED) w = (Inr (), w')"
  using assms
  by (auto simp: server_saveData_def call_def statusOf_def io_simps Let_def
      split: prod.splits option.splits if_splits sum.splits)

text \<open>
  C20: A session that is the only writer never gets a version conflict. After any successful load or
  save through the server backend the tracked version is the server's, and a data write that
  follows is not answered 409, although every operation creates a new backend object.
\<close>

theorem server_no_false_conflict:
  assumes "serves_versions api ver"
    and "(\<exists>m. server_saveMeta api sc m w = (Inr (), w')) \<or>
         (\<exists>d. server_saveData api sc d w = (Inr (), w')) \<or>
         (\<exists>s. server_saveSettings api sc s w = (Inr (), w')) \<or>
         (\<exists>v. server_fetch api sc w = (Inr (Some v), w'))"
  shows "server_version sc w' = ver (server w') \<and>
         (\<forall>d. fst (server_saveData api sc d w') \<noteq> Inl CONFLICT)"
proof -
  have v: "server_version sc w' = ver (server w')"
    using assms(2)
  proof (elim disjE exE)
    fix m assume "server_saveMeta api sc m w = (Inr (), w')"
    then show ?thesis
      using bind_call_accept serves_versionsD(2) [OF assms(1)] unfolding server_saveMeta_def by metis
  next
    fix d assume "server_saveData api sc d w = (Inr (), w')"
    then show ?thesis
      using bind_call_accept [OF server_saveData_ok] serves_versionsD(4) [OF assms(1)] by metis
  next
    fix s assume "server_saveSettings api sc s w = (Inr (), w')"
    then show ?thesis
      using bind_call_accept serves_versionsD(3) [OF assms(1)] unfolding server_saveSettings_def by metis
  next
    fix v assume "server_fetch api sc w = (Inr (Some v), w')"
    then show ?thesis using server_fetch_Some serves_versionsD(1) [OF assms(1)] by metis
  qed
  have "fst (server_saveData api sc d w') \<noteq> Inl CONFLICT" for d
  proof -
    obtain r s where r: "saveVaultData api (stringify (data_json d)) (server_version sc w') (server w') = (r, s)"
      by (metis surj_pair)
    then have "rstatus r \<noteq> Some 409" using serves_versionsD(5) [OF assms(1)] v by metis
    then show ?thesis using r
      by (auto simp: server_saveData_def call_def statusOf_def io_simps Let_def CONFLICT_def SAVE_FAILED_def
          accept_write_def track_def js_def split: option.splits prod.splits sum.splits if_splits)
  qed
  then show ?thesis using v by blast
qed

text \<open>
  A server that behaves as the API documents (\<open>openapi/spec/paths\<close>), for the witnesses: 404 when
  there is no vault, a version that grows with every write, 409 on a stale version.
\<close>

definition ok_reply :: "vault_response \<Rightarrow> reply" where
  "ok_reply v = \<lparr>rstatus = Some 200, rerror = False, rdata = Some v\<rparr>"

definition err_reply :: "int \<Rightarrow> reply" where
  "err_reply n = \<lparr>rstatus = Some n, rerror = True, rdata = None\<rparr>"

definition stored_version :: "vault_response option \<Rightarrow> int" where
  "stored_version s = (case s of None \<Rightarrow> 0 | Some v \<Rightarrow> (case vversion v of None \<Rightarrow> 0 | Some n \<Rightarrow> n))"

definition write_part :: "(vault_response \<Rightarrow> vault_response) \<Rightarrow> vault_response option \<Rightarrow> reply \<times> vault_response option" where
  "write_part f s =
     (let v = f (case s of None \<Rightarrow> \<lparr>vmeta = None, vdata = None, vsettings = None, vversion = None\<rparr> | Some v \<Rightarrow> v);
          v' = v\<lparr>vversion := Some (stored_version s + 1)\<rparr>
      in (ok_reply v', Some v'))"

definition memory_api :: "vault_response option vault_api" where
  "memory_api =
     \<lparr>getVault = (\<lambda>s. (case s of None \<Rightarrow> err_reply 404
                       | Some v \<Rightarrow> ok_reply (v\<lparr>vversion := Some (stored_version s)\<rparr>), s)),
      saveVaultMeta = (\<lambda>t. write_part (\<lambda>v. v\<lparr>vmeta := Some t\<rparr>)),
      saveVaultData = (\<lambda>t n s. if n = stored_version s then write_part (\<lambda>v. v\<lparr>vdata := Some t\<rparr>) s
                                else (err_reply 409, s)),
      saveVaultSettings = (\<lambda>t. write_part (\<lambda>v. v\<lparr>vsettings := Some t\<rparr>)),
      deleteVault = (\<lambda>s. case s of None \<Rightarrow> (err_reply 404, s)
                        | Some v \<Rightarrow> (\<lparr>rstatus = Some 204, rerror = False, rdata = None\<rparr>, None))\<rparr>"

lemmas memory_defs = memory_api_def write_part_def ok_reply_def err_reply_def stored_version_def

lemma memory_api_versions: "serves_versions memory_api stored_version"
  by (auto simp: serves_versions_def memory_defs accepted_def carries_def Let_def split: option.splits if_splits)

definition empty_browser :: "vault_response option browser" where
  "empty_browser = \<lparr>localStorage = Map.empty, server = None, versionRegistry = Map.empty\<rparr>"

definition sample_meta :: vault_meta where
  "sample_meta = \<lparr>salt = js ''c2FsdA=='', iterations = 600000, verifier = js ''dmVy'', verifierIv = js ''aXY=''\<rparr>"

theorem server_no_false_conflict_witness:
  "\<exists>w'. server_saveMeta memory_api None sample_meta empty_browser = (Inr (), w') \<and>
        server_version None w' = stored_version (server w') \<and>
        (\<forall>d. fst (server_saveData memory_api None d w') \<noteq> Inl CONFLICT)"
proof -
  obtain w' where w: "server_saveMeta memory_api None sample_meta empty_browser = (Inr (), w')"
    by (simp add: server_saveMeta_def memory_defs empty_browser_def call_def accept_write_def track_def io_simps Let_def)
  then show ?thesis using server_no_false_conflict [OF memory_api_versions, of None empty_browser w'] by blast
qed

section \<open>Migration keeps the vault\<close>

text \<open>
  \<open>api_stores api view\<close> is the storage the API documents: \<open>view\<close> is the stored vault, an
  accepted write replaces its own part, an accepted read returns the three parts and changes nothing.
\<close>

definition same_parts :: "vault_response \<Rightarrow> vault_response \<Rightarrow> bool" where
  "same_parts a b \<longleftrightarrow> vmeta a = vmeta b \<and> vdata a = vdata b \<and> vsettings a = vsettings b"

definition api_stores :: "'s vault_api \<Rightarrow> ('s \<Rightarrow> vault_response) \<Rightarrow> bool" where
  "api_stores api view \<longleftrightarrow>
     (\<forall>s r s'. getVault api s = (r, s') \<longrightarrow> same_parts (view s') (view s)) \<and>
     (\<forall>s r s' v. getVault api s = (r, s') \<longrightarrow> accepted r \<longrightarrow> rdata r = Some v \<longrightarrow> same_parts v (view s)) \<and>
     (\<forall>s r s'. getVault api s = (r, s') \<longrightarrow> rstatus r = Some 404 \<longrightarrow>
        vmeta (view s) = None \<and> vdata (view s) = None \<and> vsettings (view s) = None) \<and>
     (\<forall>t s r s'. saveVaultMeta api t s = (r, s') \<longrightarrow> accepted r \<longrightarrow>
        same_parts (view s') ((view s)\<lparr>vmeta := Some t\<rparr>)) \<and>
     (\<forall>t n s r s'. saveVaultData api t n s = (r, s') \<longrightarrow> accepted r \<longrightarrow>
        same_parts (view s') ((view s)\<lparr>vdata := Some t\<rparr>)) \<and>
     (\<forall>t s r s'. saveVaultSettings api t s = (r, s') \<longrightarrow> accepted r \<longrightarrow>
        same_parts (view s') ((view s)\<lparr>vsettings := Some t\<rparr>)) \<and>
     (\<forall>s r s'. deleteVault api s = (r, s') \<longrightarrow> \<not> rerror r \<or> rstatus r = Some 404 \<longrightarrow>
        vmeta (view s') = None \<and> vdata (view s') = None \<and> vsettings (view s') = None)"

lemma api_storesD:
  assumes "api_stores api view"
  shows "getVault api s = (r, s') \<Longrightarrow> same_parts (view s') (view s)"
    and "getVault api s = (r, s') \<Longrightarrow> accepted r \<Longrightarrow> rdata r = Some v \<Longrightarrow> same_parts v (view s)"
    and "saveVaultMeta api t s = (r, s') \<Longrightarrow> accepted r \<Longrightarrow> same_parts (view s') ((view s)\<lparr>vmeta := Some t\<rparr>)"
    and "saveVaultData api t n s = (r, s') \<Longrightarrow> accepted r \<Longrightarrow> same_parts (view s') ((view s)\<lparr>vdata := Some t\<rparr>)"
    and "saveVaultSettings api t s = (r, s') \<Longrightarrow> accepted r \<Longrightarrow> same_parts (view s') ((view s)\<lparr>vsettings := Some t\<rparr>)"
    and "deleteVault api s = (r, s') \<Longrightarrow> \<not> rerror r \<or> rstatus r = Some 404 \<Longrightarrow>
        vmeta (view s') = None \<and> vdata (view s') = None \<and> vsettings (view s') = None"
    and "getVault api s = (r, s') \<Longrightarrow> rstatus r = Some 404 \<Longrightarrow>
        vmeta (view s) = None \<and> vdata (view s) = None \<and> vsettings (view s) = None"
  using assms [unfolded api_stores_def] by (elim conjE; metis)+

lemma server_clear_ok:
  assumes "server_clear api sc w = (Inr (), w')"
  shows "localStorage w' = localStorage w \<and>
    (\<exists>r. deleteVault api (server w) = (r, server w') \<and> (\<not> rerror r \<or> rstatus r = Some 404))"
  using assms
  by (auto simp: server_clear_def bind_ok seq_ok call_def Let_def modify_def statusOf_def ret_def throw_def
      split: prod.splits if_splits option.splits)

lemma keeps_call [intro, simp]: "keeps localStorage (call f)"
  by (simp add: keeps_def call_def Let_def split: prod.splits)

lemma keeps_statusOf [intro, simp]: "keeps f (statusOf r)"
  by (simp add: statusOf_def split: option.splits)

lemma keeps_track [intro, simp]: "keeps localStorage (track sc v)"
  by (auto simp: track_def split: option.splits)

lemma keeps_accept [intro, simp]: "keeps localStorage (accept_write sc e r)"
  by (simp add: accept_write_def split: option.splits)

lemma keeps_server_ops [intro, simp]:
  "keeps localStorage (server_fetch api sc)"
  "keeps localStorage (server_loadMeta api sc)" "keeps localStorage (server_saveMeta api sc m)"
  "keeps localStorage (server_loadData api sc)" "keeps localStorage (server_saveData api sc d)"
  "keeps localStorage (server_loadSettings api sc)" "keeps localStorage (server_saveSettings api sc s)"
  "keeps localStorage (server_clear api sc)"
proof -
  show f: "keeps localStorage (server_fetch api sc)"
    unfolding server_fetch_def by (intro keeps_bind) (auto split: option.splits)
  show "keeps localStorage (server_loadMeta api sc)" "keeps localStorage (server_loadData api sc)"
    "keeps localStorage (server_loadSettings api sc)"
    using f by (auto simp: server_loadMeta_def server_loadData_def server_loadSettings_def)
  show "keeps localStorage (server_saveMeta api sc m)" "keeps localStorage (server_saveSettings api sc s)"
    by (auto simp: server_saveMeta_def server_saveSettings_def)
  show "keeps localStorage (server_saveData api sc d)"
    unfolding server_saveData_def using f by (intro keeps_bind) auto
  show "keeps localStorage (server_clear api sc)"
    unfolding server_clear_def by (intro keeps_bind keeps_seq) auto
qed

definition upload :: "'s vault_api \<Rightarrow> scope \<Rightarrow> vault_meta \<Rightarrow> vault_data option \<Rightarrow> vault_settings
    \<Rightarrow> (('s, 'z) browser_scheme, unit) io" where
  "upload api sc meta d s =
     seq (server_clear api sc) (seq (server_saveMeta api sc meta)
       (seq (case d of None \<Rightarrow> ret () | Some x \<Rightarrow> server_saveData api sc x) (server_saveSettings api sc s)))"

lemma keeps_upload [intro, simp]: "keeps localStorage (upload api sc m d s)"
  unfolding upload_def by (intro keeps_seq) (auto split: option.splits)

lemma upload_stores:
  assumes api: "api_stores api view" and ok: "upload api sc m d s w = (Inr (), w')"
  shows "vmeta (view (server w')) = Some (stringify (meta_json m)) \<and>
         vdata (view (server w')) = map_option (stringify \<circ> data_json) d \<and>
         vsettings (view (server w')) = Some (stringify (settings_json s))"
proof -
  obtain w1 w2 w3 where c: "server_clear api sc w = (Inr (), w1)"
    and m: "server_saveMeta api sc m w1 = (Inr (), w2)"
    and d: "(case d of None \<Rightarrow> ret () | Some x \<Rightarrow> server_saveData api sc x) w2 = (Inr (), w3)"
    and s: "server_saveSettings api sc s w3 = (Inr (), w')"
    using ok by (auto simp: upload_def seq_ok)
  have v1: "vdata (view (server w1)) = None"
    using server_clear_ok [OF c] api_storesD(6) [OF api] by metis
  have v2: "same_parts (view (server w2)) ((view (server w1))\<lparr>vmeta := Some (stringify (meta_json m))\<rparr>)"
    using bind_call_accept [OF m [unfolded server_saveMeta_def]] api_storesD(3) [OF api] by metis
  have v3: "same_parts (view (server w3)) (case d of None \<Rightarrow> view (server w2)
      | Some x \<Rightarrow> (view (server w2))\<lparr>vdata := Some (stringify (data_json x))\<rparr>)"
  proof (cases d)
    case (Some x)
    then have "server_saveData api sc x w2 = (Inr (), w3)" using d by simp
    then show ?thesis
      using Some bind_call_accept [OF server_saveData_ok] api_storesD(4) [OF api] by (metis option.simps(5))
  qed (use d in \<open>simp add: ret_def same_parts_def\<close>)
  have v4: "same_parts (view (server w')) ((view (server w3))\<lparr>vsettings := Some (stringify (settings_json s))\<rparr>)"
    using bind_call_accept [OF s [unfolded server_saveSettings_def]] api_storesD(5) [OF api] by metis
  show ?thesis using v1 v2 v3 v4 by (cases d) (auto simp: same_parts_def)
qed

lemma migrateLocalToServer_unfold:
  "migrateLocalToServer q api sc w = (case local_meta sc w of
      None \<Rightarrow> (Inl (JsError (js ''No local vault to migrate.'')), w)
    | Some m \<Rightarrow> seq (upload api sc m (local_data sc w) (local_settings sc w))
                 (seq (local_clear sc) (setVaultStorageMode q Server sc)) w)"
  by (simp add: migrateLocalToServer_def local_loadMeta_def local_loadData_def local_loadSettings_def
      local_views upload_def seq_assoc bind_def gets_def throw_def split: option.splits)

lemma setVaultStorageMode_ok:
  "setVaultStorageMode q mode sc w = (Inr (), w') \<Longrightarrow> getVaultStorageMode True sc w' = mode"
  by (cases mode) (auto simp: setVaultStorageMode_def setItem_def getVaultStorageMode_def js_def
      split: set_result.splits)

lemma setVaultStorageMode_frame:
  "setVaultStorageMode q mode sc w = (r, w') \<Longrightarrow>
     local_meta sc' w' = local_meta sc' w \<and> local_data sc' w' = local_data sc' w \<and>
     local_settings sc' w' = local_settings sc' w \<and> server w' = server w"
  by (auto simp: setVaultStorageMode_def setItem_def local_views prefixKey_distinct [symmetric]
      split: set_result.splits)

text \<open>
  C4: Moving the vault to the server never loses it. Whatever the server answers, either the browser's
  storage is exactly as before and the migration reports an error, or the server holds the metadata,
  the data and the settings the browser had and the local copy is gone; and a migration that
  reports success has switched the storage mode.
\<close>

theorem migrateLocalToServer_safe:
  assumes "api_stores api view" and "migrateLocalToServer q api sc w = (r, w')"
  shows "((\<exists>e. r = Inl e) \<and> localStorage w' = localStorage w \<or>
     (\<exists>m. local_meta sc w = Some m \<and>
       vmeta (view (server w')) = Some (stringify (meta_json m)) \<and>
       vdata (view (server w')) = map_option (stringify \<circ> data_json) (local_data sc w) \<and>
       vsettings (view (server w')) = Some (stringify (settings_json (local_settings sc w))) \<and>
       local_meta sc w' = None \<and> local_data sc w' = None)) \<and>
    (r = Inr () \<longrightarrow> getVaultStorageMode True sc w' = Server)"
proof (cases "local_meta sc w")
  case None
  then show ?thesis using assms(2) by (auto simp: migrateLocalToServer_unfold)
next
  case (Some m)
  let ?u = "upload api sc m (local_data sc w) (local_settings sc w)"
  obtain ru w1 where u: "?u w = (ru, w1)" by fastforce
  show ?thesis
  proof (cases ru)
    case (Inl e)
    then show ?thesis using assms(2) Some u keepsD [OF keeps_upload u]
      by (auto simp: migrateLocalToServer_unfold seq_def bind_def)
  next
    case (Inr x)
    obtain rc w2 where c: "local_clear sc w1 = (rc, w2)" by fastforce
    have s2: "server w2 = server w1" using c by (auto simp: local_clear_def modify_def removeItem_def)
    have m: "setVaultStorageMode q Server sc w2 = (r, w')"
      using assms(2) Some u Inr c local.clear_law [OF c]
      by (auto simp: migrateLocalToServer_unfold seq_def bind_def)
    show ?thesis
      using Some upload_stores [OF assms(1) u [unfolded Inr unit_eq [of x]]] local.clear_law [OF c]
        setVaultStorageMode_frame [OF m] setVaultStorageMode_ok [of q Server sc w2 w'] m s2 by auto
  qed
qed

definition stored_view :: "vault_response option \<Rightarrow> vault_response" where
  "stored_view s = (case s of None \<Rightarrow> \<lparr>vmeta = None, vdata = None, vsettings = None, vversion = None\<rparr> | Some v \<Rightarrow> v)"

lemma memory_api_stores: "api_stores memory_api stored_view"
  by (auto simp: api_stores_def memory_defs accepted_def stored_view_def same_parts_def Let_def
      split: option.splits if_splits)

definition accepting :: quota where
  "accepting st k v = Accepted"

definition browser_with_vault :: "vault_response option browser" where
  "browser_with_vault = empty_browser\<lparr>localStorage :=
     [prefixKey VAULT_META_KEY None \<mapsto> stringify (meta_json sample_meta)]\<rparr>"

lemma sample_meta_valid [simp]: "valid_meta sample_meta"
  by (simp add: valid_meta_def sample_meta_def)

lemma browser_with_vault_meta: "local_meta None browser_with_vault = Some sample_meta"
  by (simp add: local_meta_def browser_with_vault_def parseVaultMeta_written scope_prefix_def)

theorem migrateLocalToServer_safe_witness:
  "\<exists>w'. migrateLocalToServer accepting memory_api None browser_with_vault = (Inr (), w') \<and>
        vmeta (stored_view (server w')) = Some (stringify (meta_json sample_meta)) \<and>
        getVaultStorageMode True None w' = Server"
proof -
  have "\<exists>w'. migrateLocalToServer accepting memory_api None browser_with_vault = (Inr (), w')"
    using browser_with_vault_meta
    by (auto simp: migrateLocalToServer_unfold upload_def local_data_def browser_with_vault_def empty_browser_def
        server_clear_def server_saveMeta_def server_saveSettings_def memory_defs accept_write_def call_def
        statusOf_def track_def local_clear_def removeItem_def setVaultStorageMode_def setItem_def accepting_def
        io_simps Let_def)
  then obtain w' where w: "migrateLocalToServer accepting memory_api None browser_with_vault = (Inr (), w')" ..
  then show ?thesis
    using migrateLocalToServer_safe [OF memory_api_stores w] browser_with_vault_meta by auto
qed

lemma server_fetch_view:
  assumes api: "api_stores api view" and f: "server_fetch api sc w = (r, w')"
  shows "same_parts (view (server w')) (view (server w)) \<and>
    (\<forall>v. r = Inr v \<longrightarrow> Option.bind v vmeta = vmeta (view (server w)) \<and>
       Option.bind v vdata = vdata (view (server w)) \<and> Option.bind v vsettings = vsettings (view (server w)))"
proof -
  obtain g s1 where g: "getVault api (server w) = (g, s1)" by fastforce
  have s1: "server w' = s1" and
    r: "r = Inr v \<Longrightarrow> (v = None \<and> rstatus g = Some 404) \<or> (accepted g \<and> v = rdata g)" for v
    using f g by (auto simp: server_fetch_def call_def statusOf_def accepted_def track_def io_simps Let_def
        split: option.splits if_splits)
  show ?thesis
  proof (intro conjI allI impI)
    show "same_parts (view (server w')) (view (server w))" using api_storesD(1) [OF api g] s1 by simp
  next
    fix v assume "r = Inr v"
    then consider "v = None" "rstatus g = Some 404" | x where "accepted g" "v = Some x" "rdata g = Some x"
      using r by (metis accepted_def option.exhaust)
    then have "Option.bind v vmeta = vmeta (view (server w)) \<and> Option.bind v vdata = vdata (view (server w)) \<and>
        Option.bind v vsettings = vsettings (view (server w))"
    proof cases
      case 1
      then show ?thesis using api_storesD(7) [OF api g] by simp
    next
      case 2
      then show ?thesis using api_storesD(2) [OF api g] by (simp add: same_parts_def)
    qed
    then show "Option.bind v vmeta = vmeta (view (server w))" "Option.bind v vdata = vdata (view (server w))"
      "Option.bind v vsettings = vsettings (view (server w))" by auto
  qed
qed

definition download :: "quota \<Rightarrow> scope \<Rightarrow> vault_meta \<Rightarrow> vault_data option \<Rightarrow> vault_settings
    \<Rightarrow> (('s, 'z) browser_scheme, unit) io" where
  "download q sc meta d s = seq (local_saveMeta q sc meta)
     (seq (case d of None \<Rightarrow> ret () | Some x \<Rightarrow> local_saveData q sc x) (local_saveSettings q sc s))"

lemma keeps_server_local_writes [intro, simp]:
  "keeps server (local_saveMeta q sc m)" "keeps server (local_saveData q sc d)"
  "keeps server (local_saveSettings q sc s)" "keeps server (setVaultStorageMode q mode sc)"
  by (auto simp: keeps_def local_writes settle.simps io_simps safeSetItem_def setItem_def setVaultStorageMode_def
      split: set_result.splits exn.splits)

lemma keeps_download [intro, simp]: "keeps server (download q sc m d s)"
  unfolding download_def by (intro keeps_seq) (auto split: option.splits)

lemma download_stores:
  assumes "download q sc m d s w = (Inr (), w')"
  shows "localStorage w' (prefixKey VAULT_META_KEY (scope_prefix sc)) = Some (stringify (meta_json m)) \<and>
         (\<forall>x. d = Some x \<longrightarrow>
            localStorage w' (prefixKey VAULT_DATA_KEY (scope_prefix sc)) = Some (stringify (data_json x)))"
  using assms
  by (cases d) (auto simp: download_def seq_ok ret_def local_writes dest!: local_write_ok)

lemma migrateServerToLocal_unfold:
  "migrateServerToLocal q api sc =
     bind (server_loadMeta api sc) (\<lambda>m. case m of
       None \<Rightarrow> throw (JsError (js ''No synced vault to migrate.''))
     | Some meta \<Rightarrow> bind (server_loadData api sc) (\<lambda>d. bind (server_loadSettings api sc) (\<lambda>s.
         seq (download q sc meta d s) (seq (server_clear api sc) (setVaultStorageMode q Local sc)))))"
  by (simp add: migrateServerToLocal_def download_def seq_assoc cong: option.case_cong)

lemma server_loads_view:
  assumes "api_stores api view"
  shows "server_loadMeta api sc w = (r, w') \<Longrightarrow> same_parts (view (server w')) (view (server w)) \<and>
      (\<forall>m. r = Inr m \<longrightarrow> m = parseVaultMeta (vmeta (view (server w))))"
    and "server_loadData api sc w = (rd, w') \<Longrightarrow> same_parts (view (server w')) (view (server w)) \<and>
      (\<forall>d. rd = Inr d \<longrightarrow> d = parseVaultData (vdata (view (server w))))"
    and "server_loadSettings api sc w = (rs, w') \<Longrightarrow> same_parts (view (server w')) (view (server w))"
  by (auto simp: server_loadMeta_def server_loadData_def server_loadSettings_def bind_def catch_def ret_def
      split: prod.splits sum.splits dest!: server_fetch_view [OF assms])

lemma setMode_keeps_storage:
  "setVaultStorageMode q mode sc w = (r, w') \<Longrightarrow>
     localStorage w' (prefixKey VAULT_META_KEY p) = localStorage w (prefixKey VAULT_META_KEY p) \<and>
     localStorage w' (prefixKey VAULT_DATA_KEY p) = localStorage w (prefixKey VAULT_DATA_KEY p)"
  by (auto simp: setVaultStorageMode_def setItem_def prefixKey_distinct [symmetric] split: set_result.splits)

text \<open>
  C12: Moving the vault back to the browser never loses it. Whatever fails on the way, either the server's
  vault is unchanged and an error is reported, or the browser's storage holds the metadata and the data the
  server had: the server's copy is deleted only after every local write succeeded.
\<close>

theorem migrateServerToLocal_safe:
  assumes api: "api_stores api view" and run: "migrateServerToLocal q api sc w = (r, w')"
  shows "(\<exists>e. r = Inl e) \<and> same_parts (view (server w')) (view (server w)) \<or>
    (\<exists>m. parseVaultMeta (vmeta (view (server w))) = Some m \<and>
       localStorage w' (prefixKey VAULT_META_KEY (scope_prefix sc)) = Some (stringify (meta_json m)) \<and>
       (\<forall>d. parseVaultData (vdata (view (server w))) = Some d \<longrightarrow>
          localStorage w' (prefixKey VAULT_DATA_KEY (scope_prefix sc)) = Some (stringify (data_json d))))"
proof -
  obtain r1 w1 where m: "server_loadMeta api sc w = (r1, w1)" by fastforce
  obtain r2 w2 where d: "server_loadData api sc w1 = (r2, w2)" by fastforce
  obtain r3 w3 where s: "server_loadSettings api sc w2 = (r3, w3)" by fastforce
  note v1 = server_loads_view(1) [OF api m] and v2 = server_loads_view(2) [OF api d]
    and v3 = server_loads_view(3) [OF api s]
  have sp: "same_parts (view (server w2)) (view (server w))" "same_parts (view (server w3)) (view (server w))"
    using v1 v2 v3 by (auto simp: same_parts_def)
  consider (early) "(\<exists>e. r = Inl e) \<and> (w' = w1 \<or> w' = w2 \<or> w' = w3)"
    | (go) meta dat st where "r1 = Inr (Some meta)" "r2 = Inr dat" "r3 = Inr st"
        "seq (download q sc meta dat st) (seq (server_clear api sc) (setVaultStorageMode q Local sc)) w3 = (r, w')"
    using run m d s
    by (auto simp: migrateServerToLocal_unfold bind_def throw_def split: sum.splits option.splits)
  then show ?thesis
  proof cases
    case early
    then show ?thesis using sp v1 by auto
  next
    case go
    obtain ru w4 where u: "download q sc meta dat st w3 = (ru, w4)" by fastforce
    show ?thesis
    proof (cases ru)
      case (Inl e)
      then show ?thesis using go(4) u sp keepsD [OF keeps_download u]
        by (auto simp: seq_def bind_def)
    next
      case (Inr x)
      obtain rc w5 where c: "server_clear api sc w4 = (rc, w5)" by fastforce
      have ls: "localStorage w5 = localStorage w4" by (rule keepsD [OF keeps_server_ops(8) c])
      have same: "localStorage w' (prefixKey VAULT_META_KEY p) = localStorage w4 (prefixKey VAULT_META_KEY p) \<and>
          localStorage w' (prefixKey VAULT_DATA_KEY p) = localStorage w4 (prefixKey VAULT_DATA_KEY p)" for p
        using go(4) u Inr c ls setMode_keeps_storage [of q Local sc w5 r w']
        by (auto simp: seq_def bind_def split: sum.splits)
      have "parseVaultMeta (vmeta (view (server w))) = Some meta"
        "parseVaultData (vdata (view (server w))) = dat"
        using v1 v2 go(1,2) by (simp_all add: same_parts_def)
      then show ?thesis
        using download_stores [OF u [unfolded Inr unit_eq [of x]]] same by auto
    qed
  qed
qed

definition browser_with_synced_vault :: "vault_response option browser" where
  "browser_with_synced_vault = empty_browser\<lparr>server :=
     Some \<lparr>vmeta = Some (stringify (meta_json sample_meta)), vdata = None, vsettings = None, vversion = Some 1\<rparr>\<rparr>"

theorem migrateServerToLocal_safe_witness:
  "\<exists>w'. migrateServerToLocal accepting memory_api None browser_with_synced_vault = (Inr (), w') \<and>
        localStorage w' (prefixKey VAULT_META_KEY None) = Some (stringify (meta_json sample_meta))"
proof -
  let ?w = browser_with_synced_vault
  have p: "parseVaultMeta (vmeta (stored_view (server ?w))) = Some sample_meta"
    by (simp add: browser_with_synced_vault_def stored_view_def parseVaultMeta_written)
  have "\<exists>w'. migrateServerToLocal accepting memory_api None ?w = (Inr (), w')"
    by (auto simp: migrateServerToLocal_unfold download_def browser_with_synced_vault_def empty_browser_def
        server_loadMeta_def server_loadData_def server_loadSettings_def server_fetch_def server_clear_def
        memory_defs call_def statusOf_def track_def local_writes settle.simps safeSetItem_def setItem_def
        setVaultStorageMode_def accepting_def io_simps Let_def parseVaultMeta_written)
  then obtain w' where w: "migrateServerToLocal accepting memory_api None ?w = (Inr (), w')" ..
  then show ?thesis
    using migrateServerToLocal_safe [OF memory_api_stores w] p by (auto simp: scope_prefix_def)
qed

end
