(* ===== verification/ActivityTracker.thy ===== *)
theory ActivityTracker
  imports JsBase
begin

text \<open>
  The activity tracker that drives the automatic lock of the vault
  (\<open>utils/vault-activity-tracker.ts\<close>). Its module variables are the record \<open>tracker\<close>, which
  also holds the browser's pending timers and whether the listeners are installed. The step relation
  \<open>tstep\<close> lets events of the page come in any order the browser allows.
\<close>

section \<open>State\<close>

record tracker_options =
  idleTimeoutMs :: rat
  opt_lockOnHidden :: bool
  hiddenGraceMs :: rat

text \<open>Times are in milliseconds. \<open>timers\<close> are the pending \<open>setTimeout\<close> calls of the module
  with the time each is due.\<close>

record tracker =
  lastResetStamp :: rat
  idleTimer :: "nat option"
  hiddenTimer :: "nat option"
  currentOptions :: "tracker_options option"
  timers :: "(nat \<times> rat) list"
  nextTimer :: nat
  activityListening :: bool
  visibilityListening :: bool

definition THROTTLE_MS :: rat where
  "THROTTLE_MS = 1000"

definition initial_tracker :: tracker where
  "initial_tracker = \<lparr>lastResetStamp = 0, idleTimer = None, hiddenTimer = None, currentOptions = None,
     timers = [], nextTimer = 1, activityListening = False, visibilityListening = False\<rparr>"

definition setTimeout :: "rat \<Rightarrow> rat \<Rightarrow> tracker \<Rightarrow> nat \<times> tracker" where
  "setTimeout now ms t =
     (nextTimer t, t\<lparr>timers := timers t @ [(nextTimer t, now + ms)], nextTimer := Suc (nextTimer t)\<rparr>)"

definition clearTimeout :: "nat \<Rightarrow> tracker \<Rightarrow> tracker" where
  "clearTimeout i t = t\<lparr>timers := filter (\<lambda>x. fst x \<noteq> i) (timers t)\<rparr>"

section \<open>Operations\<close>

definition fireIdle :: "(tracker \<Rightarrow> tracker) \<Rightarrow> tracker \<Rightarrow> tracker" where
  "fireIdle onIdle t = (case currentOptions t of None \<Rightarrow> t | Some _ \<Rightarrow> onIdle t)"

definition clearIdleTimer :: "tracker \<Rightarrow> tracker" where
  "clearIdleTimer t = (case idleTimer t of None \<Rightarrow> t | Some i \<Rightarrow> (clearTimeout i t)\<lparr>idleTimer := None\<rparr>)"

definition clearHiddenTimer :: "tracker \<Rightarrow> tracker" where
  "clearHiddenTimer t =
     (case hiddenTimer t of None \<Rightarrow> t | Some i \<Rightarrow> (clearTimeout i t)\<lparr>hiddenTimer := None\<rparr>)"

definition armIdleTimer :: "rat \<Rightarrow> tracker \<Rightarrow> tracker" where
  "armIdleTimer now t = (case currentOptions t of
      None \<Rightarrow> t
    | Some opts \<Rightarrow>
        if idleTimeoutMs opts = 0 then t
        else let (i, t') = setTimeout now (idleTimeoutMs opts) (clearIdleTimer t)
             in t'\<lparr>idleTimer := Some i\<rparr>)"

definition reset :: "rat \<Rightarrow> tracker \<Rightarrow> tracker" where
  "reset now t = armIdleTimer now t"

definition onActivity :: "rat \<Rightarrow> tracker \<Rightarrow> tracker" where
  "onActivity now t =
     (if now - lastResetStamp t < THROTTLE_MS then t else reset now (t\<lparr>lastResetStamp := now\<rparr>))"

definition onDocumentHidden :: "rat \<Rightarrow> tracker \<Rightarrow> tracker" where
  "onDocumentHidden now t = (case currentOptions t of
      None \<Rightarrow> t
    | Some opts \<Rightarrow> let (i, t') = setTimeout now (hiddenGraceMs opts) t in t'\<lparr>hiddenTimer := Some i\<rparr>)"

definition onDocumentVisible :: "tracker \<Rightarrow> tracker" where
  "onDocumentVisible t = clearHiddenTimer t"

definition onVisibilityChange :: "bool \<Rightarrow> rat \<Rightarrow> tracker \<Rightarrow> tracker" where
  "onVisibilityChange hidden now t = (if hidden then onDocumentHidden now t else onDocumentVisible t)"

definition stop :: "tracker \<Rightarrow> tracker" where
  "stop t = (clearHiddenTimer (clearIdleTimer t))
     \<lparr>activityListening := False, visibilityListening := False, currentOptions := None, lastResetStamp := 0\<rparr>"

definition start :: "rat \<Rightarrow> tracker_options \<Rightarrow> tracker \<Rightarrow> tracker" where
  "start now opts t =
     (let t1 = (stop t)\<lparr>currentOptions := Some opts, activityListening := True\<rparr>;
          t2 = (if opt_lockOnHidden opts then t1\<lparr>visibilityListening := True\<rparr> else t1)
      in armIdleTimer now t2)"

section \<open>The page\<close>

text \<open>
  \<open>lastEvent\<close> is the time of the last start, reset or activity event: it is not a variable of the code,
  it only states what the timers promise. \<open>onIdle\<close> either does nothing or stops the tracker
  (\<open>startTracker\<close> of the vault store).
\<close>

record page =
  trk :: tracker
  hidden :: bool
  clock :: rat
  lastEvent :: rat

inductive tstep :: "page \<Rightarrow> page \<Rightarrow> bool" where
  tick: "clock p \<le> now \<Longrightarrow> tstep p (p\<lparr>clock := now\<rparr>)"
| start_call: "0 \<le> idleTimeoutMs opts \<Longrightarrow>
    tstep p (p\<lparr>trk := start (clock p) opts (trk p), lastEvent := clock p\<rparr>)"
| stop_call: "tstep p (p\<lparr>trk := stop (trk p)\<rparr>)"
| reset_call: "tstep p (p\<lparr>trk := reset (clock p) (trk p), lastEvent := clock p\<rparr>)"
| activity: "activityListening (trk p) \<Longrightarrow>
    tstep p (p\<lparr>trk := onActivity (clock p) (trk p), lastEvent := clock p\<rparr>)"
| visibility: "h = (\<not> hidden p) \<Longrightarrow>
    tstep p (p\<lparr>hidden := h, trk := (if visibilityListening (trk p)
                                  then onVisibilityChange h (clock p) (trk p) else trk p)\<rparr>)"
| fire: "(i, due) \<in> set (timers (trk p)) \<Longrightarrow> due \<le> clock p \<Longrightarrow> onIdle = id \<or> onIdle = stop \<Longrightarrow>
    tstep p (p\<lparr>trk := fireIdle onIdle (clearTimeout i (trk p))\<rparr>)"

inductive treach :: "page \<Rightarrow> bool" where
  initial: "0 \<le> now \<Longrightarrow>
    treach \<lparr>trk = initial_tracker, hidden = h, clock = now, lastEvent = now\<rparr>"
| step: "treach p \<Longrightarrow> tstep p p' \<Longrightarrow> treach p'"

inductive_cases tstepE: "tstep p p'"

section \<open>Invariant\<close>

lemmas tracker_ops = clearTimeout_def setTimeout_def clearIdleTimer_def clearHiddenTimer_def Let_def

definition timers_owned :: "tracker \<Rightarrow> bool" where
  "timers_owned t \<longleftrightarrow>
     (\<forall>(i, due) \<in> set (timers t). (idleTimer t = Some i \<or> hiddenTimer t = Some i) \<and> i < nextTimer t) \<and>
     (\<forall>i. idleTimer t = Some i \<longrightarrow> i < nextTimer t) \<and> (\<forall>i. hiddenTimer t = Some i \<longrightarrow> i < nextTimer t) \<and>
     (idleTimer t \<noteq> None \<longrightarrow> idleTimer t \<noteq> hiddenTimer t) \<and>
     distinct (map fst (timers t)) \<and>
     (currentOptions t = None \<longrightarrow> idleTimer t = None \<and> hiddenTimer t = None \<and>
        \<not> activityListening t \<and> \<not> visibilityListening t) \<and>
     (\<not> visibilityListening t \<longrightarrow> hiddenTimer t = None)"

definition idle_in_time :: "rat \<Rightarrow> tracker \<Rightarrow> bool" where
  "idle_in_time ev t \<longleftrightarrow> (\<forall>opts i due. currentOptions t = Some opts \<longrightarrow> idleTimer t = Some i \<longrightarrow>
     (i, due) \<in> set (timers t) \<longrightarrow>
     lastResetStamp t \<le> due - idleTimeoutMs opts \<and>
     due - idleTimeoutMs opts \<le> ev \<and> ev - THROTTLE_MS < due - idleTimeoutMs opts)"

definition page_inv :: "page \<Rightarrow> bool" where
  "page_inv p \<longleftrightarrow> timers_owned (trk p) \<and> idle_in_time (lastEvent p) (trk p) \<and>
     0 \<le> clock p \<and> lastEvent p \<le> clock p \<and> 0 \<le> lastResetStamp (trk p) \<and>
     lastResetStamp (trk p) \<le> clock p \<and>
     (\<not> hidden p \<longrightarrow> hiddenTimer (trk p) = None)"

lemma owned_clearIdle [intro]: "timers_owned t \<Longrightarrow> timers_owned (clearIdleTimer t)"
  by (auto simp: timers_owned_def tracker_ops distinct_map_filter split: option.splits)

lemma owned_clearHidden [intro]: "timers_owned t \<Longrightarrow> timers_owned (clearHiddenTimer t)"
  by (auto simp: timers_owned_def tracker_ops distinct_map_filter split: option.splits)

lemma clear_fields [simp]:
  "idleTimer (clearIdleTimer t) = None" "hiddenTimer (clearIdleTimer t) = hiddenTimer t"
  "hiddenTimer (clearHiddenTimer t) = None" "idleTimer (clearHiddenTimer t) = idleTimer t"
  "currentOptions (clearIdleTimer t) = currentOptions t" "currentOptions (clearHiddenTimer t) = currentOptions t"
  "lastResetStamp (clearIdleTimer t) = lastResetStamp t" "lastResetStamp (clearHiddenTimer t) = lastResetStamp t"
  "activityListening (clearIdleTimer t) = activityListening t"
  "visibilityListening (clearIdleTimer t) = visibilityListening t"
  "activityListening (clearHiddenTimer t) = activityListening t"
  "visibilityListening (clearHiddenTimer t) = visibilityListening t"
  by (auto simp: tracker_ops split: option.splits)

lemma owned_no_timers: "timers_owned t \<Longrightarrow> idleTimer t = None \<Longrightarrow> hiddenTimer t = None \<Longrightarrow> timers t = []"
  by (cases "timers t") (auto simp: timers_owned_def)

lemma stop_timers: "timers_owned t \<Longrightarrow> timers (stop t) = []"
  unfolding stop_def by (simp add: owned_no_timers owned_clearIdle owned_clearHidden)

lemma stop_fields [simp]:
  "idleTimer (stop t) = None" "hiddenTimer (stop t) = None" "currentOptions (stop t) = None"
  "lastResetStamp (stop t) = 0" "\<not> activityListening (stop t)" "\<not> visibilityListening (stop t)"
  by (simp_all add: stop_def)

lemma owned_stop [intro]: "timers_owned t \<Longrightarrow> timers_owned (stop t)"
  using stop_timers [of t] by (simp add: timers_owned_def)

lemma clearIdle_timers:
  "timers_owned t \<Longrightarrow> x \<in> set (timers (clearIdleTimer t)) \<Longrightarrow> hiddenTimer t = Some (fst x)"
  using owned_clearIdle [of t] by (cases x) (auto simp: timers_owned_def)

lemma owned_new_idle:
  assumes "timers_owned t" "idleTimer t = None" "currentOptions t \<noteq> None"
  shows "timers_owned (t\<lparr>timers := timers t @ [(nextTimer t, due)], nextTimer := Suc (nextTimer t),
           idleTimer := Some (nextTimer t)\<rparr>)"
  using assms unfolding timers_owned_def by (fastforce simp: less_Suc_eq)

lemma owned_arm [intro]:
  assumes "timers_owned t" "currentOptions t \<noteq> None"
  shows "timers_owned (armIdleTimer now t)"
  using assms owned_new_idle [OF owned_clearIdle [OF assms(1)]]
  by (auto simp: armIdleTimer_def setTimeout_def split: option.splits)

lemma arm_fields [simp]:
  "hiddenTimer (armIdleTimer now t) = hiddenTimer t" "currentOptions (armIdleTimer now t) = currentOptions t"
  "lastResetStamp (armIdleTimer now t) = lastResetStamp t"
  "activityListening (armIdleTimer now t) = activityListening t"
  "visibilityListening (armIdleTimer now t) = visibilityListening t"
  by (auto simp: armIdleTimer_def setTimeout_def Let_def split: option.splits)

lemma arm_None [simp]: "currentOptions t = None \<Longrightarrow> armIdleTimer now t = t"
  by (simp add: armIdleTimer_def)

text \<open>What arming promises: the new idle timer is the only one, due after the full timeout.\<close>

lemma arm_due:
  assumes "timers_owned t" "currentOptions t = Some opts" "idleTimeoutMs opts \<noteq> 0"
  shows "\<exists>i. idleTimer (armIdleTimer now t) = Some i \<and>
     (\<forall>due. (i, due) \<in> set (timers (armIdleTimer now t)) \<longleftrightarrow> due = now + idleTimeoutMs opts)"
  using assms clearIdle_timers [OF assms(1)] owned_clearIdle [OF assms(1)]
  by (fastforce simp: armIdleTimer_def setTimeout_def timers_owned_def)

lemma in_time_arm:
  assumes "timers_owned t" "lastResetStamp t \<le> now"
    and "\<And>opts. currentOptions t = Some opts \<Longrightarrow> idleTimeoutMs opts = 0 \<Longrightarrow> idle_in_time now t"
  shows "idle_in_time now (armIdleTimer now t)"
proof (cases "currentOptions t")
  case (Some opts)
  show ?thesis
  proof (cases "idleTimeoutMs opts = 0")
    case True
    then show ?thesis using assms(3) [OF Some] Some by (simp add: armIdleTimer_def)
  next
    case False
    then show ?thesis
      using arm_due [OF assms(1) Some False, of now] Some assms(2)
      by (auto simp: idle_in_time_def THROTTLE_MS_def)
  qed
qed (simp add: idle_in_time_def)

text \<open>With a timeout of 0 no idle timer is ever pending.\<close>

definition idle_off :: "tracker \<Rightarrow> bool" where
  "idle_off t \<longleftrightarrow> (\<forall>opts. currentOptions t = Some opts \<longrightarrow> idleTimeoutMs opts = 0 \<longrightarrow> idleTimer t = None)"

lemma idle_off_in_time: "idle_off t \<Longrightarrow> currentOptions t = Some opts \<Longrightarrow> idleTimeoutMs opts = 0 \<Longrightarrow> idle_in_time ev t"
  by (simp add: idle_off_def idle_in_time_def)

lemma idle_off_ops [intro]:
  "idle_off t \<Longrightarrow> idle_off (armIdleTimer now t)" "idle_off (stop t)"
  "idle_off t \<Longrightarrow> idle_off (t\<lparr>lastResetStamp := x\<rparr>)" "idle_off t \<Longrightarrow> idle_off (clearTimeout i t)"
  "idle_off t \<Longrightarrow> idle_off (clearHiddenTimer t)" "idle_off t \<Longrightarrow> idle_off (onDocumentHidden now t)"
  by (auto simp: idle_off_def armIdleTimer_def onDocumentHidden_def setTimeout_def clearTimeout_def
      clearHiddenTimer_def Let_def split: option.splits if_splits)

lemma owned_hidden:
  assumes "timers_owned t" "hiddenTimer t = None" "visibilityListening t"
  shows "timers_owned (onDocumentHidden now t)"
  using assms by (auto simp: timers_owned_def onDocumentHidden_def setTimeout_def split: option.splits)

lemma owned_clearTimeout: "timers_owned t \<Longrightarrow> timers_owned (clearTimeout i t)"
  by (auto simp: timers_owned_def clearTimeout_def distinct_map_filter)

lemma owned_start: "timers_owned t \<Longrightarrow> timers_owned (start now opts t)"
  unfolding start_def Let_def
  by (rule owned_arm) (use owned_stop [of t] stop_timers [of t] in \<open>auto simp: timers_owned_def\<close>)

lemma start_fields [simp]:
  "hiddenTimer (start now opts t) = None" "lastResetStamp (start now opts t) = 0"
  "currentOptions (start now opts t) = Some opts"
  by (simp_all add: start_def Let_def)

lemma idle_off_start [intro]: "idle_off (start now opts t)"
  unfolding start_def Let_def by (rule idle_off_ops) (simp add: idle_off_def)

lemma page_inv_start:
  assumes "page_inv p" shows "page_inv (p\<lparr>trk := start (clock p) opts (trk p), lastEvent := clock p\<rparr>)"
proof -
  have o: "timers_owned (trk p)" and c: "0 \<le> clock p" using assms by (simp_all add: page_inv_def)
  have "idle_in_time (clock p) (start (clock p) opts (trk p))"
    unfolding start_def Let_def
    by (rule in_time_arm) (use c o owned_stop [of "trk p"] stop_timers [of "trk p"] in
        \<open>auto simp: timers_owned_def idle_in_time_def\<close>)
  then show ?thesis using owned_start [OF o] c by (simp add: page_inv_def)
qed

lemma page_inv_reset:
  assumes "page_inv p" "idle_off (trk p)" "timers_owned (trk p\<lparr>lastResetStamp := st\<rparr>)" "0 \<le> st" "st \<le> clock p"
  shows "page_inv (p\<lparr>trk := reset (clock p) (trk p\<lparr>lastResetStamp := st\<rparr>), lastEvent := clock p\<rparr>)"
proof (cases "currentOptions (trk p)")
  case None
  then show ?thesis using assms by (simp add: page_inv_def reset_def idle_in_time_def)
next
  case (Some opts)
  have "idle_in_time (clock p) (armIdleTimer (clock p) (trk p\<lparr>lastResetStamp := st\<rparr>))"
    using assms idle_off_ops(3) [OF assms(2), of st] by (intro in_time_arm idle_off_in_time) auto
  then show ?thesis using assms Some by (auto simp: page_inv_def reset_def)
qed

lemma page_inv_activity:
  assumes "page_inv p" "idle_off (trk p)"
  shows "page_inv (p\<lparr>trk := onActivity (clock p) (trk p), lastEvent := clock p\<rparr>)"
proof (cases "clock p - lastResetStamp (trk p) < THROTTLE_MS")
  case True
  have "idle_in_time (clock p) (trk p)"
    unfolding idle_in_time_def
  proof (intro allI impI)
    fix opts i due
    assume "currentOptions (trk p) = Some opts" "idleTimer (trk p) = Some i" "(i, due) \<in> set (timers (trk p))"
    then have "lastResetStamp (trk p) \<le> due - idleTimeoutMs opts \<and> due - idleTimeoutMs opts \<le> lastEvent p"
      using assms(1) by (auto simp: page_inv_def idle_in_time_def)
    then show "lastResetStamp (trk p) \<le> due - idleTimeoutMs opts \<and> due - idleTimeoutMs opts \<le> clock p \<and>
        clock p - THROTTLE_MS < due - idleTimeoutMs opts"
      using True assms(1) by (auto simp: page_inv_def)
  qed
  then show ?thesis using True assms(1) by (simp add: page_inv_def onActivity_def)
next
  case False
  have o: "timers_owned (trk p\<lparr>lastResetStamp := clock p\<rparr>)"
    using assms(1) by (simp add: page_inv_def timers_owned_def)
  show ?thesis using False page_inv_reset [OF assms o] assms(1)
    by (simp add: onActivity_def page_inv_def)
qed

lemma in_time_clear: "timers_owned t \<Longrightarrow> idle_in_time ev t \<Longrightarrow> idle_in_time ev (clearTimeout i t)"
  by (auto simp: idle_in_time_def clearTimeout_def)

lemma in_time_hidden:
  assumes "timers_owned t" "idle_in_time ev t"
  shows "idle_in_time ev (onDocumentHidden now t)" "idle_in_time ev (clearHiddenTimer t)"
  using assms
  by (auto simp: idle_in_time_def onDocumentHidden_def setTimeout_def clearHiddenTimer_def clearTimeout_def
      timers_owned_def split: option.splits)

lemma hidden_fields [simp]:
  "lastResetStamp (onDocumentHidden now t) = lastResetStamp t"
  by (simp add: onDocumentHidden_def setTimeout_def Let_def split: option.splits)

lemma page_inv_visibility:
  assumes "page_inv p"
  shows "page_inv (p\<lparr>hidden := \<not> hidden p, trk := (if visibilityListening (trk p)
            then onVisibilityChange (\<not> hidden p) (clock p) (trk p) else trk p)\<rparr>)"
proof (cases "visibilityListening (trk p)")
  case True
  then show ?thesis using assms owned_hidden [of "trk p" "clock p"] in_time_hidden [of "trk p"]
    by (auto simp: page_inv_def onVisibilityChange_def onDocumentVisible_def)
next
  case False
  then show ?thesis using assms by (auto simp: page_inv_def timers_owned_def)
qed

lemma page_inv_stop: "page_inv p \<Longrightarrow> page_inv (p\<lparr>trk := stop (trk p)\<rparr>)"
  by (auto simp: page_inv_def idle_in_time_def)

lemma page_inv_clearTimeout: "page_inv p \<Longrightarrow> page_inv (p\<lparr>trk := clearTimeout i (trk p)\<rparr>)"
  using owned_clearTimeout in_time_clear by (auto simp: page_inv_def) (simp_all add: clearTimeout_def)

lemma tstep_inv:
  assumes "tstep p p'" and "page_inv p \<and> idle_off (trk p)"
  shows "page_inv p' \<and> idle_off (trk p')"
  using assms
proof (induction rule: tstep.induct)
  case (tick p now)
  then show ?case by (auto simp: page_inv_def)
next
  case (reset_call p)
  then show ?case using page_inv_reset [of p "lastResetStamp (trk p)"]
    by (auto simp: page_inv_def reset_def)
next
  case (activity p)
  then show ?case using page_inv_activity [of p] by (auto simp: onActivity_def reset_def)
next
  case (visibility h p)
  then show ?case using page_inv_visibility [of p]
    by (auto simp: onVisibilityChange_def onDocumentVisible_def)
next
  case (fire i due p onIdle)
  then show ?case
    using page_inv_clearTimeout [of p i] page_inv_stop [OF page_inv_clearTimeout, of p i]
    by (auto simp: fireIdle_def split: option.splits)
qed (use page_inv_start page_inv_stop in auto)

lemma treach_inv: "treach p \<Longrightarrow> page_inv p \<and> idle_off (trk p)"
proof (induction rule: treach.induct)
  case (initial now h)
  then show ?case
    by (simp add: page_inv_def idle_off_def idle_in_time_def timers_owned_def initial_tracker_def)
qed (rule tstep_inv)

section \<open>Properties\<close>


definition sample_options :: tracker_options where
  "sample_options = \<lparr>idleTimeoutMs = 300000, opt_lockOnHidden = True, hiddenGraceMs = 60000\<rparr>"

definition started_page :: page where
  "started_page = \<lparr>trk = start 5000 sample_options initial_tracker, hidden = False, clock = 5000, lastEvent = 5000\<rparr>"

lemma started_page_reach: "treach started_page"
proof -
  have "treach \<lparr>trk = initial_tracker, hidden = False, clock = 5000, lastEvent = 5000\<rparr>"
    by (rule treach.initial) simp
  from treach.step [OF this tstep.start_call [of sample_options]]
  show ?thesis by (simp add: started_page_def sample_options_def)
qed

lemma started_page_timers:
  "currentOptions (trk started_page) = Some sample_options" "idleTimer (trk started_page) = Some 1"
  "timers (trk started_page) = [(1, 305000)]"
  by (simp_all add: started_page_def sample_options_def start_def stop_def initial_tracker_def
      armIdleTimer_def tracker_ops)


text \<open>
  The tracker leaks no timer. In every reachable state at most two timers are pending, and stopping the
  tracker leaves none: after a lock no timer can fire, and a restart begins with the idle timer only.
\<close>

theorem tracker_leaks_no_timer:
  assumes "treach p"
  shows "length (timers (trk p)) \<le> 2 \<and> timers (stop (trk p)) = [] \<and>
         length (timers (start now opts (trk p))) \<le> 1"
proof -
  have o: "timers_owned (trk p)" using treach_inv [OF assms] by (simp add: page_inv_def)
  have "set (map fst (timers (trk p))) \<subseteq> set_option (idleTimer (trk p)) \<union> set_option (hiddenTimer (trk p))"
    using o by (auto simp: timers_owned_def)
  then have "card (set (map fst (timers (trk p)))) \<le> card (set_option (idleTimer (trk p)) \<union> set_option (hiddenTimer (trk p)))"
    by (intro card_mono) auto
  also have "\<dots> \<le> 2"
    by (cases "idleTimer (trk p)"; cases "hiddenTimer (trk p)") (auto simp: card_insert_if)
  finally have "length (timers (trk p)) \<le> 2"
    using o distinct_card [of "map fst (timers (trk p))"] by (simp add: timers_owned_def)
  then show ?thesis using stop_timers [OF o]
    by (auto simp: start_def armIdleTimer_def setTimeout_def clearIdleTimer_def Let_def)
qed

theorem tracker_leaks_no_timer_witness:
  "length (timers (trk started_page)) \<le> 2 \<and> timers (stop (trk started_page)) = []"
  using tracker_leaks_no_timer [OF started_page_reach] by blast

end
