(* ===== verification/VaultStore.thy ===== *)
theory VaultStore
  imports VaultBackend ActivityTracker
begin

text \<open>
  The vault store (\<open>stores/vaultStore.ts\<close>): every action of the store, over a state that
  holds the store's fields, the session key of \<open>utils/vault-crypto.ts\<close>, the tracker, the browser's
  storage and the server. An action is asynchronous: at every \<open>await\<close> other code may run, and
  \<open>others env n\<close> is what it does to the state at the \<open>n\<close>-th await of the action. With the
  identity the action runs alone.
\<close>

section \<open>State\<close>

record ('s, 'k) vault = "'s browser" +
  status :: vault_status
  keys :: "vault_key list"
  loading :: bool
  error :: "jsstring option"
  settings :: vault_settings
  autoLockNonce :: nat
  storageMode :: storage_mode
  sessionKey :: "'k option"
  tracker_state :: tracker
  now :: rat
  user :: "jsstring option"
  tenant :: "jsstring option"

record ('s, 'k) vault_env =
  wc :: "'k webcrypto"
  api :: "'s vault_api"
  quota_of :: quota
  serverEnabled :: bool
  others :: "nat \<Rightarrow> ('s, 'k) vault \<Rightarrow> ('s, 'k) vault"

definition await :: "('s, 'k) vault_env \<Rightarrow> nat \<Rightarrow> (('s, 'k) vault, 'a) io \<Rightarrow> (('s, 'k) vault, 'a) io" where
  "await env n m = (\<lambda>w. let (r, w') = m w in (r, others env n w'))"

definition lift_sum :: "exn + 'a \<Rightarrow> ('w, 'a) io" where
  "lift_sum r = (\<lambda>w. (r, w))"

definition getScope :: "('s, 'k) vault \<Rightarrow> scope" where
  "getScope w = (case (user w, tenant w) of
      (Some u, Some t) \<Rightarrow> if u = [] \<or> t = [] then None else Some (u, t)
    | _ \<Rightarrow> None)"

definition getBackend :: "('s, 'k) vault_env \<Rightarrow> ('s, 'k) vault \<Rightarrow> backend" where
  "getBackend env w = getVaultBackend (serverEnabled env) (getScope w) w"

section \<open>The methods of the chosen backend\<close>

primrec be_loadMeta :: "('s, 'k) vault_env \<Rightarrow> backend \<Rightarrow> (('s, 'k) vault, vault_meta option) io" where
  "be_loadMeta env (LocalVaultBackend sc) = local_loadMeta sc"
| "be_loadMeta env (ServerVaultBackend sc) = server_loadMeta (api env) sc"

primrec be_saveMeta :: "('s, 'k) vault_env \<Rightarrow> backend \<Rightarrow> vault_meta \<Rightarrow> (('s, 'k) vault, unit) io" where
  "be_saveMeta env (LocalVaultBackend sc) = local_saveMeta (quota_of env) sc"
| "be_saveMeta env (ServerVaultBackend sc) = server_saveMeta (api env) sc"

primrec be_loadData :: "('s, 'k) vault_env \<Rightarrow> backend \<Rightarrow> (('s, 'k) vault, vault_data option) io" where
  "be_loadData env (LocalVaultBackend sc) = local_loadData sc"
| "be_loadData env (ServerVaultBackend sc) = server_loadData (api env) sc"

primrec be_saveData :: "('s, 'k) vault_env \<Rightarrow> backend \<Rightarrow> vault_data \<Rightarrow> (('s, 'k) vault, unit) io" where
  "be_saveData env (LocalVaultBackend sc) = local_saveData (quota_of env) sc"
| "be_saveData env (ServerVaultBackend sc) = server_saveData (api env) sc"

primrec be_clear :: "('s, 'k) vault_env \<Rightarrow> backend \<Rightarrow> (('s, 'k) vault, unit) io" where
  "be_clear env (LocalVaultBackend sc) = local_clear sc"
| "be_clear env (ServerVaultBackend sc) = server_clear (api env) sc"

primrec be_loadSettings :: "('s, 'k) vault_env \<Rightarrow> backend \<Rightarrow> (('s, 'k) vault, vault_settings) io" where
  "be_loadSettings env (LocalVaultBackend sc) = local_loadSettings sc"
| "be_loadSettings env (ServerVaultBackend sc) = server_loadSettings (api env) sc"

primrec be_saveSettings :: "('s, 'k) vault_env \<Rightarrow> backend \<Rightarrow> vault_settings \<Rightarrow> (('s, 'k) vault, unit) io" where
  "be_saveSettings env (LocalVaultBackend sc) = local_saveSettings (quota_of env) sc"
| "be_saveSettings env (ServerVaultBackend sc) = server_saveSettings (api env) sc"

text \<open>Both classes read and clear the legacy keys of the browser.\<close>

definition be_loadLegacyKeys :: "backend \<Rightarrow> (('s, 'k) vault, legacy_key list) io" where
  "be_loadLegacyKeys be = gets loadLegacyKeysFromStorage"

definition be_clearLegacyKeys :: "backend \<Rightarrow> (('s, 'k) vault, unit) io" where
  "be_clearLegacyKeys be = modify clearLegacyKeysFromStorage"

section \<open>The key list as text\<close>

text \<open>The order of an object's members is not kept: nothing in the sources depends on it.\<close>

definition key_json :: "vault_key \<Rightarrow> json" where
  "key_json k = JObj
     ([(js ''id'', JStr (key_id k)), (js ''name'', JStr (key_name k)), (js ''data'', JStr (key_data k)),
       (js ''hasPassphrase'', JBool (hasPassphrase k)), (js ''fingerprint'', JStr (fingerprint k)),
       (js ''createdAt'', JStr (createdAt k)), (js ''updatedAt'', JStr (updatedAt k))] @
      (case algorithm k of None \<Rightarrow> [] | Some a \<Rightarrow> [(js ''algorithm'', JStr a)]))"

definition keys_json :: "vault_key list \<Rightarrow> json" where
  "keys_json ks = JArr (map key_json ks)"

definition key_of_json :: "json \<Rightarrow> vault_key option" where
  "key_of_json item =
     (case (as_string (getp item (js ''id'')), as_string (getp item (js ''name'')),
            as_string (getp item (js ''data'')), as_string (getp item (js ''fingerprint'')),
            as_bool (getp item (js ''hasPassphrase'')), as_string (getp item (js ''createdAt'')),
            as_string (getp item (js ''updatedAt''))) of
        (Some i, Some n, Some d, Some f, Some h, Some c, Some u) \<Rightarrow>
          Some \<lparr>key_id = i, key_name = n, key_data = d, hasPassphrase = h, fingerprint = f,
                algorithm = as_string (getp item (js ''algorithm'')), createdAt = c, updatedAt = u\<rparr>
      | _ \<Rightarrow> None)"

definition CORRUPTED :: jsstring where
  "CORRUPTED = js ''Vault data is corrupted''"

definition parse_keys :: "jsstring \<Rightarrow> exn + vault_key list" where
  "parse_keys t = (case JSON_parse t of
      Some (JArr items) \<Rightarrow>
        if list_all (\<lambda>item. key_of_json item \<noteq> None) items
        then Inr (List.map_filter key_of_json items) else Inl (JsError CORRUPTED)
    | _ \<Rightarrow> Inl (JsError CORRUPTED))"

section \<open>Helpers of the store\<close>

definition VAULT_LOCKED :: exn where
  "VAULT_LOCKED = JsError (js ''Vault is locked'')"

definition persistKeys ::
  "('s, 'k) vault_env \<Rightarrow> nat \<Rightarrow> byte list \<Rightarrow> vault_key list \<Rightarrow> backend option \<Rightarrow> (('s, 'k) vault, unit) io" where
  "persistKeys env n nonce ks be = (\<lambda>w. case sessionKey w of
      None \<Rightarrow> (Inl VAULT_LOCKED, w)
    | Some key \<Rightarrow>
        let backend = (case be of Some b \<Rightarrow> b | None \<Rightarrow> getBackend env w) in
        bind (await env n (lift_sum (encrypt (wc env) nonce key (stringify (keys_json ks)))))
          (\<lambda>d. await env (Suc n) (be_saveData env backend d)) w)"

definition duplicate_error :: "string \<Rightarrow> exn" where
  "duplicate_error field = JsError (js ''Duplicate key: '' @ js field)"

definition checkDuplicates ::
  "vault_key list \<Rightarrow> jsstring option \<Rightarrow> jsstring option \<Rightarrow> jsstring option \<Rightarrow> exn + unit" where
  "checkDuplicates existing name fp excludeId =
     (let other = (\<lambda>k. excludeId \<noteq> Some (key_id k));
          hasDuplicateName = (case name of None \<Rightarrow> False
            | Some n \<Rightarrow> list_ex (\<lambda>k. other k \<and> key_name k = n) existing);
          hasDuplicateKey = (case fp of None \<Rightarrow> False
            | Some f \<Rightarrow> list_ex (\<lambda>k. other k \<and> fingerprint k = f) existing)
      in if hasDuplicateName \<and> hasDuplicateKey then Inl (duplicate_error ''both'')
         else if hasDuplicateName then Inl (duplicate_error ''name'')
         else if hasDuplicateKey then Inl (duplicate_error ''private_key'')
         else Inr ())"

text \<open>\<open>ids i\<close> is the \<open>i\<close>-th random UUID, \<open>stamp\<close> the present time as ISO text.\<close>

fun migrateLegacyKeys :: "(nat \<Rightarrow> jsstring) \<Rightarrow> jsstring \<Rightarrow> nat \<Rightarrow> legacy_key list \<Rightarrow> vault_key list" where
  "migrateLegacyKeys ids stamp i [] = []"
| "migrateLegacyKeys ids stamp i (e # es) =
     \<lparr>key_id = ids i, key_name = legacy_name e, key_data = legacy_data e,
      hasPassphrase = legacy_hasPassphrase e, fingerprint = legacy_fingerprint e, algorithm = None,
      createdAt = stamp, updatedAt = stamp\<rparr> # migrateLegacyKeys ids stamp (Suc i) es"

definition loadSettingsIntoState :: "('s, 'k) vault_env \<Rightarrow> nat \<Rightarrow> (('s, 'k) vault, unit) io" where
  "loadSettingsIntoState env n = (\<lambda>w.
     catch (bind (await env n (be_loadSettings env (getBackend env w)))
                 (\<lambda>s. modify (\<lambda>w. w\<lparr>settings := s\<rparr>)))
           (\<lambda>_. ret ()) w)"

definition onIdle :: "('s, 'k) vault \<Rightarrow> ('s, 'k) vault" where
  "onIdle w =
     (if status w \<noteq> Unlocked then w
      else w\<lparr>sessionKey := None, tracker_state := stop (tracker_state w), status := Locked, keys := [],
             error := None, autoLockNonce := autoLockNonce w + 1\<rparr>)"

definition startTracker :: "('s, 'k) vault \<Rightarrow> ('s, 'k) vault" where
  "startTracker w = w\<lparr>tracker_state := start (now w)
     \<lparr>idleTimeoutMs = autoLockTimeoutMinutes (settings w) * 60000,
      opt_lockOnHidden = lockOnHidden (settings w), hiddenGraceMs = HIDDEN_GRACE_MS\<rparr> (tracker_state w)\<rparr>"

section \<open>Actions\<close>

definition refreshStatus :: "('s, 'k) vault_env \<Rightarrow> (('s, 'k) vault, unit) io" where
  "refreshStatus env =
     seq (modify (\<lambda>w. w\<lparr>storageMode := getVaultStorageMode (serverEnabled env) (getScope w) w\<rparr>))
     (\<lambda>w. case await env 0 (be_loadMeta env (getBackend env w)) w of
        (Inl e, w') \<Rightarrow> (Inr (), w'\<lparr>error := Some (err_message e (js ''Failed to load the vault''))\<rparr>)
      | (Inr None, w') \<Rightarrow>
          (Inr (), w'\<lparr>tracker_state := stop (tracker_state w'), status := Uninitialized\<rparr>)
      | (Inr (Some _), w') \<Rightarrow>
          seq (loadSettingsIntoState env 1)
              (modify (\<lambda>w. case sessionKey w of
                  None \<Rightarrow> w\<lparr>tracker_state := stop (tracker_state w), status := Locked\<rparr>
                | Some _ \<Rightarrow> w\<lparr>status := Unlocked\<rparr>)) w')"

definition initialize ::
  "('s, 'k) vault_env \<Rightarrow> byte list \<Rightarrow> byte list \<Rightarrow> byte list \<Rightarrow> (nat \<Rightarrow> jsstring) \<Rightarrow> jsstring
     \<Rightarrow> jsstring \<Rightarrow> storage_mode option \<Rightarrow> (('s, 'k) vault, unit) io" where
  "initialize env slt vnonce nonce ids stamp masterPassword mode =
     seq (modify (\<lambda>w. w\<lparr>loading := True, error := None\<rparr>))
     (seq (case mode of
             None \<Rightarrow> ret ()
           | Some md \<Rightarrow> (\<lambda>w. seq (setVaultStorageMode (quota_of env) md (getScope w))
                                  (modify (\<lambda>w. w\<lparr>storageMode := md\<rparr>)) w))
     (bind (gets (getBackend env)) (\<lambda>backend.
       catch
        (bind (await env 0 (lift_sum (createVaultMeta (wc env) slt vnonce masterPassword))) (\<lambda>(meta, derivedKey).
         seq (await env 1 (be_saveMeta env backend meta))
         (seq (modify (\<lambda>w. w\<lparr>sessionKey := Some derivedKey\<rparr>))
         (bind (await env 2 (be_loadLegacyKeys backend)) (\<lambda>legacyKeys.
           let ks = (if length legacyKeys > 0 then migrateLegacyKeys ids stamp 0 legacyKeys else []) in
           seq (persistKeys env 3 nonce ks None)
           (seq (if length legacyKeys > 0 then await env 5 (be_clearLegacyKeys backend) else ret ())
           (seq (modify (\<lambda>w. w\<lparr>status := Unlocked, keys := ks, loading := False\<rparr>))
           (seq (loadSettingsIntoState env 6)
                (modify startTracker)))))))))
        (\<lambda>e. seq (catch (await env 7 (be_clear env backend)) (\<lambda>_. ret ()))
               (modify (\<lambda>w. w\<lparr>sessionKey := None, loading := False,
                  error := Some (err_message e (js ''Failed to create vault''))\<rparr>))))))"

definition unlock :: "('s, 'k) vault_env \<Rightarrow> jsstring \<Rightarrow> (('s, 'k) vault, unit) io" where
  "unlock env masterPassword =
     seq (modify (\<lambda>w. w\<lparr>loading := True, error := None\<rparr>))
     (catch
       (bind (gets (getBackend env)) (\<lambda>backend.
        bind (await env 0 (be_loadMeta env backend)) (\<lambda>m. case m of
          None \<Rightarrow> modify (\<lambda>w. w\<lparr>loading := False, error := Some (js ''No vault found'')\<rparr>)
        | Some meta \<Rightarrow> (\<lambda>w.
            case await env 1 (lift_sum (verifyPassword (wc env) masterPassword meta)) w of
              (Inl e, w') \<Rightarrow>
                (Inr (), w'\<lparr>loading := False, error := Some (js ''Incorrect master password'')\<rparr>)
            | (Inr derivedKey, w') \<Rightarrow>
                seq (modify (\<lambda>w. w\<lparr>sessionKey := Some derivedKey\<rparr>))
                (catch
                  (bind (await env 2 (be_loadData env backend)) (\<lambda>vaultData.
                   bind (case vaultData of
                           None \<Rightarrow> ret []
                         | Some d \<Rightarrow> bind (await env 3 (lift_sum (decrypt (wc env) derivedKey d)))
                                       (\<lambda>t. lift_sum (parse_keys t))) (\<lambda>ks.
                   seq (modify (\<lambda>w. w\<lparr>status := Unlocked, keys := ks, loading := False\<rparr>))
                   (seq (loadSettingsIntoState env 4)
                        (modify startTracker)))))
                  (\<lambda>_. modify (\<lambda>w. w\<lparr>sessionKey := None, loading := False, error := Some CORRUPTED\<rparr>))) w'))))
       (\<lambda>e. modify (\<lambda>w. w\<lparr>sessionKey := None, loading := False,
              error := Some (err_message e (js ''Failed to unlock vault''))\<rparr>)))"

definition lock :: "('s, 'k) vault \<Rightarrow> ('s, 'k) vault" where
  "lock w = w\<lparr>sessionKey := None, tracker_state := stop (tracker_state w), status := Locked, keys := [],
              error := None\<rparr>"

text \<open>What a caller passes to \<open>addKey\<close> and to \<open>updateKey\<close>; an absent member is \<open>None\<close>.\<close>

record key_entry =
  entry_name :: jsstring
  entry_data :: jsstring
  entry_hasPassphrase :: bool
  entry_fingerprint :: jsstring
  entry_algorithm :: "jsstring option"

record key_updates =
  upd_name :: "jsstring option"
  upd_data :: "jsstring option"
  upd_hasPassphrase :: "bool option"
  upd_fingerprint :: "jsstring option"
  upd_algorithm :: "jsstring option"

definition new_key :: "jsstring \<Rightarrow> jsstring \<Rightarrow> key_entry \<Rightarrow> vault_key" where
  "new_key i stamp e =
     \<lparr>key_id = i, key_name = entry_name e, key_data = entry_data e, hasPassphrase = entry_hasPassphrase e,
      fingerprint = entry_fingerprint e, algorithm = entry_algorithm e, createdAt = stamp, updatedAt = stamp\<rparr>"

definition merge_key :: "jsstring \<Rightarrow> key_updates \<Rightarrow> vault_key \<Rightarrow> vault_key" where
  "merge_key stamp u k =
     k\<lparr>key_name := (case upd_name u of Some n \<Rightarrow> n | None \<Rightarrow> key_name k),
       key_data := (case upd_data u of Some d \<Rightarrow> d | None \<Rightarrow> key_data k),
       hasPassphrase := (case upd_hasPassphrase u of Some h \<Rightarrow> h | None \<Rightarrow> hasPassphrase k),
       fingerprint := (case upd_fingerprint u of Some f \<Rightarrow> f | None \<Rightarrow> fingerprint k),
       algorithm := (case upd_algorithm u of Some a \<Rightarrow> Some a | None \<Rightarrow> algorithm k),
       updatedAt := stamp\<rparr>"

text \<open>\<open>persistKeys(keys)\<close>, then \<open>set({ keys })\<close> unless the vault was locked meanwhile.\<close>

definition commit_keys ::
  "('s, 'k) vault_env \<Rightarrow> byte list \<Rightarrow> vault_key list \<Rightarrow> (('s, 'k) vault, unit) io" where
  "commit_keys env nonce ks =
     seq (persistKeys env 0 nonce ks None)
         (modify (\<lambda>w. if status w \<noteq> Unlocked then w else w\<lparr>keys := ks\<rparr>))"

definition addKey ::
  "('s, 'k) vault_env \<Rightarrow> byte list \<Rightarrow> jsstring \<Rightarrow> jsstring \<Rightarrow> key_entry \<Rightarrow> (('s, 'k) vault, unit) io" where
  "addKey env nonce i stamp entry =
     bind (gets keys) (\<lambda>existing.
     seq (lift_sum (checkDuplicates existing (Some (entry_name entry)) (Some (entry_fingerprint entry)) None))
         (commit_keys env nonce (existing @ [new_key i stamp entry])))"

definition KEY_NOT_FOUND :: exn where
  "KEY_NOT_FOUND = JsError (js ''Key not found'')"

definition updateKey ::
  "('s, 'k) vault_env \<Rightarrow> byte list \<Rightarrow> jsstring \<Rightarrow> jsstring \<Rightarrow> key_updates \<Rightarrow> (('s, 'k) vault, unit) io" where
  "updateKey env nonce stamp i updates =
     bind (gets keys) (\<lambda>existing.
     if \<not> list_ex (\<lambda>k. key_id k = i) existing then throw KEY_NOT_FOUND
     else seq (lift_sum (checkDuplicates existing (upd_name updates) (upd_fingerprint updates) (Some i)))
            (commit_keys env nonce
              (map (\<lambda>k. if key_id k = i then merge_key stamp updates k else k) existing)))"

definition removeKey ::
  "('s, 'k) vault_env \<Rightarrow> byte list \<Rightarrow> jsstring \<Rightarrow> (('s, 'k) vault, unit) io" where
  "removeKey env nonce i =
     bind (gets keys) (\<lambda>existing.
     if \<not> list_ex (\<lambda>k. key_id k = i) existing then throw KEY_NOT_FOUND
     else commit_keys env nonce (filter (\<lambda>k. key_id k \<noteq> i) existing))"

text \<open>The awaits of \<open>changeMasterPassword\<close>: 0 \<open>loadMeta\<close>, 1 \<open>verifyPassword\<close>,
  2 \<open>createVaultMeta\<close>, 3 \<open>loadData\<close>, 4 and 5 \<open>persistKeys\<close>, 6 \<open>saveMeta\<close>,
  7 and 8 the roll back.\<close>

definition reencrypt ::
  "('s, 'k) vault_env \<Rightarrow> backend \<Rightarrow> byte list \<Rightarrow> 'k \<Rightarrow> 'k \<Rightarrow> vault_meta \<Rightarrow> vault_data option \<Rightarrow> vault_meta
     \<Rightarrow> (('s, 'k) vault, unit) io" where
  "reencrypt env backend nonce oldKey newKey oldMeta oldData newMeta =
     seq (modify (\<lambda>w. w\<lparr>sessionKey := Some newKey\<rparr>))
     (catch
       (bind (gets keys) (\<lambda>ks.
        seq (persistKeys env 4 nonce ks (Some backend))
            (await env 6 (be_saveMeta env backend newMeta))))
       (\<lambda>err.
        seq (modify (\<lambda>w. w\<lparr>sessionKey := Some oldKey\<rparr>))
        (seq (case oldData of
                None \<Rightarrow> ret ()
              | Some d \<Rightarrow> catch (await env 7 (be_saveData env backend d)) (\<lambda>_. ret ()))
        (seq (catch (await env 8 (be_saveMeta env backend oldMeta)) (\<lambda>_. ret ()))
             (throw err)))))"

definition changeMasterPassword ::
  "('s, 'k) vault_env \<Rightarrow> byte list \<Rightarrow> byte list \<Rightarrow> byte list \<Rightarrow> jsstring \<Rightarrow> jsstring \<Rightarrow> (('s, 'k) vault, unit) io" where
  "changeMasterPassword env slt vnonce nonce currentPassword newPassword =
     seq (modify (\<lambda>w. w\<lparr>loading := True, error := None\<rparr>))
     (catch
       (bind (gets (getBackend env)) (\<lambda>backend.
        bind (await env 0 (be_loadMeta env backend)) (\<lambda>m. case m of
          None \<Rightarrow> modify (\<lambda>w. w\<lparr>loading := False, error := Some (js ''No vault found'')\<rparr>)
        | Some meta \<Rightarrow> (\<lambda>w.
            if status w \<noteq> Unlocked then (Inl VAULT_LOCKED, w)
            else case sessionKey w of
              None \<Rightarrow> (Inl (JsError (js ''Session key missing while vault is unlocked'')), w)
            | Some oldKey \<Rightarrow>
               (case await env 1 (lift_sum (verifyPassword (wc env) currentPassword meta)) w of
                  (Inl e, w') \<Rightarrow>
                    (Inr (), w'\<lparr>loading := False, error := Some (js ''Current password is incorrect'')\<rparr>)
                | (Inr _, w') \<Rightarrow>
                    bind (await env 2 (lift_sum (createVaultMeta (wc env) slt vnonce newPassword)))
                      (\<lambda>(newMeta, newKey) w.
                        if status w \<noteq> Unlocked
                        then (Inr (), w\<lparr>loading := False, error := Some (js ''Vault locked during password change'')\<rparr>)
                        else bind (await env 3 (be_loadData env backend)) (\<lambda>oldData.
                               seq (reencrypt env backend nonce oldKey newKey meta oldData newMeta)
                                   (modify (\<lambda>w. w\<lparr>loading := False\<rparr>))) w) w')))))
       (\<lambda>e. modify (\<lambda>w. w\<lparr>loading := False,
              error := Some (err_message e (js ''Failed to change master password''))\<rparr>)))"

definition resetVault :: "('s, 'k) vault_env \<Rightarrow> (('s, 'k) vault, unit) io" where
  "resetVault env = (\<lambda>w. case await env 0 (be_clear env (getBackend env w)) w of
      (Inl e, w') \<Rightarrow> (Inr (), w'\<lparr>error := Some (err_message e (js ''Failed to reset the vault''))\<rparr>)
    | (Inr _, w') \<Rightarrow>
        (Inr (), w'\<lparr>sessionKey := None, tracker_state := stop (tracker_state w'), status := Uninitialized,
                    keys := [], error := None, settings := DEFAULT_VAULT_SETTINGS\<rparr>))"

definition clearError :: "('s, 'k) vault \<Rightarrow> ('s, 'k) vault" where
  "clearError w = w\<lparr>error := None\<rparr>"

definition updateAutoLockSettings ::
  "('s, 'k) vault_env \<Rightarrow> rat option \<Rightarrow> bool option \<Rightarrow> (('s, 'k) vault, unit) io" where
  "updateAutoLockSettings env timeout hid = (\<lambda>w.
     let newSettings = \<lparr>autoLockTimeoutMinutes =
              (case timeout of Some t \<Rightarrow> t | None \<Rightarrow> autoLockTimeoutMinutes (settings w)),
            lockOnHidden = (case hid of Some b \<Rightarrow> b | None \<Rightarrow> lockOnHidden (settings w))\<rparr>
     in case await env 0 (be_saveSettings env (getBackend env w) newSettings) w of
          (Inl e, w') \<Rightarrow> (Inr (), w'\<lparr>error := Some (err_message e (js ''Failed to save vault settings''))\<rparr>)
        | (Inr _, w') \<Rightarrow>
            (Inr (), let w2 = w'\<lparr>settings := newSettings\<rparr> in
                     if status w2 = Unlocked then startTracker w2 else w2))"

end
