(* ===== verification/VaultSession.thy ===== *)
theory VaultSession
  imports VaultStore
begin

text \<open>
  What the vault store guarantees. The first part is about a vault in the browser whose actions run one
  after the other: the encrypted copy always opens with the current master password and holds exactly
  the keys the user put there (\<open>session\<close>, by rule induction over the actions). The second part is
  about actions interrupted at their awaits, with no assumption on what the other code does.
\<close>

section \<open>The key list round trip\<close>

definition wf_key :: "vault_key \<Rightarrow> bool" where
  "wf_key k \<longleftrightarrow> code_units (key_id k) \<and> code_units (key_name k) \<and> code_units (key_data k) \<and>
     code_units (fingerprint k) \<and> code_units (createdAt k) \<and> code_units (updatedAt k) \<and>
     (case algorithm k of None \<Rightarrow> True | Some a \<Rightarrow> code_units a)"

lemma key_of_json_key_json [simp]: "key_of_json (key_json k) = Some k"
  by (cases "algorithm k") (simp_all add: key_of_json_def key_json_def js_def)

lemma wf_keys_json: "list_all wf_key ks \<Longrightarrow> wf_json (keys_json ks)"
  by (induction ks) (auto simp: keys_json_def key_json_def wf_key_def split: option.splits)

lemma map_filter_key_json: "List.map_filter key_of_json (map key_json ks) = ks"
  by (induction ks) (simp_all add: List.map_filter_def)

lemma parse_keys_written: "list_all wf_key ks \<Longrightarrow> parse_keys (stringify (keys_json ks)) = Inr ks"
proof -
  assume "list_all wf_key ks"
  then have "JSON_parse (stringify (keys_json ks)) = Some (keys_json ks)" by (simp add: wf_keys_json)
  moreover have "list_all (\<lambda>x. key_of_json x \<noteq> None) (map key_json ks)" by (induction ks) auto
  ultimately show ?thesis by (simp add: parse_keys_def keys_json_def map_filter_key_json)
qed

section \<open>Running alone in the browser\<close>

definition alone_local :: "('s, 'k) vault_env \<Rightarrow> bool" where
  "alone_local env \<longleftrightarrow> (\<forall>n w. others env n w = w) \<and> \<not> serverEnabled env \<and> gcm_ok (wc env)"

lemma await_alone [simp]: "alone_local env \<Longrightarrow> await env n m = m"
  by (rule ext) (simp add: await_def alone_local_def split: prod.splits)

lemma getBackend_local [simp]: "alone_local env \<Longrightarrow> getBackend env w = LocalVaultBackend (getScope w)"
  by (simp add: getBackend_def getVaultBackend_def getVaultStorageMode_def alone_local_def)

lemma local_view_store [simp]:
  "local_meta sc (w\<lparr>status := a\<rparr>) = local_meta sc w" "local_data sc (w\<lparr>status := a\<rparr>) = local_data sc w"
  "local_meta sc (w\<lparr>keys := b\<rparr>) = local_meta sc w" "local_data sc (w\<lparr>keys := b\<rparr>) = local_data sc w"
  "local_meta sc (w\<lparr>loading := c\<rparr>) = local_meta sc w" "local_data sc (w\<lparr>loading := c\<rparr>) = local_data sc w"
  "local_meta sc (w\<lparr>error := d\<rparr>) = local_meta sc w" "local_data sc (w\<lparr>error := d\<rparr>) = local_data sc w"
  "local_meta sc (w\<lparr>settings := e\<rparr>) = local_meta sc w" "local_data sc (w\<lparr>settings := e\<rparr>) = local_data sc w"
  "local_meta sc (w\<lparr>autoLockNonce := f\<rparr>) = local_meta sc w" "local_data sc (w\<lparr>autoLockNonce := f\<rparr>) = local_data sc w"
  "local_meta sc (w\<lparr>storageMode := g\<rparr>) = local_meta sc w" "local_data sc (w\<lparr>storageMode := g\<rparr>) = local_data sc w"
  "local_meta sc (w\<lparr>sessionKey := h\<rparr>) = local_meta sc w" "local_data sc (w\<lparr>sessionKey := h\<rparr>) = local_data sc w"
  "local_meta sc (w\<lparr>tracker_state := i\<rparr>) = local_meta sc w"
  "local_data sc (w\<lparr>tracker_state := i\<rparr>) = local_data sc w"
  by (simp_all add: local_views)

lemma getScope_store [simp]:
  "getScope (w\<lparr>status := a\<rparr>) = getScope w" "getScope (w\<lparr>keys := b\<rparr>) = getScope w"
  "getScope (w\<lparr>loading := c\<rparr>) = getScope w" "getScope (w\<lparr>error := d\<rparr>) = getScope w"
  "getScope (w\<lparr>settings := e\<rparr>) = getScope w" "getScope (w\<lparr>autoLockNonce := f\<rparr>) = getScope w"
  "getScope (w\<lparr>storageMode := g\<rparr>) = getScope w" "getScope (w\<lparr>sessionKey := h\<rparr>) = getScope w"
  "getScope (w\<lparr>tracker_state := i\<rparr>) = getScope w" "getScope (w\<lparr>localStorage := j\<rparr>) = getScope w"
  by (simp_all add: getScope_def)

text \<open>A write of the local backend changes the storage and nothing else.\<close>

lemma local_write_shape:
  "local_saveData q sc d w = (r, w') \<Longrightarrow> \<exists>st. w' = w\<lparr>localStorage := st\<rparr>"
  "local_saveMeta q sc m w = (r, w') \<Longrightarrow> \<exists>st. w' = w\<lparr>localStorage := st\<rparr>"
  "local_saveSettings q sc s w = (r, w') \<Longrightarrow> \<exists>st. w' = w\<lparr>localStorage := st\<rparr>"
proof -
  have *: "\<exists>st. w' = w\<lparr>localStorage := st\<rparr>" if "settle (safeSetItem q k v) w = (r, w')" for k v
    using local_write_snd [of q k v w] that by (auto intro: exI [of _ "localStorage w"])
  show "local_saveData q sc d w = (r, w') \<Longrightarrow> \<exists>st. w' = w\<lparr>localStorage := st\<rparr>"
    "local_saveMeta q sc m w = (r, w') \<Longrightarrow> \<exists>st. w' = w\<lparr>localStorage := st\<rparr>"
    "local_saveSettings q sc s w = (r, w') \<Longrightarrow> \<exists>st. w' = w\<lparr>localStorage := st\<rparr>"
    using * by (simp_all add: local_writes)
qed

text \<open>\<open>opens env sc pw k ks w\<close>: the stored vault opens with password \<open>pw\<close> to key
  \<open>k\<close>, which decrypts the stored data to the key list \<open>ks\<close>.\<close>

definition opens :: "('s, 'k) vault_env \<Rightarrow> scope \<Rightarrow> jsstring \<Rightarrow> 'k \<Rightarrow> vault_key list \<Rightarrow> ('s, 'k) vault \<Rightarrow> bool" where
  "opens env sc pw k ks w \<longleftrightarrow> (\<exists>m d. local_meta sc w = Some m \<and> local_data sc w = Some d \<and>
     valid_meta m \<and> valid_data d \<and>
     verifyPassword (wc env) pw m = Inr k \<and> decrypt (wc env) k d = Inr (stringify (keys_json ks)))"

definition vault_inv :: "('s, 'k) vault_env \<Rightarrow> scope \<Rightarrow> jsstring \<Rightarrow> vault_key list \<Rightarrow> ('s, 'k) vault \<Rightarrow> bool" where
  "vault_inv env sc pw ks w \<longleftrightarrow> getScope w = sc \<and> list_all wf_key ks \<and>
     (\<exists>k. opens env sc pw k ks w \<and>
        (if status w = Unlocked then sessionKey w = Some k \<and> keys w = ks
         else sessionKey w = None \<and> keys w = []))"

lemma opens_store [simp]:
  "opens env sc pw k ks (w\<lparr>status := a\<rparr>) = opens env sc pw k ks w"
  "opens env sc pw k ks (w\<lparr>keys := b\<rparr>) = opens env sc pw k ks w"
  "opens env sc pw k ks (w\<lparr>loading := c\<rparr>) = opens env sc pw k ks w"
  "opens env sc pw k ks (w\<lparr>error := d\<rparr>) = opens env sc pw k ks w"
  "opens env sc pw k ks (w\<lparr>settings := e\<rparr>) = opens env sc pw k ks w"
  "opens env sc pw k ks (w\<lparr>autoLockNonce := f\<rparr>) = opens env sc pw k ks w"
  "opens env sc pw k ks (w\<lparr>storageMode := g\<rparr>) = opens env sc pw k ks w"
  "opens env sc pw k ks (w\<lparr>sessionKey := h\<rparr>) = opens env sc pw k ks w"
  "opens env sc pw k ks (w\<lparr>tracker_state := i\<rparr>) = opens env sc pw k ks w"
  by (simp_all add: opens_def)

lemma opens_cong: "localStorage w' = localStorage w \<Longrightarrow> opens env sc pw k ks w' = opens env sc pw k ks w"
  by (simp add: opens_def local_views)

lemma persist_alone:
  assumes a: "alone_local env" and k: "sessionKey w = Some k" and sc: "getScope w = sc"
    and be: "be = None \<or> be = Some (LocalVaultBackend sc)" and wf: "list_all wf_key ks"
    and run: "persistKeys env n nonce ks be w = (r, w')"
  shows "(\<exists>st. w' = w\<lparr>localStorage := st\<rparr>) \<and> local_meta sc w' = local_meta sc w \<and>
    (case r of Inl e \<Rightarrow> w' = w
     | Inr _ \<Rightarrow> \<exists>d. local_data sc w' = Some d \<and> valid_data d \<and>
         decrypt (wc env) k d = Inr (stringify (keys_json ks)))"
proof -
  let ?t = "stringify (keys_json ks)"
  have g: "gcm_ok (wc env)" using a by (simp add: alone_local_def)
  have p: "persistKeys env n nonce ks be w =
      bind (lift_sum (encrypt (wc env) nonce k ?t)) (local_saveData (quota_of env) sc) w"
    using a k sc be by (auto simp: persistKeys_def)
  show ?thesis
  proof (cases "encrypt (wc env) nonce k ?t")
    case (Inl e)
    then show ?thesis using run p by (auto simp: bind_def lift_sum_def intro: exI [of _ "localStorage w"])
  next
    case (Inr d)
    then have s: "local_saveData (quota_of env) sc d w = (r, w')"
      using run p by (simp add: bind_def lift_sum_def)
    have v: "valid_data d" by (rule encrypt_valid [OF Inr])
    have dec: "decrypt (wc env) k d = Inr ?t" by (rule decrypt_encrypt_json [OF g Inr wf_keys_json [OF wf]])
    show ?thesis
    proof (cases r)
      case (Inl e)
      then show ?thesis using local.saveData_err [OF s [unfolded Inl]] by (auto intro: exI [of _ "localStorage w"])
    next
      case (Inr u)
      then have "local_saveData (quota_of env) sc d w = (Inr (), w')" using s by simp
      from local.saveData_law [OF this v] show ?thesis
        using Inr v dec local_write_shape(1) [OF s] by simp
    qed
  qed
qed

lemma commit_inv:
  assumes a: "alone_local env" and inv: "vault_inv env sc pw ks w" and wf: "list_all wf_key ks'"
    and run: "commit_keys env nonce ks' w = (r, w')"
  shows "vault_inv env sc pw (if r = Inr () then ks' else ks) w' \<and> (status w \<noteq> Unlocked \<longrightarrow> r \<noteq> Inr ())"
proof -
  obtain k where o: "opens env sc pw k ks w" and
    st: "if status w = Unlocked then sessionKey w = Some k \<and> keys w = ks else sessionKey w = None \<and> keys w = []"
    and sc: "getScope w = sc"
    using inv by (auto simp: vault_inv_def)
  show ?thesis
  proof (cases "status w = Unlocked")
    case False
    then show ?thesis using run st inv by (auto simp: commit_keys_def seq_def bind_def persistKeys_def)
  next
    case True
    then have k: "sessionKey w = Some k" and ks: "keys w = ks" using st by auto
    obtain rp w1 where p: "persistKeys env 0 nonce ks' None w = (rp, w1)" by fastforce
    note pa = persist_alone [OF a k sc _ wf p]
    show ?thesis
    proof (cases rp)
      case (Inl e)
      then show ?thesis using pa run p inv by (auto simp: commit_keys_def seq_def bind_def)
    next
      case (Inr u)
      then obtain d store where d: "local_data sc w1 = Some d" "valid_data d"
          "decrypt (wc env) k d = Inr (stringify (keys_json ks'))"
        and m: "local_meta sc w1 = local_meta sc w" and w1: "w1 = w\<lparr>localStorage := store\<rparr>"
        using pa by auto
      have r: "r = Inr ()" and w': "w' = w1\<lparr>keys := ks'\<rparr>"
        using run p Inr True w1 by (auto simp: commit_keys_def seq_def bind_def modify_def)
      have "opens env sc pw k ks' w'" using o d m by (auto simp: opens_def w')
      then show ?thesis using r w' w1 True k sc wf by (auto simp: vault_inv_def)
    qed
  qed
qed

definition wf_entry :: "key_entry \<Rightarrow> bool" where
  "wf_entry e \<longleftrightarrow> code_units (entry_name e) \<and> code_units (entry_data e) \<and> code_units (entry_fingerprint e) \<and>
     (case entry_algorithm e of None \<Rightarrow> True | Some a \<Rightarrow> code_units a)"

definition wf_updates :: "key_updates \<Rightarrow> bool" where
  "wf_updates u \<longleftrightarrow> pred_option code_units (upd_name u) \<and> pred_option code_units (upd_data u) \<and>
     pred_option code_units (upd_fingerprint u) \<and> pred_option code_units (upd_algorithm u)"

lemma wf_merge: "wf_key k \<Longrightarrow> wf_updates u \<Longrightarrow> code_units stamp \<Longrightarrow> wf_key (merge_key stamp u k)"
  by (auto simp: wf_key_def wf_updates_def merge_key_def split: option.splits)

lemma inv_keys: "vault_inv env sc pw ks w \<Longrightarrow> status w = Unlocked \<Longrightarrow> keys w = ks"
  by (auto simp: vault_inv_def)

lemma inv_wf: "vault_inv env sc pw ks w \<Longrightarrow> list_all wf_key ks \<and> list_all wf_key (keys w)"
  by (auto simp: vault_inv_def split: if_splits)

lemma addKey_inv:
  assumes a: "alone_local env" and inv: "vault_inv env sc pw ks w"
    and wf: "wf_entry e" "code_units i" "code_units stamp"
    and run: "addKey env nonce i stamp e w = (r, w')"
  shows "vault_inv env sc pw (if r = Inr () then ks @ [new_key i stamp e] else ks) w'"
proof (cases "checkDuplicates (keys w) (Some (entry_name e)) (Some (entry_fingerprint e)) None")
  case (Inl x)
  then show ?thesis using run inv by (auto simp: addKey_def bind_def seq_def gets_def lift_sum_def)
next
  case (Inr u)
  have c: "commit_keys env nonce (keys w @ [new_key i stamp e]) w = (r, w')"
    using run Inr by (simp add: addKey_def bind_def seq_def gets_def lift_sum_def)
  have "list_all wf_key (keys w @ [new_key i stamp e])"
    using inv_wf [OF inv] wf by (auto simp: new_key_def wf_key_def wf_entry_def)
  from commit_inv [OF a inv this c] show ?thesis
    using inv_keys [OF inv] by (auto split: if_splits)
qed

lemma updateKey_inv:
  assumes a: "alone_local env" and inv: "vault_inv env sc pw ks w"
    and wf: "wf_updates u" "code_units stamp"
    and run: "updateKey env nonce stamp i u w = (r, w')"
  shows "vault_inv env sc pw
    (if r = Inr () then map (\<lambda>k. if key_id k = i then merge_key stamp u k else k) ks else ks) w'"
proof -
  let ?ks = "map (\<lambda>k. if key_id k = i then merge_key stamp u k else k) (keys w)"
  consider "w' = w" "r \<noteq> Inr ()" | "commit_keys env nonce ?ks w = (r, w')"
    using run
    by (cases "checkDuplicates (keys w) (upd_name u) (upd_fingerprint u) (Some i)")
       (auto simp: updateKey_def bind_def seq_def gets_def lift_sum_def throw_def split: if_splits,
        metis Inr_not_Inl)
  then show ?thesis
  proof cases
    case 2
    have "list_all wf_key ?ks" using inv_wf [OF inv] wf by (auto simp: list_all_iff wf_merge)
    from commit_inv [OF a inv this 2] show ?thesis using inv_keys [OF inv] by (auto split: if_splits)
  qed (use inv in simp)
qed

lemma removeKey_inv:
  assumes a: "alone_local env" and inv: "vault_inv env sc pw ks w"
    and run: "removeKey env nonce i w = (r, w')"
  shows "vault_inv env sc pw (if r = Inr () then filter (\<lambda>k. key_id k \<noteq> i) ks else ks) w'"
proof -
  let ?ks = "filter (\<lambda>k. key_id k \<noteq> i) (keys w)"
  consider "w' = w" "r \<noteq> Inr ()" | "commit_keys env nonce ?ks w = (r, w')"
    using run by (auto simp: removeKey_def bind_def gets_def throw_def split: if_splits)
  then show ?thesis
  proof cases
    case 2
    have "list_all wf_key ?ks" using inv_wf [OF inv] by (auto simp: list_all_iff)
    from commit_inv [OF a inv this 2] show ?thesis using inv_keys [OF inv] by (auto split: if_splits)
  qed (use inv in simp)
qed

lemma loadSettings_alone:
  assumes "alone_local env"
  shows "loadSettingsIntoState env n w = (Inr (), w\<lparr>settings := local_settings (getScope w) w\<rparr>)"
  using assms local.loadSettings_law [of "getScope w" w]
  by (simp add: loadSettingsIntoState_def catch_def bind_def modify_def)

lemma startTracker_fields [simp]:
  "localStorage (startTracker w) = localStorage w" "getScope (startTracker w) = getScope w"
  "status (startTracker w) = status w" "keys (startTracker w) = keys w"
  "sessionKey (startTracker w) = sessionKey w" "error (startTracker w) = error w"
  "opens env sc pw k ks (startTracker w) = opens env sc pw k ks w"
  by (simp_all add: startTracker_def)

lemma unlock_opens:
  assumes a: "alone_local env" and o: "opens env (getScope w) pw k ks w" and wf: "list_all wf_key ks"
  shows "\<exists>w'. unlock env pw w = (Inr (), w') \<and> status w' = Unlocked \<and> keys w' = ks \<and>
    sessionKey w' = Some k \<and> error w' = None \<and> getScope w' = getScope w \<and> localStorage w' = localStorage w"
proof -
  obtain m d where md: "local_meta (getScope w) w = Some m" "local_data (getScope w) w = Some d"
    "verifyPassword (wc env) pw m = Inr k" "decrypt (wc env) k d = Inr (stringify (keys_json ks))"
    using o by (auto simp: opens_def)
  show ?thesis
    using a md
    by (simp add: unlock_def seq_def bind_def catch_def gets_def modify_def lift_sum_def ret_def
        local.loadMeta_law local.loadData_law loadSettings_alone parse_keys_written [OF wf])
qed

definition wrong_password :: "('s, 'k) vault_env \<Rightarrow> scope \<Rightarrow> jsstring \<Rightarrow> ('s, 'k) vault \<Rightarrow> bool" where
  "wrong_password env sc pw w \<longleftrightarrow>
     (\<forall>m. local_meta sc w = Some m \<longrightarrow> (\<exists>e. verifyPassword (wc env) pw m = Inl e))"

lemma unlock_wrong:
  assumes a: "alone_local env" and m: "local_meta (getScope w) w = Some m"
    and v: "verifyPassword (wc env) pw m = Inl e"
  shows "unlock env pw w = (Inr (), w\<lparr>loading := False, error := Some (js ''Incorrect master password'')\<rparr>)"
  using assms
  by (simp add: unlock_def seq_def bind_def catch_def gets_def modify_def lift_sum_def local.loadMeta_law)

lemma vault_inv_opens: "vault_inv env sc pw ks w \<Longrightarrow> \<exists>k. opens env sc pw k ks w"
  by (auto simp: vault_inv_def)

lemma unlock_inv:
  assumes a: "alone_local env" and inv: "vault_inv env sc pw ks w"
    and pw': "pw' = pw \<or> wrong_password env sc pw' w" and run: "unlock env pw' w = (r, w')"
  shows "vault_inv env sc pw ks w'"
proof (cases "pw' = pw")
  case True
  obtain k where o: "opens env sc pw k ks w" and sc: "getScope w = sc" and wf: "list_all wf_key ks"
    using inv by (auto simp: vault_inv_def)
  have "localStorage w' = localStorage w" "status w' = Unlocked" "keys w' = ks" "sessionKey w' = Some k"
    "getScope w' = sc"
    using unlock_opens [OF a, of w pw k ks] o sc wf run True by auto
  then show ?thesis using o wf by (auto simp: vault_inv_def opens_def local_views)
next
  case False
  obtain m where m: "local_meta sc w = Some m" using inv by (auto simp: vault_inv_def opens_def)
  then obtain e where "verifyPassword (wc env) pw' m = Inl e"
    using pw' False by (auto simp: wrong_password_def)
  then show ?thesis
    using unlock_wrong [OF a, of w m pw' e] m inv run by (auto simp: vault_inv_def)
qed

lemma lock_inv: "vault_inv env sc pw ks w \<Longrightarrow> vault_inv env sc pw ks (lock w)"
  by (auto simp: vault_inv_def lock_def)

lemma onIdle_inv: "vault_inv env sc pw ks w \<Longrightarrow> vault_inv env sc pw ks (onIdle w)"
  by (auto simp: vault_inv_def onIdle_def)

lemma clearError_inv: "vault_inv env sc pw ks w \<Longrightarrow> vault_inv env sc pw ks (clearError w)"
  by (auto simp: vault_inv_def clearError_def)

lemma refreshStatus_inv:
  assumes a: "alone_local env" and inv: "vault_inv env sc pw ks w" and run: "refreshStatus env w = (r, w')"
  shows "vault_inv env sc pw ks w' \<and> status w' \<noteq> Uninitialized"
proof -
  obtain m where m: "local_meta sc w = Some m" using inv by (auto simp: vault_inv_def opens_def)
  have sc: "getScope w = sc" using inv by (simp add: vault_inv_def)
  show ?thesis
    using run a inv m sc
    by (auto simp: refreshStatus_def seq_def bind_def modify_def local.loadMeta_law loadSettings_alone
        vault_inv_def split: option.splits if_splits)
qed

lemma saveSettings_opens:
  assumes "local_saveSettings q sc s w = (r, w')"
  shows "opens env sc pw k ks w' = opens env sc pw k ks w"
proof -
  have "local_meta sc w' = local_meta sc w \<and> local_data sc w' = local_data sc w"
    using assms local_write_snd [of q "prefixKey VAULT_SETTINGS_KEY (scope_prefix sc)" "stringify (settings_json s)" w]
    by (auto simp: local_saveSettings_def local_views)
  then show ?thesis by (simp add: opens_def)
qed

lemma updateAutoLock_inv:
  assumes a: "alone_local env" and inv: "vault_inv env sc pw ks w"
    and run: "updateAutoLockSettings env t h w = (r, w')"
  shows "vault_inv env sc pw ks w'"
proof -
  have sc: "getScope w = sc" using inv by (simp add: vault_inv_def)
  define s where "s = \<lparr>autoLockTimeoutMinutes = (case t of Some t \<Rightarrow> t | None \<Rightarrow> autoLockTimeoutMinutes (settings w)),
      lockOnHidden = (case h of Some b \<Rightarrow> b | None \<Rightarrow> lockOnHidden (settings w))\<rparr>"
  obtain rs w1 where w1: "local_saveSettings (quota_of env) sc s w = (rs, w1)" by fastforce
  obtain st where st: "w1 = w\<lparr>localStorage := st\<rparr>" using local_write_shape(3) [OF w1] by blast
  show ?thesis
    using run a inv sc w1 saveSettings_opens [OF w1] st
    by (auto simp: updateAutoLockSettings_def s_def [symmetric] vault_inv_def Let_def split: sum.splits if_splits)
qed

definition wf_legacy :: "legacy_key \<Rightarrow> bool" where
  "wf_legacy e \<longleftrightarrow> code_units (legacy_name e) \<and> code_units (legacy_data e) \<and> code_units (legacy_fingerprint e)"

lemma wf_migrated:
  "list_all wf_legacy es \<Longrightarrow> (\<And>n. code_units (ids n)) \<Longrightarrow> code_units stamp \<Longrightarrow>
     list_all wf_key (migrateLegacyKeys ids stamp n es)"
  by (induction es arbitrary: n) (auto simp: wf_key_def wf_legacy_def)

lemma migrate_Nil [simp]: "(if 0 < length es then migrateLegacyKeys ids stamp 0 es else []) = migrateLegacyKeys ids stamp 0 es"
  by (cases es) auto

lemma legacy_store [simp]:
  "loadLegacyKeysFromStorage (w\<lparr>loading := a\<rparr>) = loadLegacyKeysFromStorage w"
  "loadLegacyKeysFromStorage (w\<lparr>error := b\<rparr>) = loadLegacyKeysFromStorage w"
  "loadLegacyKeysFromStorage (w\<lparr>sessionKey := c\<rparr>) = loadLegacyKeysFromStorage w"
  by (simp_all add: loadLegacyKeysFromStorage_def)

lemma vault_self: "\<exists>st md. w = w\<lparr>localStorage := st, storageMode := md\<rparr>"
  by (rule exI [of _ "localStorage w"], rule exI [of _ "storageMode w"]) simp

lemma mode_step:
  assumes "(case mode of None \<Rightarrow> ret () | Some md \<Rightarrow> (\<lambda>w. seq (setVaultStorageMode q md (getScope w))
      (modify (\<lambda>w. w\<lparr>storageMode := md\<rparr>)) w)) w = (r, w' :: ('s, 'k) vault)"
  shows "(\<exists>st md. w' = w\<lparr>localStorage := st, storageMode := md\<rparr>) \<and>
         loadLegacyKeysFromStorage w' = loadLegacyKeysFromStorage w"
proof (cases mode)
  case None
  then show ?thesis using assms
    by (auto simp: ret_def vault_self)
next
  case (Some md)
  have "LEGACY_KEYS_KEY \<noteq> modeKey sc" for sc
    by (simp add: LEGACY_KEYS_KEY_def modeKey_def VAULT_STORAGE_MODE_KEY_def js_def split: option.splits prod.splits)
  then show ?thesis using assms Some
    by (auto simp: seq_def bind_def modify_def setVaultStorageMode_def setItem_def loadLegacyKeysFromStorage_def
        split: set_result.splits intro: vault_self)
qed

lemma saveMeta_legacy:
  assumes "local_saveMeta q sc m w = (r, w')"
  shows "loadLegacyKeysFromStorage w' = loadLegacyKeysFromStorage w"
  using assms local_write_snd [of q "prefixKey VAULT_META_KEY (scope_prefix sc)" "stringify (meta_json m)" w]
  by (auto simp: local_saveMeta_def loadLegacyKeysFromStorage_def)

lemma clearLegacy_view [simp]:
  "opens env sc pw k ks (clearLegacyKeysFromStorage w) = opens env sc pw k ks w"
  "getScope (clearLegacyKeysFromStorage w) = getScope w" "status (clearLegacyKeysFromStorage w) = status w"
  "sessionKey (clearLegacyKeysFromStorage w) = sessionKey w" "keys (clearLegacyKeysFromStorage w) = keys w"
  "error (clearLegacyKeysFromStorage w) = error w"
  by (simp_all add: opens_def local_views clearLegacyKeysFromStorage_def removeItem_def prefixKey_distinct [symmetric])

lemma initialize_inv:
  assumes a: "alone_local env" and run: "initialize env slt vn nonce ids stamp pw mode w = (Inr (), w')"
    and ok: "error w' = None"
    and wf: "list_all wf_legacy (loadLegacyKeysFromStorage w)" "\<And>n. code_units (ids n)" "code_units stamp"
  shows "vault_inv env (getScope w) pw (keys w') w' \<and> status w' = Unlocked \<and>
         keys w' = migrateLegacyKeys ids stamp 0 (loadLegacyKeysFromStorage w)"
proof -
  let ?w = "w\<lparr>loading := True, error := None\<rparr>" and ?sc = "getScope w"
  let ?es = "loadLegacyKeysFromStorage w"
  let ?ks = "migrateLegacyKeys ids stamp 0 ?es"
  obtain w1 where m: "(case mode of None \<Rightarrow> ret () | Some md \<Rightarrow> (\<lambda>w. seq (setVaultStorageMode (quota_of env) md (getScope w))
      (modify (\<lambda>w. w\<lparr>storageMode := md\<rparr>)) w)) ?w = (Inr (), w1)"
    and b: "bind (gets (getBackend env)) (\<lambda>backend. catch
        (bind (await env 0 (lift_sum (createVaultMeta (wc env) slt vn pw))) (\<lambda>(meta, derivedKey).
         seq (await env 1 (be_saveMeta env backend meta))
         (seq (modify (\<lambda>w. w\<lparr>sessionKey := Some derivedKey\<rparr>))
         (bind (await env 2 (be_loadLegacyKeys backend)) (\<lambda>legacyKeys.
           let ks = (if length legacyKeys > 0 then migrateLegacyKeys ids stamp 0 legacyKeys else []) in
           seq (persistKeys env 3 nonce ks None)
           (seq (if length legacyKeys > 0 then await env 5 (be_clearLegacyKeys backend) else ret ())
           (seq (modify (\<lambda>w. w\<lparr>status := Unlocked, keys := ks, loading := False\<rparr>))
           (seq (loadSettingsIntoState env 6)
                (modify startTracker)))))))))
        (\<lambda>e. seq (catch (await env 7 (be_clear env backend)) (\<lambda>_. ret ()))
               (modify (\<lambda>w. w\<lparr>sessionKey := None, loading := False,
                  error := Some (err_message e (js ''Failed to create vault''))\<rparr>)))) w1 = (Inr (), w')"
    using run by (auto simp: initialize_def seq_ok modify_def)
  obtain st md where w1: "w1 = ?w\<lparr>localStorage := st, storageMode := md\<rparr>"
    and l1: "loadLegacyKeysFromStorage w1 = ?es"
    using mode_step [OF m] by auto
  have sc: "getScope w1 = ?sc" using w1 by simp
  obtain meta k w2 w3 w4 where c: "createVaultMeta (wc env) slt vn pw = Inr (meta, k)"
    and sm: "local_saveMeta (quota_of env) ?sc meta w1 = (Inr (), w2)"
    and p: "persistKeys env 3 nonce (migrateLegacyKeys ids stamp 0 (loadLegacyKeysFromStorage w2)) None
      (w2\<lparr>sessionKey := Some k\<rparr>) = (Inr (), w3)"
    and w4: "w4 = w3 \<or> w4 = clearLegacyKeysFromStorage w3"
    and w': "\<exists>s. w' = startTracker (w4\<lparr>status := Unlocked,
        keys := migrateLegacyKeys ids stamp 0 (loadLegacyKeysFromStorage w2), loading := False, settings := s\<rparr>)"
    using b a ok sc
    by (auto simp: bind_ok seq_ok catch_ok gets_def modify_def lift_sum_def ret_def be_loadLegacyKeys_def
        be_clearLegacyKeys_def loadSettings_alone Let_def split: if_splits prod.splits) (blast, metis migrateLegacyKeys.simps(1))
  have l2: "loadLegacyKeysFromStorage w2 = ?es" using saveMeta_legacy [OF sm] l1 by simp
  obtain st2 where w2: "w2 = w1\<lparr>localStorage := st2\<rparr>" using local_write_shape(2) [OF sm] by blast
  have vm: "valid_meta meta" by (rule created_valid [OF c])
  have v: "verifyPassword (wc env) pw meta = Inr k"
    using verify_created [OF _ c] a by (simp add: alone_local_def)
  have wk: "list_all wf_key ?ks" by (rule wf_migrated [OF wf])
  have m2: "local_meta ?sc w2 = Some meta" using local.saveMeta_law [OF sm vm] by simp
  have "getScope (w2\<lparr>sessionKey := Some k\<rparr>) = ?sc" using w2 sc by simp
  from persist_alone [OF a _ this _ wk p [unfolded l2]] m2
  obtain d store where "local_data ?sc w3 = Some d" "valid_data d" "local_meta ?sc w3 = Some meta"
    "decrypt (wc env) k d = Inr (stringify (keys_json ?ks))"
    and w3: "w3 = w2\<lparr>sessionKey := Some k, localStorage := store\<rparr>"
    by auto
  then have o: "opens env ?sc pw k ?ks w3" using v vm by (auto simp: opens_def)
  have "opens env ?sc pw k ?ks w4" "getScope w4 = ?sc" "sessionKey w4 = Some k"
    using w4 o w3 w2 sc by auto
  then show ?thesis using w' l2 wk by (auto simp: vault_inv_def)
qed

section \<open>Changing the master password\<close>

text \<open>The roll back can only restore what the browser lets it write.\<close>

definition restorable :: "('s, 'k) vault_env \<Rightarrow> scope \<Rightarrow> ('s, 'k) vault \<Rightarrow> bool" where
  "restorable env sc w \<longleftrightarrow> (\<forall>d st. local_data sc w = Some d \<longrightarrow>
     quota_of env st (prefixKey VAULT_DATA_KEY (scope_prefix sc)) (stringify (data_json d)) = Accepted)"

lemma accepted_write:
  "q (localStorage w) k v = Accepted \<Longrightarrow> fst (settle (safeSetItem q k v) w) = Inr ()"
  by (simp add: settle.simps safeSetItem_def setItem_def catch_def)

lemma write_back_data:
  assumes "catch (local_saveData q sc d) (\<lambda>_. ret ()) w = (r, w')" "valid_data d"
  shows "r = Inr () \<and> (\<exists>st. w' = w\<lparr>localStorage := st\<rparr>) \<and> local_meta sc w' = local_meta sc w \<and>
     (local_data sc w = Some d \<or>
      q (localStorage w) (prefixKey VAULT_DATA_KEY (scope_prefix sc)) (stringify (data_json d)) = Accepted \<longrightarrow>
      local_data sc w' = Some d)"
proof -
  obtain r1 w1 where s: "local_saveData q sc d w = (r1, w1)" by fastforce
  then have w1: "w' = w1" "r = Inr ()" using assms(1) by (auto simp: catch_def ret_def split: sum.splits)
  have acc: "q (localStorage w) (prefixKey VAULT_DATA_KEY (scope_prefix sc)) (stringify (data_json d)) = Accepted \<Longrightarrow> r1 = Inr ()"
    using accepted_write s by (metis fst_conv local_saveData_def)
  show ?thesis
  proof (cases r1)
    case (Inl e)
    then show ?thesis using local.saveData_err [OF s [unfolded Inl]] w1 acc local_write_shape(1) [OF s] by auto
  next
    case (Inr u)
    then have "local_saveData q sc d w = (Inr (), w1)" using s by simp
    from local.saveData_law [OF this assms(2)] show ?thesis using w1 local_write_shape(1) [OF s] by auto
  qed
qed

lemma write_back_meta:
  assumes "catch (local_saveMeta q sc m) (\<lambda>_. ret ()) w = (r, w')" "valid_meta m" "local_meta sc w = Some m"
  shows "r = Inr () \<and> (\<exists>st. w' = w\<lparr>localStorage := st\<rparr>) \<and> local_meta sc w' = Some m \<and>
     local_data sc w' = local_data sc w"
proof -
  obtain r1 w1 where s: "local_saveMeta q sc m w = (r1, w1)" by fastforce
  then have w1: "w' = w1" "r = Inr ()" using assms(1) by (auto simp: catch_def ret_def split: sum.splits)
  show ?thesis
  proof (cases r1)
    case (Inl e)
    then show ?thesis using local.saveMeta_err [OF s [unfolded Inl]] w1 assms(3) local_write_shape(2) [OF s] by auto
  next
    case (Inr u)
    then have "local_saveMeta q sc m w = (Inr (), w1)" using s by simp
    from local.saveMeta_law [OF this assms(2)] show ?thesis using w1 local_write_shape(2) [OF s] by auto
  qed
qed

lemma reencrypt_alone:
  assumes a: "alone_local env" and sc: "getScope w = sc" and ks: "keys w = ks" "list_all wf_key ks"
    and m: "local_meta sc w = Some m" "valid_meta m" and d: "local_data sc w = Some d" "valid_data d"
    and new: "createVaultMeta (wc env) slt vn npw = Inr (newMeta, newKey)"
    and run: "reencrypt env (LocalVaultBackend sc) nonce oldKey newKey m (Some d) newMeta w = (r, w')"
  shows "(r = Inr () \<and> (\<exists>st. w' = w\<lparr>sessionKey := Some newKey, localStorage := st\<rparr>) \<and>
            opens env sc npw newKey ks w') \<or>
         ((\<exists>e. r = Inl e) \<and> (\<exists>st. w' = w\<lparr>sessionKey := Some oldKey, localStorage := st\<rparr>) \<and>
            local_meta sc w' = Some m \<and> (restorable env sc w \<longrightarrow> local_data sc w' = Some d))"
proof -
  let ?w = "w\<lparr>sessionKey := Some newKey\<rparr>" and ?be = "LocalVaultBackend sc"
  obtain rp w1 where p: "persistKeys env 4 nonce ks (Some ?be) ?w = (rp, w1)" by fastforce
  have pa: "(\<exists>st. w1 = ?w\<lparr>localStorage := st\<rparr>) \<and> local_meta sc w1 = local_meta sc w \<and>
    (case rp of Inl e \<Rightarrow> w1 = ?w | Inr _ \<Rightarrow> \<exists>d. local_data sc w1 = Some d \<and> valid_data d \<and>
         decrypt (wc env) newKey d = Inr (stringify (keys_json ks)))"
    using persist_alone [OF a _ _ _ ks(2) p, of newKey sc] sc by simp
  obtain rm w2 where mm: "local_saveMeta (quota_of env) sc newMeta w1 = (rm, w2)" by fastforce
  have vm: "valid_meta newMeta" by (rule created_valid [OF new])
  have rollback: "(\<exists>e. r = Inl e) \<and> (\<exists>st. w' = w\<lparr>sessionKey := Some oldKey, localStorage := st\<rparr>) \<and>
      local_meta sc w' = Some m \<and> (restorable env sc w \<longrightarrow> local_data sc w' = Some d)"
    if w3: "\<exists>st. w3 = w\<lparr>sessionKey := Some newKey, localStorage := st\<rparr>" "local_meta sc w3 = Some m"
      and bk: "seq (modify (\<lambda>w. w\<lparr>sessionKey := Some oldKey\<rparr>))
        (seq (catch (local_saveData (quota_of env) sc d) (\<lambda>_. ret ()))
        (seq (catch (local_saveMeta (quota_of env) sc m) (\<lambda>_. ret ())) (throw e))) w3 = (r, w')" for w3 e
  proof -
    let ?w3 = "w3\<lparr>sessionKey := Some oldKey\<rparr>"
    obtain r4 w4 where e4: "catch (local_saveData (quota_of env) sc d) (\<lambda>_. ret ()) ?w3 = (r4, w4)" by fastforce
    note b4 = write_back_data [OF e4 d(2)]
    obtain r5 w5 where e5: "catch (local_saveMeta (quota_of env) sc m) (\<lambda>_. ret ()) w4 = (r5, w5)" by fastforce
    have b5: "r5 = Inr () \<and> (\<exists>st. w5 = w4\<lparr>localStorage := st\<rparr>) \<and> local_meta sc w5 = Some m \<and>
        local_data sc w5 = local_data sc w4"
      using write_back_meta [OF e5 m(2)] b4 w3(2) by simp
    have r: "r = Inl e" "w' = w5" using bk e4 e5 b4 b5 by (auto simp: seq_def bind_def modify_def throw_def)
    have "restorable env sc w \<longrightarrow> local_data sc w4 = Some d"
      using b4 d(1) by (auto simp: restorable_def)
    then show ?thesis using r b4 b5 w3(1) by auto
  qed
  show ?thesis
  proof (cases rp)
    case (Inl e)
    have "\<exists>st. ?w = w\<lparr>sessionKey := Some newKey, localStorage := st\<rparr>" by (rule exI [of _ "localStorage w"]) simp
    then show ?thesis
      using run a ks p pa Inl m by (intro disjI2 rollback [of ?w e])
        (auto simp: reencrypt_def seq_def bind_def catch_def gets_def modify_def)
  next
    case (Inr u)
    show ?thesis
    proof (cases rm)
      case (Inl e)
      then show ?thesis
        using run a ks p pa Inr m mm local.saveMeta_err [OF mm [unfolded Inl]]
        by (intro disjI2 rollback [of w1 e]) (auto simp: reencrypt_def seq_def bind_def catch_def gets_def modify_def)
    next
      case (Inr u2)
      then have ok: "local_saveMeta (quota_of env) sc newMeta w1 = (Inr (), w2)" using mm by simp
      have r: "r = Inr ()" "w' = w2"
        using run a ks p \<open>rp = Inr u\<close> ok by (auto simp: reencrypt_def seq_def bind_def catch_def gets_def modify_def)
      have v: "verifyPassword (wc env) npw newMeta = Inr newKey"
        using verify_created [OF _ new] a by (simp add: alone_local_def)
      have "opens env sc npw newKey ks w2"
        using pa \<open>rp = Inr u\<close> local.saveMeta_law [OF ok vm] v vm by (auto simp: opens_def)
      then show ?thesis using r pa local_write_shape(2) [OF ok] by auto
    qed
  qed
qed

lemma restorable_store [simp]:
  "restorable env sc (w\<lparr>loading := a\<rparr>) = restorable env sc w"
  "restorable env sc (w\<lparr>error := b\<rparr>) = restorable env sc w"
  by (simp_all add: restorable_def)

lemma change_inv:
  assumes a: "alone_local env" and inv: "vault_inv env sc pw ks w"
    and run: "changeMasterPassword env slt vn nonce cur npw w = (r, w')"
  shows "r = Inr () \<and>
    (error w' = None \<and> status w' = Unlocked \<and> vault_inv env sc npw ks w' \<or>
     error w' \<noteq> None \<and> status w' = status w \<and> (restorable env sc w \<longrightarrow> vault_inv env sc pw ks w'))"
proof -
  let ?w = "w\<lparr>loading := True, error := None\<rparr>" and ?be = "LocalVaultBackend sc"
  obtain k m d where o: "local_meta sc w = Some m" "local_data sc w = Some d" "valid_meta m" "valid_data d"
      "verifyPassword (wc env) pw m = Inr k" "decrypt (wc env) k d = Inr (stringify (keys_json ks))"
    and st: "if status w = Unlocked then sessionKey w = Some k \<and> keys w = ks else sessionKey w = None \<and> keys w = []"
    and sc: "getScope w = sc" and wf: "list_all wf_key ks"
    using inv by (auto simp: vault_inv_def opens_def)
  note unf = changeMasterPassword_def seq_def bind_def catch_def gets_def modify_def lift_sum_def
    local.loadMeta_law local.loadData_law
  show ?thesis
  proof (cases "status w = Unlocked")
    case False
    then show ?thesis using run a o(1) sc inv by (auto simp: unf vault_inv_def)
  next
    case True
    then have k: "sessionKey w = Some k" "keys w = ks" using st by auto
    show ?thesis
    proof (cases "verifyPassword (wc env) cur m")
      case (Inl e)
      then show ?thesis using run a o(1) sc inv True k by (auto simp: unf vault_inv_def)
    next
      case v: (Inr k')
      show ?thesis
      proof (cases "createVaultMeta (wc env) slt vn npw")
        case (Inl e)
        then show ?thesis using run a o(1) sc inv True k v by (auto simp: unf vault_inv_def)
      next
        case (Inr mk)
        then obtain nm nk where c: "createVaultMeta (wc env) slt vn npw = Inr (nm, nk)" by (cases mk) auto
        obtain rr w1 where re: "reencrypt env ?be nonce k nk m (Some d) nm ?w = (rr, w1)" by fastforce
        have fin: "r = Inr () \<and> w' = (case rr of Inr _ \<Rightarrow> w1\<lparr>loading := False\<rparr>
            | Inl e \<Rightarrow> w1\<lparr>loading := False, error := Some (err_message e (js ''Failed to change master password''))\<rparr>)"
          using run a o(1,2) sc True k v c re by (auto simp: unf split: sum.splits)
        have "getScope ?w = sc" "keys ?w = ks" "local_meta sc ?w = Some m" "local_data sc ?w = Some d"
          using sc k o by simp_all
        from reencrypt_alone [OF a this(1,2) wf this(3) o(3) this(4) o(4) c re] show ?thesis
        proof (elim disjE conjE exE)
          fix st assume "rr = Inr ()" "w1 = ?w\<lparr>sessionKey := Some nk, localStorage := st\<rparr>"
            "opens env sc npw nk ks w1"
          then show ?thesis using fin True k sc wf opens_cong [of w' w1] by (auto simp: vault_inv_def)
        next
          fix e st assume r: "rr = Inl e" "w1 = ?w\<lparr>sessionKey := Some k, localStorage := st\<rparr>"
            and v: "local_meta sc w1 = Some m" "restorable env sc ?w \<longrightarrow> local_data sc w1 = Some d"
          then have "restorable env sc w \<longrightarrow> opens env sc pw k ks w1" using o by (auto simp: opens_def)
          then show ?thesis using fin r True k sc wf opens_cong [of w' w1] by (auto simp: vault_inv_def)
        qed
      qed
    qed
  qed
qed

section \<open>Sessions\<close>

text \<open>
  \<open>session env sc pw ks w\<close>: the vault of scope \<open>sc\<close> was created and then used by any sequence of
  actions that leads to state \<open>w\<close>; \<open>pw\<close> is the master password last set and \<open>ks\<close> the keys the
  successful actions made. Actions that fail are steps too.
\<close>

inductive session :: "('s, 'k) vault_env \<Rightarrow> scope \<Rightarrow> jsstring \<Rightarrow> vault_key list \<Rightarrow> ('s, 'k) vault \<Rightarrow> bool"
  for env sc where
  created: "initialize env slt vn nonce ids stamp pw mode w = (Inr (), w') \<Longrightarrow> error w' = None \<Longrightarrow>
    getScope w = sc \<Longrightarrow> list_all wf_legacy (loadLegacyKeysFromStorage w) \<Longrightarrow> (\<And>n. code_units (ids n)) \<Longrightarrow>
    code_units stamp \<Longrightarrow>
    session env sc pw (migrateLegacyKeys ids stamp 0 (loadLegacyKeysFromStorage w)) w'"
| added: "session env sc pw ks w \<Longrightarrow> addKey env nonce i stamp e w = (r, w') \<Longrightarrow> wf_entry e \<Longrightarrow>
    code_units i \<Longrightarrow> code_units stamp \<Longrightarrow>
    session env sc pw (if r = Inr () then ks @ [new_key i stamp e] else ks) w'"
| updated: "session env sc pw ks w \<Longrightarrow> updateKey env nonce stamp i u w = (r, w') \<Longrightarrow> wf_updates u \<Longrightarrow>
    code_units stamp \<Longrightarrow>
    session env sc pw (if r = Inr () then map (\<lambda>k. if key_id k = i then merge_key stamp u k else k) ks else ks) w'"
| removed: "session env sc pw ks w \<Longrightarrow> removeKey env nonce i w = (r, w') \<Longrightarrow>
    session env sc pw (if r = Inr () then filter (\<lambda>k. key_id k \<noteq> i) ks else ks) w'"
| locked: "session env sc pw ks w \<Longrightarrow> session env sc pw ks (lock w)"
| idled: "session env sc pw ks w \<Longrightarrow> session env sc pw ks (onIdle w)"
| unlocked: "session env sc pw ks w \<Longrightarrow> unlock env pw' w = (r, w') \<Longrightarrow>
    pw' = pw \<or> wrong_password env sc pw' w \<Longrightarrow> session env sc pw ks w'"
| refreshed: "session env sc pw ks w \<Longrightarrow> refreshStatus env w = (r, w') \<Longrightarrow> session env sc pw ks w'"
| tuned: "session env sc pw ks w \<Longrightarrow> updateAutoLockSettings env t h w = (r, w') \<Longrightarrow> session env sc pw ks w'"
| cleared: "session env sc pw ks w \<Longrightarrow> session env sc pw ks (clearError w)"
| changed: "session env sc pw ks w \<Longrightarrow> changeMasterPassword env slt vn nonce cur npw w = (r, w') \<Longrightarrow>
    error w' = None \<Longrightarrow> session env sc npw ks w'"
| not_changed: "session env sc pw ks w \<Longrightarrow> changeMasterPassword env slt vn nonce cur npw w = (r, w') \<Longrightarrow>
    error w' \<noteq> None \<Longrightarrow> restorable env sc w \<Longrightarrow> session env sc pw ks w'"

lemma session_inv: "session env sc pw ks w \<Longrightarrow> alone_local env \<Longrightarrow> vault_inv env sc pw ks w"
proof (induction rule: session.induct)
  case (created slt vn nonce ids stamp pw mode w w')
  then show ?case using initialize_inv [OF created.prems created.hyps(1,2,4)] by auto
next
  case (changed pw ks w slt vn nonce cur npw r w')
  then show ?case using change_inv [OF changed.prems changed.IH [OF changed.prems] changed.hyps(2)] by blast
next
  case (not_changed pw ks w slt vn nonce cur npw r w')
  then show ?case using change_inv [OF not_changed.prems not_changed.IH [OF not_changed.prems] not_changed.hyps(2)] by auto
next
  case (added pw ks w nonce i stamp e r w')
  show ?case by (rule addKey_inv [OF added.prems added.IH [OF added.prems] added.hyps(3-5,2)])
next
  case (updated pw ks w nonce stamp i u r w')
  show ?case by (rule updateKey_inv [OF updated.prems updated.IH [OF updated.prems] updated.hyps(3,4,2)])
next
  case (removed pw ks w nonce i r w')
  show ?case by (rule removeKey_inv [OF removed.prems removed.IH [OF removed.prems] removed.hyps(2)])
next
  case (unlocked pw ks w pw' r w')
  show ?case by (rule unlock_inv [OF unlocked.prems unlocked.IH [OF unlocked.prems] unlocked.hyps(3,2)])
next
  case (refreshed pw ks w r w')
  show ?case
    using refreshStatus_inv [OF refreshed.prems refreshed.IH [OF refreshed.prems] refreshed.hyps(2)] by simp
next
  case (tuned pw ks w t h r w')
  show ?case by (rule updateAutoLock_inv [OF tuned.prems tuned.IH [OF tuned.prems] tuned.hyps(2)])
qed (simp_all add: lock_inv onIdle_inv clearError_inv)

section \<open>A concrete session\<close>

text \<open>A cipher that satisfies \<open>gcm_ok\<close>: the key is put before the text and checked.\<close>

definition toy_crypto :: "byte list webcrypto" where
  "toy_crypto = \<lparr>derive_key = (\<lambda>p s n. Inr (p @ s)), gcm_encrypt = (\<lambda>k n p. Inr (k @ p)),
     gcm_decrypt = (\<lambda>k n c. if take (length k) c = k then Inr (drop (length k) c) else Inl (OtherThrow []))\<rparr>"

definition toy_env :: "(vault_response option, byte list) vault_env" where
  "toy_env = \<lparr>wc = toy_crypto, api = memory_api, quota_of = accepting, serverEnabled = False, others = (\<lambda>n w. w)\<rparr>"

definition toy_vault :: "(vault_response option, byte list) vault" where
  "toy_vault = \<lparr>localStorage = Map.empty, server = None, versionRegistry = Map.empty, status = Uninitialized,
     keys = [], loading = False, error = None, settings = DEFAULT_VAULT_SETTINGS, autoLockNonce = 0,
     storageMode = Local, sessionKey = None, tracker_state = initial_tracker, now = 0,
     user = Some (js ''ann''), tenant = Some (js ''t1'')\<rparr>"

lemma toy_alone: "alone_local toy_env"
  by (auto simp: alone_local_def toy_env_def toy_crypto_def gcm_ok_def)

lemma parse_empty_array: "JSON_parse (js ''[]'') = Some (JArr [])"
  using parse_stringify [of "JArr []"] by (simp add: js_def)

lemma toy_legacy: "loadLegacyKeysFromStorage toy_vault = []"
  by (simp add: loadLegacyKeysFromStorage_def toy_vault_def parse_empty_array List.map_filter_def)

lemma accepting_write [simp]:
  "settle (safeSetItem accepting k v) w = (Inr (), w\<lparr>localStorage := (localStorage w)(k \<mapsto> v)\<rparr>)"
  by (simp add: settle.simps safeSetItem_def setItem_def accepting_def catch_def)

definition toy_created :: "(vault_response option, byte list) vault" where
  "toy_created = snd (initialize toy_env [1] [2] [3] (\<lambda>n. []) [] (js ''secret'') None toy_vault)"

lemma toy_initialize:
  "initialize toy_env [1] [2] [3] (\<lambda>n. []) [] (js ''secret'') None toy_vault = (Inr (), toy_created) \<and>
   error toy_created = None"
proof -
  have leg: "loadLegacyKeysFromStorage (toy_vault\<lparr>loading := True, error := None,
      localStorage := [prefixKey VAULT_META_KEY p \<mapsto> v], sessionKey := k\<rparr>) = []" for v p k
    by (simp add: loadLegacyKeysFromStorage_def toy_vault_def parse_empty_array List.map_filter_def)
  have emp: "localStorage toy_vault = Map.empty" "error toy_vault = None" by (simp_all add: toy_vault_def)
  obtain m k where c: "createVaultMeta toy_crypto [1] [2] (js ''secret'') = Inr (m, k)"
    by (simp add: createVaultMeta_def deriveKey_def toy_crypto_def)
  have e: "\<exists>d. encrypt toy_crypto [3] k t = Inr d" for t by (simp add: encrypt_def toy_crypto_def)
  obtain d where d: "encrypt toy_crypto [3] k (stringify (keys_json [])) = Inr d" using e by blast
  have env: "wc toy_env = toy_crypto" "quota_of toy_env = accepting" by (simp_all add: toy_env_def)
  have "\<exists>w'. initialize toy_env [1] [2] [3] (\<lambda>n. []) [] (js ''secret'') None toy_vault = (Inr (), w') \<and> error w' = None"
    using toy_alone c d leg emp
    by (simp add: initialize_def seq_def bind_def catch_def gets_def modify_def lift_sum_def ret_def env
        local_saveMeta_def local_saveData_def be_loadLegacyKeys_def persistKeys_def loadSettings_alone)
  then show ?thesis by (auto simp: toy_created_def)
qed

lemma toy_session_created: "session toy_env (getScope toy_vault) (js ''secret'') [] toy_created"
  using session.created [OF toy_initialize [THEN conjunct1] toy_initialize [THEN conjunct2] refl] toy_legacy
  by (simp add: code_units_def)

definition toy_entry :: key_entry where
  "toy_entry = \<lparr>entry_name = js ''laptop'', entry_data = js ''PEM'', entry_hasPassphrase = False,
     entry_fingerprint = js ''aa:bb'', entry_algorithm = Some (js ''ed25519'')\<rparr>"

definition toy_added :: "(vault_response option, byte list) vault" where
  "toy_added = snd (addKey toy_env [4] (js ''id-1'') (js ''2026'') toy_entry toy_created)"

lemma toy_add: "addKey toy_env [4] (js ''id-1'') (js ''2026'') toy_entry toy_created = (Inr (), toy_added)"
proof -
  have "status toy_created = Unlocked"
    using initialize_inv [OF toy_alone toy_initialize [THEN conjunct1] toy_initialize [THEN conjunct2]] toy_legacy
    by (simp add: code_units_def)
  then obtain k where k: "keys toy_created = []" "sessionKey toy_created = Some k"
    using session_inv [OF toy_session_created toy_alone] by (auto simp: vault_inv_def)
  have e: "\<exists>d. encrypt toy_crypto n k t = Inr d" for n t by (simp add: encrypt_def toy_crypto_def)
  obtain d where d: "encrypt toy_crypto [4] k (stringify (keys_json [new_key (js ''id-1'') (js ''2026'') toy_entry])) = Inr d"
    using e by blast
  have "fst (addKey toy_env [4] (js ''id-1'') (js ''2026'') toy_entry toy_created) = Inr ()"
    using toy_alone k d
    by (simp add: addKey_def seq_def bind_def gets_def lift_sum_def checkDuplicates_def commit_keys_def persistKeys_def
        local_saveData_def modify_def toy_env_def)
  then show ?thesis by (simp add: toy_added_def prod_eq_iff)
qed

lemma toy_created_keys: "keys toy_created = []" "status toy_created = Unlocked"
  using initialize_inv [OF toy_alone toy_initialize [THEN conjunct1] toy_initialize [THEN conjunct2]] toy_legacy
  by (simp_all add: code_units_def)

lemma toy_session:
  "session toy_env (getScope toy_vault) (js ''secret'') [new_key (js ''id-1'') (js ''2026'') toy_entry] toy_added"
  using session.added [OF toy_session_created toy_add] by (simp add: wf_entry_def toy_entry_def)

section \<open>Properties of a vault in the browser\<close>

text \<open>
  C1: The vault gives back exactly the keys that were put in it. After any sequence of creating, adding,
  updating, removing, locking, unlocking, refreshing, settings and password changes, locking the vault and
  unlocking it with the current master password yields the keys the successful actions made, in order,
  with the vault unlocked and no error.
\<close>

theorem unlock_recovers_keys:
  assumes "alone_local env" and "session env sc pw ks w"
  shows "\<exists>w'. unlock env pw (lock w) = (Inr (), w') \<and> status w' = Unlocked \<and> keys w' = ks \<and>
              sessionKey w' \<noteq> None \<and> error w' = None"
proof -
  have inv: "vault_inv env sc pw ks (lock w)" using session_inv [OF assms(2,1)] by (rule lock_inv)
  then obtain k where "opens env (getScope (lock w)) pw k ks (lock w)" "list_all wf_key ks"
    by (auto simp: vault_inv_def)
  from unlock_opens [OF assms(1) this] show ?thesis by auto
qed

theorem unlock_recovers_keys_witness:
  "\<exists>w'. unlock toy_env (js ''secret'') (lock toy_added) = (Inr (), w') \<and> status w' = Unlocked \<and>
        keys w' = [new_key (js ''id-1'') (js ''2026'') toy_entry]"
  using unlock_recovers_keys [OF toy_alone toy_session] by blast





text \<open>
  A wrong master password changes nothing. Unlocking with a password that does not verify leaves the
  storage, the status, the session key and the keys as they are and reports the error.
\<close>

theorem unlock_wrong_password:
  assumes "alone_local env" and "session env sc pw ks w" and "wrong_password env sc pw' w"
  shows "unlock env pw' w = (Inr (), w\<lparr>loading := False, error := Some (js ''Incorrect master password'')\<rparr>)"
proof -
  have inv: "vault_inv env sc pw ks w" by (rule session_inv [OF assms(2,1)])
  then obtain m where m: "local_meta (getScope w) w = Some m" and sc: "getScope w = sc"
    by (auto simp: vault_inv_def opens_def)
  then obtain e where "verifyPassword (wc env) pw' m = Inl e"
    using assms(3) by (auto simp: wrong_password_def)
  from unlock_wrong [OF assms(1) m this] show ?thesis .
qed

lemma toy_verify_differs:
  assumes ok: "verifyPassword toy_crypto (js ''secret'') m = Inr k"
  shows "\<exists>e. verifyPassword toy_crypto (js ''wrong'') m = Inl e"
proof -
  obtain a b where s: "utf8_encode (js ''secret'') = 115 # a" and t: "utf8_encode (js ''wrong'') = 119 # b"
    by (simp add: utf8_encode_def js_def utf8_point_def high_surrogate_def low_surrogate_def)
  have "False" if ok': "verifyPassword toy_crypto (js ''wrong'') m = Inr k'" for k'
  proof (cases "fromBase64 (verifier m)")
    case (Inr c)
    obtain sl n where sl: "fromBase64 (salt m) = Inr sl" "fromBase64 (verifierIv m) = Inr n"
      using ok by (cases "fromBase64 (salt m)"; cases "fromBase64 (verifierIv m)")
        (auto simp: verifyPassword_def deriveKey_def toy_crypto_def)
    have "take (Suc (length (a @ sl))) c = 115 # a @ sl" "take (Suc (length (b @ sl))) c = 119 # b @ sl"
      using ok ok' sl Inr s t by (auto simp: verifyPassword_def deriveKey_def toy_crypto_def split: if_splits)
    then show False by (cases c) auto
  qed (use ok in \<open>auto simp: verifyPassword_def deriveKey_def toy_crypto_def split: sum.splits\<close>)
  then show ?thesis by (cases "verifyPassword toy_crypto (js ''wrong'') m") auto
qed

lemma toy_wrong: "wrong_password toy_env (getScope toy_vault) (js ''wrong'') toy_added"
  using session_inv [OF toy_session toy_alone] toy_verify_differs
  by (auto simp: wrong_password_def vault_inv_def opens_def toy_env_def)

theorem unlock_wrong_password_witness:
  "unlock toy_env (js ''wrong'') toy_added =
     (Inr (), toy_added\<lparr>loading := False, error := Some (js ''Incorrect master password'')\<rparr>)"
  by (rule unlock_wrong_password [OF toy_alone toy_session toy_wrong])

end
