(* ===== verification/VaultRaces.thy ===== *)
theory VaultRaces
  imports VaultSession
begin

text \<open>
  The vault store when other code runs at its awaits: the automatic lock, another action, another tab.
  \<open>others env\<close> is arbitrary here, and the backend may be the server.
\<close>

section \<open>Duplicates\<close>

definition unique_keys :: "vault_key list \<Rightarrow> bool" where
  "unique_keys ks \<longleftrightarrow> distinct (map key_name ks) \<and> distinct (map fingerprint ks) \<and> distinct (map key_id ks)"

lemma checkDuplicates_ok:
  "checkDuplicates ks n f x = Inr () \<longleftrightarrow>
     (\<forall>k \<in> set ks. x \<noteq> Some (key_id k) \<longrightarrow> n \<noteq> Some (key_name k) \<and> f \<noteq> Some (fingerprint k))"
  by (cases n; cases f) (auto simp: checkDuplicates_def Let_def list_ex_iff)

lemma unique_add:
  assumes "unique_keys ks" "i \<notin> key_id ` set ks"
    and "checkDuplicates ks (Some (entry_name e)) (Some (entry_fingerprint e)) None = Inr ()"
  shows "unique_keys (ks @ [new_key i stamp e])"
  using assms by (auto simp: unique_keys_def checkDuplicates_ok new_key_def)

lemma unique_update:
  assumes "unique_keys ks" "checkDuplicates ks (upd_name u) (upd_fingerprint u) (Some i) = Inr ()"
  shows "unique_keys (map (\<lambda>k. if key_id k = i then merge_key stamp u k else k) ks)"
proof -
  let ?f = "\<lambda>k. if key_id k = i then merge_key stamp u k else k"
  have d: "distinct ks" using assms(1) by (auto simp: unique_keys_def distinct_map)
  have idf: "key_id (?f k) = key_id k" for k by (simp add: merge_key_def)
  have inj: "inj_on (g \<circ> ?f) (set ks)"
    if g: "inj_on g (set ks)" and m: "\<And>k. g (merge_key stamp u k) = g k \<or> (\<forall>k' \<in> set ks. key_id k' \<noteq> i \<longrightarrow> g (merge_key stamp u k) \<noteq> g k')"
    for g :: "vault_key \<Rightarrow> jsstring"
  proof (rule inj_onI)
    fix a b assume a: "a \<in> set ks" and b: "b \<in> set ks" and eq: "(g \<circ> ?f) a = (g \<circ> ?f) b"
    have same: "key_id a = i \<Longrightarrow> key_id b = i \<Longrightarrow> a = b"
      using assms(1) a b by (auto simp: unique_keys_def distinct_map inj_on_def)
    have half: "x = y" if "x \<in> set ks" "y \<in> set ks" "key_id x = i" "key_id y \<noteq> i" "g (merge_key stamp u x) = g y" for x y
      using m [of x] that inj_onD [OF g, of x y] by auto
    show "a = b"
    proof (cases "key_id a = i"; cases "key_id b = i")
      assume "key_id a \<noteq> i" "key_id b \<noteq> i"
      then show ?thesis using eq inj_onD [OF g _ a b] by simp
    qed (use eq a b same half [of a b] half [of b a] in auto)
  qed
  have "inj_on (key_name \<circ> ?f) (set ks)"
    by (rule inj) (use assms in \<open>auto simp: unique_keys_def distinct_map checkDuplicates_ok merge_key_def split: option.splits\<close>)
  moreover have "inj_on (fingerprint \<circ> ?f) (set ks)"
    by (rule inj) (use assms in \<open>auto simp: unique_keys_def distinct_map checkDuplicates_ok merge_key_def split: option.splits\<close>)
  moreover have "map key_id (map ?f ks) = map key_id ks" using idf by simp
  ultimately show ?thesis
    using d assms(1) by (simp add: unique_keys_def distinct_map [of key_id] del: map_map) (simp add: distinct_map)
qed

section \<open>What the backends leave alone\<close>

text \<open>The part of the state a vault must protect: the status, the decrypted keys and the session key.\<close>

definition memory :: "('s, 'k) vault \<Rightarrow> vault_status \<times> vault_key list \<times> 'k option" where
  "memory w = (status w, keys w, sessionKey w)"

lemma memory_browser [simp]:
  "memory (w\<lparr>localStorage := a\<rparr>) = memory w" "memory (w\<lparr>server := b\<rparr>) = memory w"
  "memory (w\<lparr>versionRegistry := c\<rparr>) = memory w" "memory (w\<lparr>loading := d\<rparr>) = memory w"
  "memory (w\<lparr>error := e\<rparr>) = memory w" "memory (w\<lparr>settings := f\<rparr>) = memory w"
  "memory (w\<lparr>tracker_state := g\<rparr>) = memory w" "memory (w\<lparr>storageMode := h\<rparr>) = memory w"
  by (simp_all add: memory_def)

lemma keeps_memory_server [intro, simp]:
  "keeps memory (call f)" "keeps memory (track sc v)" "keeps memory (accept_write sc e r)"
  by (auto simp: keeps_def call_def track_def accept_write_def modify_def throw_def Let_def
      split: prod.splits option.splits)

lemma keeps_memory_fetch [intro, simp]: "keeps memory (server_fetch a sc)"
  unfolding server_fetch_def by (intro keeps_bind) (auto split: option.splits)

lemma keeps_memory_saveData [intro, simp]: "keeps memory (be_saveData env be d)"
proof (cases be)
  case (LocalVaultBackend sc)
  have "memory (snd (local_saveData (quota_of env) sc d w)) = memory w" for w :: "('a, 'b) vault"
    using local_write_snd [of "quota_of env" "prefixKey VAULT_DATA_KEY (scope_prefix sc)" "stringify (data_json d)" w]
    by (auto simp: local_saveData_def)
  then show ?thesis using LocalVaultBackend by (simp add: keeps_def)
next
  case (ServerVaultBackend sc)
  have "keeps memory (server_saveData (api env) sc d)"
    unfolding server_saveData_def by (intro keeps_bind) auto
  then show ?thesis using ServerVaultBackend by simp
qed

definition kept_by_others :: "('s, 'k) vault_env \<Rightarrow> (vault_status \<times> vault_key list \<times> 'k option \<Rightarrow> bool) \<Rightarrow> bool" where
  "kept_by_others env P \<longleftrightarrow> (\<forall>n w. P (memory w) \<longrightarrow> P (memory (others env n w)))"

lemma await_respects:
  assumes "kept_by_others env P" "keeps memory m" "P (memory w)" "await env n m w = (r, w')"
  shows "P (memory w')"
proof -
  obtain r1 w1 where m: "m w = (r1, w1)" by fastforce
  then have "memory w1 = memory w" by (rule keepsD [OF assms(2)])
  then show ?thesis using assms m by (auto simp: await_def kept_by_others_def)
qed

lemma keeps_lift_sum [intro, simp]: "keeps f (lift_sum r)"
  by (simp add: keeps_def lift_sum_def)

lemma persist_respects:
  assumes "kept_by_others env P" "P (memory w)" "persistKeys env n nonce ks be w = (r, w')"
  shows "P (memory w')"
proof (cases "sessionKey w")
  case (Some k)
  obtain r1 w1 where e: "await env n (lift_sum (encrypt (wc env) nonce k (stringify (keys_json ks)))) w = (r1, w1)"
    by fastforce
  have P1: "P (memory w1)" by (rule await_respects [OF assms(1) keeps_lift_sum assms(2) e])
  show ?thesis
  proof (cases r1)
    case (Inr d)
    then have s: "await env (Suc n) (be_saveData env (case be of Some b \<Rightarrow> b | None \<Rightarrow> getBackend env w) d) w1 = (r, w')"
      using assms(3) Some e by (simp add: persistKeys_def bind_def)
    show ?thesis by (rule await_respects [OF assms(1) keeps_memory_saveData P1 s])
  qed (use assms(3) Some e P1 in \<open>auto simp: persistKeys_def bind_def\<close>)
qed (use assms in \<open>auto simp: persistKeys_def\<close>)

text \<open>A key action ends with its new list in the store only if the vault is unlocked at that moment.\<close>

lemma commit_respects:
  assumes "kept_by_others env P" "P (memory w)" "commit_keys env nonce ks w = (r, w')"
  shows "(\<exists>w1. P (memory w1) \<and> w' = w1) \<or>
    (\<exists>w1. P (memory w1) \<and> status w1 = Unlocked \<and> w' = w1\<lparr>keys := ks\<rparr>)"
proof -
  obtain rp w1 where p: "persistKeys env 0 nonce ks None w = (rp, w1)" by fastforce
  have "P (memory w1)" by (rule persist_respects [OF assms(1,2) p])
  then show ?thesis using assms(3) p
    by (cases rp) (auto simp: commit_keys_def seq_def bind_def modify_def split: if_splits)
qed

section \<open>Properties\<close>

text \<open>
  C21: Names, fingerprints and ids of the stored keys stay unique. Adding a key under a fresh id and updating a
  key keep the key list free of duplicates, on every outcome and whatever other actions run at the awaits, as
  long as those keep it too.
\<close>

theorem key_actions_keep_unique:
  assumes "unique_keys (keys w)" and "\<forall>n v. unique_keys (keys v) \<longrightarrow> unique_keys (keys (others env n v))"
    and "addKey env nonce i stamp e w = (r, w') \<and> i \<notin> key_id ` set (keys w) \<or>
         updateKey env nonce stamp i u w = (r, w') \<or> removeKey env nonce i w = (r, w')"
  shows "unique_keys (keys w')"
proof -
  have resp: "kept_by_others env (\<lambda>(s, ks, k). unique_keys ks)" using assms(2) by (simp add: kept_by_others_def memory_def)
  have com: "unique_keys (keys w')" if "commit_keys env nonce ks w = (r, w')" "unique_keys ks" for ks
    using commit_respects [OF resp _ that(1)] assms(1) that(2) by (auto simp: memory_def)
  from assms(3) show ?thesis
  proof (elim disjE conjE)
    assume "addKey env nonce i stamp e w = (r, w')" and new: "i \<notin> key_id ` set (keys w)"
    then show ?thesis using com unique_add [OF assms(1) new] assms(1)
      by (cases "checkDuplicates (keys w) (Some (entry_name e)) (Some (entry_fingerprint e)) None")
         (auto simp: addKey_def bind_def seq_def gets_def lift_sum_def)
  next
    assume "updateKey env nonce stamp i u w = (r, w')"
    then show ?thesis using com unique_update [OF assms(1)] assms(1)
      by (cases "checkDuplicates (keys w) (upd_name u) (upd_fingerprint u) (Some i)")
         (auto simp: updateKey_def bind_def seq_def gets_def lift_sum_def throw_def split: if_splits)
  next
    assume "removeKey env nonce i w = (r, w')"
    moreover have "unique_keys (filter (\<lambda>k. key_id k \<noteq> i) (keys w))"
      using assms(1) by (auto simp: unique_keys_def distinct_map_filter)
    ultimately show ?thesis using com assms(1)
      by (auto simp: removeKey_def bind_def gets_def throw_def split: if_splits)
  qed
qed

theorem key_actions_keep_unique_witness:
  "unique_keys (keys toy_added)"
  using key_actions_keep_unique [of toy_created toy_env "[4]" "js ''id-1''" "js ''2026''" toy_entry "Inr ()" toy_added]
    toy_add toy_created_keys
  by (simp add: unique_keys_def toy_env_def)

text \<open>
  C3: A lock during a key action is final. Whatever runs at the awaits of adding, updating or removing a key,
  if it never leaves decrypted keys or a session key behind a locked vault, neither does the action: an
  automatic lock that fires while the keys are being written is not undone by the write's completion.
\<close>

theorem key_actions_respect_lock:
  assumes "status w \<noteq> Unlocked \<longrightarrow> keys w = [] \<and> sessionKey w = None"
    and "\<forall>n v. (status v \<noteq> Unlocked \<longrightarrow> keys v = [] \<and> sessionKey v = None) \<longrightarrow>
           (status (others env n v) \<noteq> Unlocked \<longrightarrow> keys (others env n v) = [] \<and> sessionKey (others env n v) = None)"
    and "addKey env nonce i stamp e w = (r, w') \<or> updateKey env nonce stamp i u w = (r, w') \<or>
         removeKey env nonce i w = (r, w')"
  shows "status w' \<noteq> Unlocked \<longrightarrow> keys w' = [] \<and> sessionKey w' = None"
proof -
  let ?P = "\<lambda>(s, ks, k). s \<noteq> Unlocked \<longrightarrow> ks = [] \<and> k = None"
  have resp: "kept_by_others env ?P" using assms(2) by (simp add: kept_by_others_def memory_def)
  consider ks where "commit_keys env nonce ks w = (r, w')" | "w' = w"
    using assms(3)
    by (auto simp: addKey_def updateKey_def removeKey_def bind_def seq_def gets_def lift_sum_def throw_def
        split: if_splits sum.splits)
  then show ?thesis
  proof cases
    case 1
    from commit_respects [OF resp _ 1] assms(1) show ?thesis by (auto simp: memory_def)
  qed (use assms(1) in simp)
qed

definition idle_env :: "(vault_response option, byte list) vault_env" where
  "idle_env = toy_env\<lparr>others := \<lambda>n. onIdle\<rparr>"

lemma onIdle_locks: "status w \<noteq> Uninitialized \<Longrightarrow> status (onIdle w) = Locked"
  by (cases "status w") (auto simp: onIdle_def)

lemma idle_add_locked:
  "status (snd (addKey idle_env [4] (js ''id-1'') (js ''2026'') toy_entry toy_created)) = Locked"
proof -
  obtain k where k: "keys toy_created = []" "sessionKey toy_created = Some k" "status toy_created = Unlocked"
    using session_inv [OF toy_session_created toy_alone] toy_created_keys by (auto simp: vault_inv_def)
  have e: "\<exists>d. encrypt toy_crypto n k t = Inr d" for n t by (simp add: encrypt_def toy_crypto_def)
  obtain d where d: "encrypt toy_crypto [4] k (stringify (keys_json [new_key (js ''id-1'') (js ''2026'') toy_entry])) = Inr d"
    using e by blast
  show ?thesis using k d
    by (simp add: addKey_def seq_def bind_def gets_def lift_sum_def checkDuplicates_def commit_keys_def persistKeys_def
        local_saveData_def modify_def idle_env_def toy_env_def await_def getBackend_def getVaultBackend_def
        getVaultStorageMode_def onIdle_def)
qed

theorem key_actions_respect_lock_witness:
  "keys (snd (addKey idle_env [4] (js ''id-1'') (js ''2026'') toy_entry toy_created)) = [] \<and>
   sessionKey (snd (addKey idle_env [4] (js ''id-1'') (js ''2026'') toy_entry toy_created)) = None"
  using key_actions_respect_lock [of toy_created idle_env "[4]" "js ''id-1''" "js ''2026''" toy_entry
      "fst (addKey idle_env [4] (js ''id-1'') (js ''2026'') toy_entry toy_created)"
      "snd (addKey idle_env [4] (js ''id-1'') (js ''2026'') toy_entry toy_created)"]
    idle_add_locked toy_created_keys
  by (simp add: idle_env_def onIdle_def)

section \<open>A lock during a password change\<close>

text \<open>
  \<open>changeMasterPassword\<close> checks that the vault is still unlocked after \<open>createVaultMeta\<close>, but
  then awaits \<open>loadData\<close> before it reads the keys it re-encrypts. With the vault on the server that await is a
  request: an automatic lock that fires meanwhile empties the key list, and the empty list is written over the
  stored keys. The state below is an unlocked server vault with one key.
\<close>

definition race_env :: "(vault_response option, byte list) vault_env" where
  "race_env = \<lparr>wc = toy_crypto, api = memory_api, quota_of = accepting, serverEnabled = True,
     others = (\<lambda>n. if n = 3 then onIdle else (\<lambda>w. w))\<rparr>"

definition race_key :: vault_key where
  "race_key = new_key (js ''id-1'') (js ''2026'') toy_entry"

definition race_vault :: "vault_meta \<Rightarrow> byte list \<Rightarrow> vault_data \<Rightarrow> (vault_response option, byte list) vault" where
  "race_vault m k d = toy_vault\<lparr>server := Some \<lparr>vmeta = Some (stringify (meta_json m)),
       vdata = Some (stringify (data_json d)), vsettings = None, vversion = Some 2\<rparr>,
     versionRegistry := [scopeKey (getScope toy_vault) \<mapsto> 2],
     status := Unlocked, keys := [race_key], sessionKey := Some k\<rparr>"

theorem change_password_race_loses_keys:
  assumes c: "createVaultMeta toy_crypto [1] [2] (js ''secret'') = Inr (m, k)"
    and d: "encrypt toy_crypto [3] k (stringify (keys_json [race_key])) = Inr d"
    and c': "createVaultMeta toy_crypto [5] [6] (js ''better'') = Inr (m', k')"
    and d': "encrypt toy_crypto [7] k' (stringify (keys_json [])) = Inr d'"
  shows "\<exists>w'. changeMasterPassword race_env [5] [6] [7] (js ''secret'') (js ''better'') (race_vault m k d) = (Inr (), w') \<and>
     error w' = None \<and> status w' = Locked \<and>
     Option.bind (server w') vmeta = Some (stringify (meta_json m')) \<and>
     Option.bind (server w') vdata = Some (stringify (data_json d'))"
proof -
  have ok: "gcm_ok toy_crypto" using toy_alone by (simp add: alone_local_def toy_env_def)
  have vm: "valid_meta m" by (rule created_valid [OF c])
  have vd: "valid_data d" by (rule encrypt_valid [OF d])
  have v: "verifyPassword toy_crypto (js ''secret'') m = Inr k" by (rule verify_created [OF ok c])
  have sc: "getScope (toy_vault\<lparr>localStorage := a, server := b, versionRegistry := g\<rparr>) = getScope toy_vault" for a b g
    by (simp add: getScope_def)
  show ?thesis
    using c c' d' v vm vd
    by (simp add: changeMasterPassword_def race_env_def race_vault_def toy_vault_def seq_def bind_def catch_def gets_def modify_def
        lift_sum_def ret_def await_def getBackend_def getVaultBackend_def getVaultStorageMode_def localVaultExists_def
        getScope_def js_def scopeKey_def scope_prefix_def
        server_loadMeta_def server_fetch_def call_def memory_defs statusOf_def track_def server_loadData_def
        parseVaultMeta_written parseVaultData_written reencrypt_def persistKeys_def server_saveData_def server_version_def
        server_saveMeta_def accept_write_def onIdle_def throw_def Let_def)
qed

end
