(* ===== verification/ListParams.thy ===== *)
theory ListParams
  imports JsBase
begin

text \<open>
  The state of a paginated list in the URL: the pure readers and writers of
  \<open>hooks/paginatedListParams.ts\<close> and the setters of \<open>hooks/usePaginatedListState.ts\<close>. A
  \<open>URLSearchParams\<close> is its list of pairs; a parameters object is a map from keys to values.
  A setter is the function it passes to \<open>setSearchParams\<close>, from the committed URL to the next one.
\<close>

section \<open>URLSearchParams\<close>

type_synonym search_params = "(jsstring \<times> jsstring) list"

definition sp_getAll :: "jsstring \<Rightarrow> search_params \<Rightarrow> jsstring list" where
  "sp_getAll k sp = map snd (filter (\<lambda>p. fst p = k) sp)"

definition sp_get :: "jsstring \<Rightarrow> search_params \<Rightarrow> jsstring option" where
  "sp_get k sp = (case sp_getAll k sp of [] \<Rightarrow> None | v # _ \<Rightarrow> Some v)"

definition sp_append :: "jsstring \<Rightarrow> jsstring \<Rightarrow> search_params \<Rightarrow> search_params" where
  "sp_append k v sp = sp @ [(k, v)]"

definition sp_delete :: "jsstring \<Rightarrow> search_params \<Rightarrow> search_params" where
  "sp_delete k sp = filter (\<lambda>p. fst p \<noteq> k) sp"

fun sp_set :: "jsstring \<Rightarrow> jsstring \<Rightarrow> search_params \<Rightarrow> search_params" where
  "sp_set k v [] = [(k, v)]"
| "sp_set k v ((k', v') # sp) = (if k' = k then (k, v) # sp_delete k sp else (k', v') # sp_set k v sp)"

section \<open>Parameters\<close>

text \<open>A dimension is a number, a text or a list of texts; numbers are integers wherever they are read.\<close>

datatype param = PNum int | PStr jsstring | PArr "jsstring list"

type_synonym params = "jsstring \<rightharpoonup> param"
type_synonym defaults = "(jsstring \<times> param) list"
type_synonym constraints = "jsstring \<rightharpoonup> param list"

definition parsePositiveInt :: "jsstring option \<Rightarrow> int option" where
  "parsePositiveInt raw = (case raw of
      None \<Rightarrow> None
    | Some t \<Rightarrow> (case toNumber t of
        Fin q \<Rightarrow> if \<not> isInteger (Fin q) \<or> q \<le> 0 then None else Some \<lfloor>q\<rfloor>
      | _ \<Rightarrow> None))"

text \<open>The value of one key: the body of the loop of \<open>parseListParams\<close>. \<open>prev\<close> is the previous
  result, whose array is kept when it has the same elements.\<close>

definition parse_dim :: "search_params \<Rightarrow> constraints \<Rightarrow> params option \<Rightarrow> jsstring \<Rightarrow> param \<Rightarrow> param" where
  "parse_dim sp con prev key dflt = (case dflt of
      PArr _ \<Rightarrow>
        (let all = sp_getAll key sp;
             values = dedupe (case con key of None \<Rightarrow> all | Some allow \<Rightarrow> filter (\<lambda>v. PStr v \<in> set allow) all)
         in case Option.bind prev (\<lambda>p. p key) of
              Some (PArr prevArr) \<Rightarrow>
                if length prevArr = length values \<and> list_all (\<lambda>v. v \<in> set prevArr) values
                then PArr prevArr else PArr values
            | _ \<Rightarrow> PArr values)
    | _ \<Rightarrow>
        if key = js ''page'' then
          (case parsePositiveInt (sp_get key sp) of Some n \<Rightarrow> PNum n | None \<Rightarrow> dflt)
        else (case dflt of
          PNum _ \<Rightarrow>
            (case parsePositiveInt (sp_get key sp) of
               None \<Rightarrow> dflt
             | Some n \<Rightarrow> (case con key of
                  None \<Rightarrow> PNum n
                | Some allow \<Rightarrow> if PNum n \<notin> set allow then dflt else PNum n))
        | _ \<Rightarrow>
            (case sp_get key sp of
               None \<Rightarrow> dflt
             | Some raw \<Rightarrow> (case con key of
                  None \<Rightarrow> PStr raw
                | Some allow \<Rightarrow> if PStr raw \<notin> set allow then dflt else PStr raw))))"

definition parseListParams :: "search_params \<Rightarrow> defaults \<Rightarrow> constraints \<Rightarrow> params option \<Rightarrow> params" where
  "parseListParams sp defs con prev =
     (\<lambda>key. map_option (parse_dim sp con prev key) (map_of defs key))"

definition param_text :: "param \<Rightarrow> jsstring" where
  "param_text p = (case p of PNum n \<Rightarrow> int_text n | PStr s \<Rightarrow> s | PArr xs \<Rightarrow> join (js '','') xs)"

text \<open>One round of the loop of \<open>serializeListParams\<close>.\<close>

definition serialize_dim :: "params \<Rightarrow> jsstring \<times> param \<Rightarrow> search_params \<Rightarrow> search_params" where
  "serialize_dim value kd sp = (case kd of (key, dflt) \<Rightarrow>
     (case value key of
        None \<Rightarrow> sp_set key (js ''undefined'') sp
      | Some (PArr xs) \<Rightarrow> if dflt = PArr xs then sp else fold (sp_append key) xs sp
      | Some p \<Rightarrow> if p = dflt then sp else sp_set key (param_text p) sp))"

definition serializeListParams :: "params \<Rightarrow> defaults \<Rightarrow> search_params" where
  "serializeListParams value defs = fold (serialize_dim value) defs []"

section \<open>The setters\<close>

definition prefixKey :: "jsstring \<Rightarrow> jsstring option \<Rightarrow> jsstring" where
  "prefixKey key prefix = (case prefix of
      None \<Rightarrow> key
    | Some p \<Rightarrow> if p = [] then key else p @ js ''.'' @ key)"

definition stripPrefix :: "search_params \<Rightarrow> defaults \<Rightarrow> jsstring option \<Rightarrow> search_params" where
  "stripPrefix full defs prefix = (case prefix of
      None \<Rightarrow> full
    | Some p \<Rightarrow> if p = [] then full
        else concat (map (\<lambda>(key, _). map (Pair key) (sp_getAll (prefixKey key prefix) full)) defs))"

record list_config =
  defaults_of :: defaults
  constraints_of :: constraints
  sortFields :: "(jsstring \<times> jsstring) list"
  prefix_of :: "jsstring option"

definition current_params :: "list_config \<Rightarrow> search_params \<Rightarrow> params" where
  "current_params c sp =
     parseListParams (stripPrefix sp (defaults_of c) (prefix_of c)) (defaults_of c) (constraints_of c) None"

text \<open>\<open>Object.keys(defaults)\<close>: delete the prefixed key, then append the new values under it.\<close>

definition rewrite_url :: "list_config \<Rightarrow> search_params \<Rightarrow> search_params \<Rightarrow> search_params" where
  "rewrite_url c serialized sp =
     fold (\<lambda>(key, _) nxt. let u = prefixKey key (prefix_of c) in
             fold (sp_append u) (sp_getAll key serialized) (sp_delete u nxt))
          (defaults_of c) sp"

definition write_params :: "list_config \<Rightarrow> params \<Rightarrow> search_params \<Rightarrow> search_params" where
  "write_params c merged sp = rewrite_url c (serializeListParams merged (defaults_of c)) sp"

definition update :: "list_config \<Rightarrow> params \<Rightarrow> search_params \<Rightarrow> search_params" where
  "update c patch sp = write_params c (current_params c sp ++ patch) sp"

definition PAGE :: jsstring where "PAGE = js ''page''"

definition default_page :: "list_config \<Rightarrow> params" where
  "default_page c = (\<lambda>k. if k = PAGE then map_of (defaults_of c) PAGE else None)"

definition setPage :: "list_config \<Rightarrow> int \<Rightarrow> search_params \<Rightarrow> search_params" where
  "setPage c n = update c [PAGE \<mapsto> PNum n]"

definition setSearch :: "list_config \<Rightarrow> jsstring \<Rightarrow> search_params \<Rightarrow> search_params" where
  "setSearch c s = update c ([js ''search'' \<mapsto> PStr s] ++ default_page c)"

definition setFilter :: "list_config \<Rightarrow> jsstring \<Rightarrow> param \<Rightarrow> search_params \<Rightarrow> search_params" where
  "setFilter c key v = update c ([key \<mapsto> v] ++ default_page c)"

definition setArrayFilter :: "list_config \<Rightarrow> jsstring \<Rightarrow> jsstring list \<Rightarrow> search_params \<Rightarrow> search_params" where
  "setArrayFilter c key vs = update c ([key \<mapsto> PArr vs] ++ default_page c)"

definition mapArrayFilter ::
  "list_config \<Rightarrow> jsstring \<Rightarrow> (param option \<Rightarrow> param) \<Rightarrow> search_params \<Rightarrow> search_params" where
  "mapArrayFilter c key f sp =
     (let current = current_params c sp in
      write_params c (current ++ ([key \<mapsto> f (current key)] ++ default_page c)) sp)"

definition next_order :: "list_config \<Rightarrow> params \<Rightarrow> jsstring \<Rightarrow> jsstring" where
  "next_order c current field =
     (if current (js ''sortField'') = Some (PStr field)
      then (if current (js ''sortOrder'') = Some (PStr (js ''asc'')) then js ''desc'' else js ''asc'')
      else case map_of (sortFields c) field of Some o' \<Rightarrow> o' | None \<Rightarrow> js ''asc'')"

definition handleSort :: "list_config \<Rightarrow> jsstring \<Rightarrow> search_params \<Rightarrow> search_params" where
  "handleSort c field sp =
     (let current = current_params c sp in
      write_params c (current ++ ([js ''sortField'' \<mapsto> PStr field,
          js ''sortOrder'' \<mapsto> PStr (next_order c current field)] ++ default_page c)) sp)"

definition reset :: "list_config \<Rightarrow> search_params \<Rightarrow> search_params" where
  "reset c = update c (map_of (defaults_of c))"

section \<open>Lemmas on search parameters\<close>

lemma getAll_simps [simp]:
  "sp_getAll k [] = []" "sp_getAll k (a @ b) = sp_getAll k a @ sp_getAll k b"
  "sp_getAll k (p # sp) = (if fst p = k then snd p # sp_getAll k sp else sp_getAll k sp)"
  by (auto simp: sp_getAll_def)

lemma getAll_map_Pair [simp]: "sp_getAll k (map (Pair k') vs) = (if k' = k then vs else [])"
  by (induction vs) auto

lemma getAll_delete [simp]: "sp_getAll k (sp_delete k' sp) = (if k = k' then [] else sp_getAll k sp)"
  by (induction sp) (auto simp: sp_delete_def)

lemma fold_append: "fold (sp_append k) vs sp = sp @ map (Pair k) vs"
  by (induction vs arbitrary: sp) (auto simp: sp_append_def)

lemma set_fresh: "k \<notin> fst ` set sp \<Longrightarrow> sp_set k v sp = sp @ [(k, v)]"
  by (induction sp) auto

lemma sp_get_getAll: "sp_getAll k sp = sp_getAll k' sp' \<Longrightarrow> sp_get k sp = sp_get k' sp'"
  by (simp add: sp_get_def)

lemma parse_dim_cong: "sp_getAll k sp = sp_getAll k sp' \<Longrightarrow> parse_dim sp con prev k d = parse_dim sp' con prev k d"
  using sp_get_getAll [of k sp k sp'] by (cases d) (auto simp: parse_dim_def)

text \<open>What \<open>serializeListParams\<close> writes for one key.\<close>

definition dim_values :: "param option \<Rightarrow> param \<Rightarrow> jsstring list" where
  "dim_values v d = (case v of
      None \<Rightarrow> [js ''undefined'']
    | Some (PArr xs) \<Rightarrow> if d = PArr xs then [] else xs
    | Some p \<Rightarrow> if p = d then [] else [param_text p])"

lemma serialize_dim_fresh:
  "k \<notin> fst ` set sp \<Longrightarrow> serialize_dim m (k, d) sp = sp @ map (Pair k) (dim_values (m k) d)"
  by (auto simp: serialize_dim_def dim_values_def set_fresh fold_append split: option.splits param.splits)

lemma serialize_fold:
  assumes "distinct (map fst defs)" "fst ` set sp \<inter> fst ` set defs = {}"
  shows "fold (serialize_dim m) defs sp = sp @ concat (map (\<lambda>(k, d). map (Pair k) (dim_values (m k) d)) defs)"
  using assms
proof (induction defs arbitrary: sp)
  case (Cons kd defs)
  obtain k d where kd: "kd = (k, d)" by fastforce
  let ?sp = "sp @ map (Pair k) (dim_values (m k) d)"
  have "k \<notin> fst ` set defs" using Cons.prems kd by simp
  then have "fst ` set ?sp \<inter> fst ` set defs = {}" using Cons.prems(2) by (auto simp: image_iff)
  then show ?case using Cons kd serialize_dim_fresh [of k sp m d] by auto
qed simp

lemma getAll_concat:
  assumes "distinct (map fst defs)"
  shows "sp_getAll k (concat (map (\<lambda>(k, d). map (Pair k) (f k d)) defs)) =
    (case map_of defs k of None \<Rightarrow> [] | Some d \<Rightarrow> f k d)"
  using assms
proof (induction defs)
  case (Cons kd defs)
  obtain k' d where kd: "kd = (k', d)" by fastforce
  have "k' = k \<Longrightarrow> map_of defs k = None" using Cons.prems kd by (auto simp: map_of_eq_None_iff)
  then show ?case using Cons kd by auto
qed simp

lemma getAll_serialize:
  assumes "distinct (map fst defs)"
  shows "sp_getAll k (serializeListParams m defs) =
    (case map_of defs k of None \<Rightarrow> [] | Some d \<Rightarrow> dim_values (m k) d)"
  using serialize_fold [OF assms, of "[]" m] getAll_concat [OF assms, of k "\<lambda>k d. dim_values (m k) d"]
  by (simp add: serializeListParams_def)

lemma prefixKey_inj [simp]: "prefixKey k p = prefixKey k' p \<longleftrightarrow> k = k'"
  by (simp add: prefixKey_def split: option.splits)

lemma getAll_strip:
  assumes "distinct (map fst defs)" "k \<in> fst ` set defs"
  shows "sp_getAll k (stripPrefix sp defs p) = sp_getAll (prefixKey k p) sp"
proof -
  obtain d where "map_of defs k = Some d" using assms(2) by (metis map_of_eq_None_iff not_Some_eq)
  then show ?thesis
    using getAll_concat [OF assms(1), of k "\<lambda>k d. sp_getAll (prefixKey k p) sp"]
    by (auto simp: stripPrefix_def prefixKey_def split: option.splits)
qed

section \<open>Lemmas on writing the URL\<close>

definition managed :: "list_config \<Rightarrow> jsstring set" where
  "managed c = (\<lambda>(k, _). prefixKey k (prefix_of c)) ` set (defaults_of c)"

definition put_key :: "jsstring option \<Rightarrow> search_params \<Rightarrow> jsstring \<times> param \<Rightarrow> search_params \<Rightarrow> search_params" where
  "put_key p ser kd nxt = sp_delete (prefixKey (fst kd) p) nxt @ map (Pair (prefixKey (fst kd) p)) (sp_getAll (fst kd) ser)"

lemma rewrite_url_put: "rewrite_url c ser sp = fold (put_key (prefix_of c) ser) (defaults_of c) sp"
proof -
  have "(\<lambda>(key, _) nxt. let u = prefixKey key (prefix_of c) in
      fold (sp_append u) (sp_getAll key ser) (sp_delete u nxt)) = put_key (prefix_of c) ser"
    by (rule ext)+ (simp add: put_key_def fold_append Let_def case_prod_beta)
  then show ?thesis by (simp add: rewrite_url_def)
qed

lemma getAll_put_key:
  "sp_getAll u (put_key p ser kd sp) = (if u = prefixKey (fst kd) p then sp_getAll (fst kd) ser else sp_getAll u sp)"
  by (simp add: put_key_def)

lemma rewrite_fold_other:
  "(\<And>k. k \<in> fst ` set defs \<Longrightarrow> prefixKey k p \<noteq> u) \<Longrightarrow> sp_getAll u (fold (put_key p ser) defs sp) = sp_getAll u sp"
proof (induction defs arbitrary: sp)
  case (Cons kd defs)
  have "u \<noteq> prefixKey (fst kd) p" using Cons.prems [of "fst kd"] by auto
  then show ?case using Cons by (auto simp: getAll_put_key)
qed simp

lemma rewrite_fold_own:
  assumes "k \<in> fst ` set defs"
  shows "sp_getAll (prefixKey k p) (fold (put_key p ser) defs sp) = sp_getAll k ser"
  using assms
proof (induction defs arbitrary: sp)
  case (Cons kd defs)
  show ?case
  proof (cases "k \<in> fst ` set defs")
    case False
    then have o: "\<And>k'. k' \<in> fst ` set defs \<Longrightarrow> prefixKey k' p \<noteq> prefixKey k p" by auto
    have "fst kd = k" using Cons.prems False by auto
    then show ?thesis using rewrite_fold_other [OF o] by (simp add: getAll_put_key)
  qed (use Cons in simp)
qed simp

lemma rewrite_unmanaged:
  assumes "fst ` set defs \<subseteq> K" "U = (\<lambda>k. prefixKey k p) ` K"
  shows "filter (\<lambda>x. fst x \<notin> U) (fold (put_key p ser) defs sp) = filter (\<lambda>x. fst x \<notin> U) sp"
  using assms(1)
proof (induction defs arbitrary: sp)
  case (Cons kd defs)
  have u: "prefixKey (fst kd) p \<in> U" using Cons.prems assms(2) by auto
  then have "filter (\<lambda>x. fst x \<notin> U) (put_key p ser kd sp) = filter (\<lambda>x. fst x \<notin> U) sp"
    by (auto simp: put_key_def sp_delete_def filter_empty_conv intro: filter_cong)
  then show ?case using Cons by simp
qed simp

definition unmanaged :: "list_config \<Rightarrow> search_params \<Rightarrow> search_params" where
  "unmanaged c sp = filter (\<lambda>x. fst x \<notin> managed c) sp"

lemma write_unmanaged: "unmanaged c (write_params c m sp) = unmanaged c sp"
proof -
  have "managed c = (\<lambda>k. prefixKey k (prefix_of c)) ` fst ` set (defaults_of c)"
    by (force simp: managed_def image_image)
  from rewrite_unmanaged [OF subset_refl this] show ?thesis
    by (simp add: unmanaged_def write_params_def rewrite_url_put)
qed

section \<open>Well-formed parameters\<close>

definition allowed :: "constraints \<Rightarrow> jsstring \<Rightarrow> param \<Rightarrow> bool" where
  "allowed con k p \<longleftrightarrow> (case con k of None \<Rightarrow> True | Some xs \<Rightarrow> p \<in> set xs)"

definition valid_param :: "constraints \<Rightarrow> jsstring \<Rightarrow> param \<Rightarrow> param \<Rightarrow> bool" where
  "valid_param con k d v \<longleftrightarrow> (case d of
      PArr _ \<Rightarrow> (\<exists>xs. v = PArr xs \<and> distinct xs \<and> (\<forall>x \<in> set xs. allowed con k (PStr x)))
    | PNum _ \<Rightarrow> v = d \<or> (\<exists>n > 0. v = PNum n \<and> (k = PAGE \<or> allowed con k v))
    | PStr _ \<Rightarrow> v = d \<or> (\<exists>s. v = PStr s \<and> allowed con k v))"

text \<open>The tables of the console: distinct keys, empty lists as the defaults of array dimensions, a
  number as the default page.\<close>

definition config_ok :: "list_config \<Rightarrow> bool" where
  "config_ok c \<longleftrightarrow> distinct (map fst (defaults_of c)) \<and>
     (\<forall>(k, d) \<in> set (defaults_of c). (\<forall>xs. d = PArr xs \<longrightarrow> xs = []) \<and> (k = PAGE \<longrightarrow> (\<exists>n. d = PNum n)))"

definition params_ok :: "list_config \<Rightarrow> params \<Rightarrow> bool" where
  "params_ok c m \<longleftrightarrow> config_ok c \<and> dom m = fst ` set (defaults_of c) \<and>
     (\<forall>(k, d) \<in> set (defaults_of c). \<exists>v. m k = Some v \<and> valid_param (constraints_of c) k d v)"

lemma parsePositiveInt_text: "0 < n \<Longrightarrow> parsePositiveInt (Some (int_text n)) = Some n"
  using isInteger_of_int [of n]
  by (auto simp: parsePositiveInt_def int_text_def of_nat_nat)

lemma parsePositiveInt_pos: "parsePositiveInt raw = Some n \<Longrightarrow> 0 < n"
  by (auto simp: parsePositiveInt_def isInteger.simps split: option.splits jsnum.splits if_splits)

lemma getAll_write:
  assumes "config_ok c" "map_of (defaults_of c) k = Some d"
  shows "sp_getAll k (stripPrefix (write_params c m sp) (defaults_of c) (prefix_of c)) = dim_values (m k) d"
proof -
  have d: "distinct (map fst (defaults_of c))" using assms(1) by (simp add: config_ok_def)
  have k: "k \<in> fst ` set (defaults_of c)" using assms(2) by (force dest: map_of_SomeD)
  show ?thesis
    using getAll_strip [OF d k] rewrite_fold_own [OF k] getAll_serialize [OF d] assms(2)
    by (simp add: write_params_def rewrite_url_put)
qed

lemma allowed_filter: "\<forall>x \<in> set xs. allowed con k (PStr x) \<Longrightarrow>
    (case con k of None \<Rightarrow> xs | Some allow \<Rightarrow> filter (\<lambda>v. PStr v \<in> set allow) xs) = xs"
  by (auto simp: allowed_def filter_id_conv split: option.splits)

lemma parse_written:
  assumes "sp_getAll k sp = dim_values (Some v) d" "valid_param con k d v"
    and "\<And>xs. d = PArr xs \<Longrightarrow> xs = []" "k = PAGE \<Longrightarrow> \<exists>n. d = PNum n"
  shows "parse_dim sp con None k d = v"
proof (cases d)
  case (PArr ds)
  then obtain xs where "v = PArr xs" "distinct xs" "\<forall>x \<in> set xs. allowed con k (PStr x)" "ds = []"
    using assms by (auto simp: valid_param_def)
  then show ?thesis using assms(1) PArr allowed_filter [of xs con k]
    by (auto simp: parse_dim_def dim_values_def Let_def split: if_splits option.splits)
next
  case (PNum n)
  then consider "v = d" | m where "m > 0" "v = PNum m" "k = PAGE \<or> allowed con k v" "v \<noteq> d"
    using assms(2) by (auto simp: valid_param_def)
  then show ?thesis
  proof cases
    case 1
    then have "sp_get k sp = None" using assms(1) PNum by (simp add: dim_values_def sp_get_def)
    then show ?thesis using 1 PNum by (auto simp: parse_dim_def parsePositiveInt_def)
  next
    case 2
    then have "sp_get k sp = Some (int_text m)" using assms(1) PNum by (simp add: dim_values_def sp_get_def param_text_def)
    then show ?thesis using PNum 2 parsePositiveInt_text [of m]
      by (auto simp: parse_dim_def allowed_def PAGE_def split: option.splits)
  qed
next
  case (PStr t)
  then have k: "k \<noteq> js ''page''" using assms(4) by (auto simp: PAGE_def)
  consider "v = d" | u where "v = PStr u" "allowed con k v" "v \<noteq> d"
    using assms(2) PStr by (auto simp: valid_param_def)
  then show ?thesis
  proof cases
    case 1
    then have "sp_get k sp = None" using assms(1) PStr by (simp add: dim_values_def sp_get_def)
    then show ?thesis using 1 PStr k by (simp add: parse_dim_def)
  next
    case 2
    then have "sp_get k sp = Some u" using assms(1) PStr by (simp add: dim_values_def sp_get_def param_text_def)
    then show ?thesis using PStr k 2 by (auto simp: parse_dim_def allowed_def split: option.splits)
  qed
qed

lemma parse_valid:
  assumes "k = PAGE \<Longrightarrow> \<exists>n. d = PNum n"
  shows "valid_param con k d (parse_dim sp con None k d)"
proof (cases d)
  case (PArr ds)
  then show ?thesis by (auto simp: parse_dim_def valid_param_def Let_def allowed_def split: option.splits)
next
  case (PNum n)
  then show ?thesis using parsePositiveInt_pos
    by (fastforce simp: parse_dim_def valid_param_def allowed_def PAGE_def split: option.splits)
next
  case (PStr t)
  then have "k \<noteq> js ''page''" using assms by (auto simp: PAGE_def)
  then show ?thesis using PStr
    by (auto simp: parse_dim_def valid_param_def allowed_def split: option.splits)
qed

lemma current_params_ok: 
  assumes c: "config_ok c"
  shows "params_ok c (current_params c sp)"
proof -
  have d: "distinct (map fst (defaults_of c))" using c by (simp add: config_ok_def)
  have "\<exists>v. current_params c sp k = Some v \<and> valid_param (constraints_of c) k x v"
    if "(k, x) \<in> set (defaults_of c)" for k x
  proof -
    have "map_of (defaults_of c) k = Some x" using d that by simp
    moreover have "k = PAGE \<Longrightarrow> \<exists>n. x = PNum n" using c that by (auto simp: config_ok_def)
    ultimately show ?thesis using parse_valid by (simp add: current_params_def parseListParams_def)
  qed
  moreover have "dom (current_params c sp) = fst ` set (defaults_of c)"
    by (simp add: current_params_def parseListParams_def dom_def dom_map_of_conv_image_fst [symmetric])
  ultimately show ?thesis using c by (auto simp: params_ok_def)
qed

lemma write_read:
  assumes "params_ok c m"
  shows "current_params c (write_params c m sp) = m"
proof
  fix k
  have c: "config_ok c" and dm: "dom m = fst ` set (defaults_of c)" using assms by (auto simp: params_ok_def)
  show "current_params c (write_params c m sp) k = m k"
  proof (cases "map_of (defaults_of c) k")
    case None
    then have "m k = None" using dm by (metis domIff map_of_eq_None_iff)
    then show ?thesis using None by (simp add: current_params_def parseListParams_def)
  next
    case (Some d)
    then have kd: "(k, d) \<in> set (defaults_of c)" by (rule map_of_SomeD)
    then obtain v where v: "m k = Some v" "valid_param (constraints_of c) k d v"
      using assms by (fastforce simp: params_ok_def)
    have "parse_dim (stripPrefix (write_params c m sp) (defaults_of c) (prefix_of c)) (constraints_of c) None k d = v"
      by (rule parse_written [OF getAll_write [OF c Some, of m sp, unfolded v(1)] v(2)])
         (use c kd in \<open>auto simp: config_ok_def\<close>)
    then show ?thesis using Some v by (simp add: current_params_def parseListParams_def)
  qed
qed

section \<open>A state kept inside a larger one\<close>

text \<open>
  What the setters rely on: a state \<open>'m\<close> that is read from and written into a carrier \<open>'u\<close>, whose
  remaining part \<open>rest\<close> no write touches. A setter is a \<open>change\<close> of the state.
\<close>

locale embedded_state =
  fixes get :: "'u \<Rightarrow> 'm" and put :: "'m \<Rightarrow> 'u \<Rightarrow> 'u" and ok :: "'m \<Rightarrow> bool" and rest :: "'u \<Rightarrow> 'r"
  assumes get_put: "ok m \<Longrightarrow> get (put m u) = m"
    and put_rest: "rest (put m u) = rest u"
begin

definition change :: "('m \<Rightarrow> 'm) \<Rightarrow> 'u \<Rightarrow> 'u" where
  "change f u = put (f (get u)) u"

lemma get_change: "ok (f (get u)) \<Longrightarrow> get (change f u) = f (get u)"
  by (simp add: change_def get_put)

lemma rest_changes: "rest (fold change fs u) = rest u"
  by (induction fs arbitrary: u) (simp_all add: change_def put_rest)

lemma get_changes:
  assumes "ok (get u)" "\<And>f m. f \<in> set fs \<Longrightarrow> ok m \<Longrightarrow> ok (f m)"
  shows "get (fold change fs u) = fold (\<lambda>f. f) fs (get u) \<and> ok (get (fold change fs u))"
  using assms
proof (induction fs arbitrary: u)
  case (Cons f fs)
  have "ok (f (get u))" using Cons.prems by simp
  then have g: "get (change f u) = f (get u)" by (rule get_change)
  have "ok (get (change f u))" using \<open>ok (f (get u))\<close> g by simp
  then have "get (fold change fs (change f u)) = fold (\<lambda>f. f) fs (get (change f u)) \<and> ok (get (fold change fs (change f u)))"
    by (rule Cons.IH) (use Cons.prems in simp)
  then show ?case unfolding g fold_simps .
qed simp

end

interpretation url: embedded_state "current_params c" "write_params c" "params_ok c" "unmanaged c" for c
  by unfold_locales (simp_all add: write_read write_unmanaged)

lemma setters_change:
  "update c patch = url.change c (\<lambda>m. m ++ patch)"
  "mapArrayFilter c key f = url.change c (\<lambda>m. m ++ ([key \<mapsto> f (m key)] ++ default_page c))"
  "handleSort c field = url.change c (\<lambda>m. m ++ ([js ''sortField'' \<mapsto> PStr field,
     js ''sortOrder'' \<mapsto> PStr (next_order c m field)] ++ default_page c))"
  by (rule ext, simp add: update_def mapArrayFilter_def handleSort_def url.change_def Let_def)+

lemma ok_upd:
  assumes "params_ok c m" "map_of (defaults_of c) k = Some d" "valid_param (constraints_of c) k d v"
  shows "params_ok c (m(k \<mapsto> v))"
proof -
  have kd: "(k, d) \<in> set (defaults_of c)" using assms(2) by (rule map_of_SomeD)
  have "d' = d" if "(k, d') \<in> set (defaults_of c)" for d'
    using assms(1,2) that by (auto simp: params_ok_def config_ok_def)
  then have "\<exists>v'. (m(k \<mapsto> v)) k' = Some v' \<and> valid_param (constraints_of c) k' d' v'"
    if "(k', d') \<in> set (defaults_of c)" for k' d'
    using assms(1,3) that by (cases "k' = k") (auto simp: params_ok_def)
  moreover have "dom (m(k \<mapsto> v)) = fst ` set (defaults_of c)"
    using assms(1) kd by (force simp: params_ok_def)
  moreover have "config_ok c" using assms(1) by (simp add: params_ok_def)
  ultimately show ?thesis unfolding params_ok_def by blast
qed

lemma valid_default: "config_ok c \<Longrightarrow> map_of (defaults_of c) k = Some d \<Longrightarrow> valid_param (constraints_of c) k d d"
  by (cases d) (auto simp: valid_param_def config_ok_def dest!: map_of_SomeD)

text \<open>Setting a managed key and going back to the first page.\<close>

definition set_and_rewind :: "list_config \<Rightarrow> jsstring \<Rightarrow> param \<Rightarrow> params \<Rightarrow> params" where
  "set_and_rewind c k v m = m ++ ([k \<mapsto> v] ++ default_page c)"

lemma ok_set_and_rewind:
  assumes "params_ok c m" "map_of (defaults_of c) k = Some d" "valid_param (constraints_of c) k d v"
  shows "params_ok c (set_and_rewind c k v m)"
proof -
  have c: "config_ok c" using assms(1) by (simp add: params_ok_def)
  have 1: "params_ok c (m(k \<mapsto> v))" by (rule ok_upd [OF assms])
  show ?thesis
  proof (cases "map_of (defaults_of c) PAGE")
    case None
    then have "set_and_rewind c k v m = m(k \<mapsto> v)"
      by (auto simp: set_and_rewind_def default_page_def map_add_def fun_eq_iff split: option.splits)
    then show ?thesis using 1 by simp
  next
    case (Some p)
    then have "set_and_rewind c k v m = m(k \<mapsto> v, PAGE \<mapsto> p)"
      by (auto simp: set_and_rewind_def default_page_def map_add_def fun_eq_iff split: option.splits)
    then show ?thesis using ok_upd [OF 1 Some valid_default [OF c Some]] by simp
  qed
qed

lemma dot_free_suffix:
  "x \<notin> set k \<Longrightarrow> takeWhile (\<lambda>y. y \<noteq> x) (rev (p @ x # k)) = rev k"
  by (subst rev_append, simp) (subst takeWhile_append2, auto)

lemma last_split_inj:
  assumes "x \<notin> set k" "x \<notin> set k'" "p @ x # k = p' @ x # k'"
  shows "p = p' \<and> k = k'"
  using dot_free_suffix [OF assms(1), of p] dot_free_suffix [OF assms(2), of p'] assms(3) by auto

definition dot_free :: "list_config \<Rightarrow> bool" where
  "dot_free c \<longleftrightarrow> (\<forall>k \<in> fst ` set (defaults_of c). 46 \<notin> set k)"

lemma managed_disjoint:
  assumes "dot_free c" "dot_free c'" "prefix_of c = Some p" "prefix_of c' = Some p'"
    and "p \<noteq> []" "p' \<noteq> []" "p \<noteq> p'" "k \<in> fst ` set (defaults_of c)" "k' \<in> fst ` set (defaults_of c')"
  shows "prefixKey k (prefix_of c) \<noteq> prefixKey k' (prefix_of c')"
  using assms last_split_inj [of 46 k k' p p'] by (auto simp: prefixKey_def dot_free_def js_def)

lemma other_list:
  assumes "config_ok c'"
    and "\<And>k k'. k \<in> fst ` set (defaults_of c) \<Longrightarrow> k' \<in> fst ` set (defaults_of c') \<Longrightarrow>
      prefixKey k (prefix_of c) \<noteq> prefixKey k' (prefix_of c')"
  shows "current_params c' (write_params c m sp) = current_params c' sp"
proof
  fix k
  show "current_params c' (write_params c m sp) k = current_params c' sp k"
  proof (cases "map_of (defaults_of c') k")
    case (Some d)
    have d': "distinct (map fst (defaults_of c'))" using assms(1) by (simp add: config_ok_def)
    have k: "k \<in> fst ` set (defaults_of c')" using Some by (force dest: map_of_SomeD)
    have "sp_getAll (prefixKey k (prefix_of c')) (write_params c m sp) = sp_getAll (prefixKey k (prefix_of c')) sp"
      unfolding write_params_def rewrite_url_put using assms(2) [OF _ k] by (rule rewrite_fold_other)
    then show ?thesis
      using Some getAll_strip [OF d' k] parse_dim_cong by (simp add: current_params_def parseListParams_def)
  qed (simp add: current_params_def parseListParams_def)
qed

section \<open>Properties\<close>

text \<open>
  C11: Reading the URL back gives what was written. For every well-formed parameters object, whatever the URL
  held before, writing it and parsing the resulting URL yields the same object: omitted defaults, repeated
  keys, prefixes and allow lists lose nothing. And parsing any URL yields a well-formed object.
\<close>

theorem list_params_roundtrip:
  assumes "config_ok c"
  shows "params_ok c (current_params c sp) \<and>
         (\<forall>m. params_ok c m \<longrightarrow> current_params c (write_params c m sp) = m)"
  using current_params_ok [OF assms] url.get_put by blast

text \<open>
  C22: A filter change is exactly that. Setting a filter to a valid value changes this parameter, puts the page
  back to its default, changes no other parameter of the list and keeps every parameter of the URL that is not
  the list's own, in order.
\<close>

theorem setFilter_effect:
  assumes "config_ok c" and "map_of (defaults_of c) k = Some d" and "valid_param (constraints_of c) k d v"
  shows "current_params c (setFilter c k v sp) = current_params c sp ++ ([k \<mapsto> v] ++ default_page c) \<and>
         unmanaged c (setFilter c k v sp) = unmanaged c sp"
proof -
  have "params_ok c (current_params c sp ++ ([k \<mapsto> v] ++ default_page c))"
    using ok_set_and_rewind [OF current_params_ok [OF assms(1)] assms(2,3)] by (simp add: set_and_rewind_def)
  then show ?thesis
    using url.get_change [of c "\<lambda>m. m ++ ([k \<mapsto> v] ++ default_page c)" sp]
      url.rest_changes [of c "[\<lambda>m. m ++ ([k \<mapsto> v] ++ default_page c)]" sp]
    by (simp add: setFilter_def setters_change)
qed

text \<open>
  C23: Two lists on one page do not disturb each other. With different prefixes and keys without a dot, every
  change one list makes to the URL leaves the parameters the other list reads unchanged.
\<close>

theorem prefixes_isolate_lists:
  assumes "config_ok c'" and "dot_free c" and "dot_free c'"
    and "prefix_of c = Some p" and "prefix_of c' = Some p'" and "p \<noteq> []" and "p' \<noteq> []" and "p \<noteq> p'"
  shows "current_params c' (update c patch sp) = current_params c' sp \<and>
         current_params c' (handleSort c field sp) = current_params c' sp \<and>
         current_params c' (mapArrayFilter c key f sp) = current_params c' sp"
  using other_list [OF assms(1) managed_disjoint [OF assms(2-8)]]
  by (simp add: update_def handleSort_def mapArrayFilter_def Let_def)

text \<open>
  Sorting by the same column twice flips the order. After two clicks on one column the sort field is that
  column, the order is the opposite of the order after the first click, the page is the default one, and the
  parameters of the URL that are not the list's own are untouched.
\<close>

theorem handleSort_toggles:
  assumes c: "config_ok c"
    and sf: "map_of (defaults_of c) (js ''sortField'') = Some (PStr df)" "allowed (constraints_of c) (js ''sortField'') (PStr field)"
    and so: "map_of (defaults_of c) (js ''sortOrder'') = Some (PStr dr)"
      "allowed (constraints_of c) (js ''sortOrder'') (PStr (js ''asc''))"
      "allowed (constraints_of c) (js ''sortOrder'') (PStr (js ''desc''))"
    and io: "\<forall>o' \<in> snd ` set (sortFields c). o' = js ''asc'' \<or> o' = js ''desc''"
    and pg: "map_of (defaults_of c) PAGE = Some d"
  shows "let m1 = current_params c (handleSort c field sp);
             m2 = current_params c (handleSort c field (handleSort c field sp)) in
    m1 (js ''sortField'') = Some (PStr field) \<and> m2 (js ''sortField'') = Some (PStr field) \<and>
    m2 (js ''sortOrder'') = Some (PStr (if m1 (js ''sortOrder'') = Some (PStr (js ''asc'')) then js ''desc'' else js ''asc'')) \<and>
    m2 PAGE = Some d \<and> unmanaged c (handleSort c field (handleSort c field sp)) = unmanaged c sp"
proof -
  let ?f = "\<lambda>m. m ++ ([js ''sortField'' \<mapsto> PStr field, js ''sortOrder'' \<mapsto> PStr (next_order c m field)] ++ default_page c)"
  have ne: "js ''sortField'' \<noteq> PAGE" "js ''sortOrder'' \<noteq> PAGE" "js ''sortOrder'' \<noteq> js ''sortField''"
    by (simp_all add: PAGE_def)
  have ord: "next_order c m field = js ''asc'' \<or> next_order c m field = js ''desc''" for m
    using io by (auto simp: next_order_def split: option.splits dest!: map_of_SomeD)
  have ok: "params_ok c (?f m)" if m: "params_ok c m" for m
  proof -
    have "?f m = m(js ''sortField'' \<mapsto> PStr field, js ''sortOrder'' \<mapsto> PStr (next_order c m field), PAGE \<mapsto> d)"
      using pg ne by (auto simp: default_page_def map_add_def fun_eq_iff split: option.splits)
    moreover have "params_ok c (m(js ''sortField'' \<mapsto> PStr field))"
      using ok_upd [OF m sf(1)] sf(2) by (simp add: valid_param_def)
    then have "params_ok c (m(js ''sortField'' \<mapsto> PStr field, js ''sortOrder'' \<mapsto> PStr (next_order c m field)))"
      using ok_upd [OF _ so(1)] so(2,3) ord [of m] by (auto simp: valid_param_def)
    ultimately show ?thesis using ok_upd [OF _ pg valid_default [OF c pg]] by simp
  qed
  have step: "current_params c (handleSort c field sp) = ?f (current_params c sp)" for sp
    using url.get_change [of c ?f sp] ok [OF current_params_ok [OF c]] by (simp add: setters_change)
  have rest: "unmanaged c (handleSort c field sp) = unmanaged c sp" for sp
    using url.rest_changes [of c "[?f]" sp] by (simp add: setters_change)
  show ?thesis
    using pg ne by (simp add: Let_def step rest default_page_def map_add_def next_order_def)
qed

text \<open>The device list of the console, for the witnesses.\<close>

definition sample_list :: list_config where
  "sample_list = \<lparr>defaults_of = [(js ''page'', PNum 1), (js ''perPage'', PNum 10), (js ''search'', PStr []),
       (js ''tags'', PArr []), (js ''sortField'', PStr (js ''last_seen'')), (js ''sortOrder'', PStr (js ''desc''))],
     constraints_of = [js ''perPage'' \<mapsto> [PNum 10, PNum 20, PNum 50], js ''sortOrder'' \<mapsto> [PStr (js ''asc''), PStr (js ''desc'')]],
     sortFields = [(js ''name'', js ''asc'')], prefix_of = Some (js ''dev'')\<rparr>"

lemma sample_list_ok: "config_ok sample_list" "dot_free sample_list"
  by (simp_all add: config_ok_def sample_list_def dot_free_def PAGE_def js_def)

theorem list_params_roundtrip_witness:
  "params_ok sample_list (current_params sample_list [(js ''dev.page'', js ''3'')])"
  using list_params_roundtrip [OF sample_list_ok(1)] by blast

theorem setFilter_effect_witness:
  "current_params sample_list (setFilter sample_list (js ''tags'') (PArr [js ''prod'']) [(js ''x'', js ''1'')]) (js ''tags'') =
     Some (PArr [js ''prod''])"
  using setFilter_effect [OF sample_list_ok(1), of "js ''tags''" "PArr []" "PArr [js ''prod'']" "[(js ''x'', js ''1'')]"]
  by (simp add: sample_list_def valid_param_def allowed_def default_page_def PAGE_def map_add_def)

theorem prefixes_isolate_lists_witness:
  "current_params sample_list (update (sample_list\<lparr>prefix_of := Some (js ''ses'')\<rparr>) [PAGE \<mapsto> PNum 4] [(js ''dev.page'', js ''3'')]) =
   current_params sample_list [(js ''dev.page'', js ''3'')]"
  using prefixes_isolate_lists [OF sample_list_ok(1), of "sample_list\<lparr>prefix_of := Some (js ''ses'')\<rparr>" "js ''ses''" "js ''dev''"
      "[PAGE \<mapsto> PNum 4]" "[(js ''dev.page'', js ''3'')]"] sample_list_ok(2)
  by (simp add: dot_free_def sample_list_def)

theorem handleSort_toggles_witness:
  "current_params sample_list (handleSort sample_list (js ''name'') (handleSort sample_list (js ''name'') [])) PAGE = Some (PNum 1)"
  using handleSort_toggles [OF sample_list_ok(1), of "js ''last_seen''" "js ''name''" "js ''desc''" "PNum 1" "[]"]
  by (simp add: Let_def sample_list_def allowed_def PAGE_def)

end
