(* ===== verification/Permission.thy ===== *)
theory Permission
  imports JsBase
begin

text \<open>
  Roles and what each may do (\<open>utils/permission.ts\<close>): the table of the source, entry by entry.
\<close>

datatype role_level = OBSERVER | OPERATOR | ADMINISTRATOR | OWNER

primrec level_value :: "role_level \<Rightarrow> nat" where
  "level_value OBSERVER = 1"
| "level_value OPERATOR = 2"
| "level_value ADMINISTRATOR = 3"
| "level_value OWNER = 4"

instantiation role_level :: linorder
begin

definition less_eq_role_level :: "role_level \<Rightarrow> role_level \<Rightarrow> bool" where
  "less_eq_role_level a b \<longleftrightarrow> level_value a \<le> level_value b"

definition less_role_level :: "role_level \<Rightarrow> role_level \<Rightarrow> bool" where
  "less_role_level a b \<longleftrightarrow> level_value a < level_value b"

instance
proof
  fix a b :: role_level
  show "a \<le> b \<Longrightarrow> b \<le> a \<Longrightarrow> a = b"
    by (cases a; cases b) (simp_all add: less_eq_role_level_def)
qed (auto simp: less_eq_role_level_def less_role_level_def)

end

definition roleLevels :: "(jsstring \<times> role_level) list" where
  "roleLevels = [(js ''observer'', OBSERVER), (js ''operator'', OPERATOR),
     (js ''administrator'', ADMINISTRATOR), (js ''owner'', OWNER)]"

definition isValidRole :: "jsstring option \<Rightarrow> bool" where
  "isValidRole role = (case role of None \<Rightarrow> False | Some r \<Rightarrow> map_of roleLevels r \<noteq> None)"

text \<open>An action is one of the literal keys of the table.\<close>

definition permissions :: "(string \<times> role_level) list" where
  "permissions =
    [(''device:connect'', OBSERVER), (''device:details'', OBSERVER), (''device:add'', OPERATOR),
     (''device:accept'', OPERATOR), (''device:reject'', OPERATOR), (''device:rename'', OPERATOR),
     (''device:customField:update'', OPERATOR), (''device:remove'', ADMINISTRATOR), (''device:choose'', OWNER),
     (''session:details'', OBSERVER), (''session:play'', ADMINISTRATOR), (''session:close'', ADMINISTRATOR),
     (''session:removeRecord'', ADMINISTRATOR),
     (''namespace:create'', OBSERVER), (''namespace:leave'', OBSERVER), (''namespace:rename'', ADMINISTRATOR),
     (''namespace:addMember'', ADMINISTRATOR), (''namespace:editMember'', ADMINISTRATOR),
     (''namespace:removeMember'', ADMINISTRATOR), (''namespace:cancelInvitation'', ADMINISTRATOR),
     (''namespace:updateSessionRecording'', ADMINISTRATOR), (''namespace:updateSshAccessMode'', ADMINISTRATOR),
     (''namespace:delete'', OWNER),
     (''tag:edit'', OPERATOR), (''tag:remove'', OPERATOR), (''tag:deviceCreate'', OPERATOR), (''tag:update'', OPERATOR),
     (''webEndpoint:create'', ADMINISTRATOR), (''webEndpoint:delete'', ADMINISTRATOR),
     (''connector:add'', ADMINISTRATOR), (''connector:edit'', ADMINISTRATOR), (''connector:remove'', ADMINISTRATOR),
     (''firewall:create'', ADMINISTRATOR), (''firewall:edit'', ADMINISTRATOR), (''firewall:remove'', ADMINISTRATOR),
     (''publicKey:create'', ADMINISTRATOR), (''publicKey:edit'', ADMINISTRATOR), (''publicKey:remove'', ADMINISTRATOR),
     (''accessPolicy:create'', ADMINISTRATOR), (''accessPolicy:edit'', ADMINISTRATOR), (''accessPolicy:remove'', ADMINISTRATOR),
     (''sshIdentity:add'', OPERATOR), (''sshIdentity:manage'', ADMINISTRATOR),
     (''serviceAccount:view'', ADMINISTRATOR), (''serviceAccount:create'', ADMINISTRATOR),
     (''serviceAccount:delete'', ADMINISTRATOR),
     (''billing:subscribe'', OWNER), (''billing:unsubscribe'', OWNER),
     (''notification:view'', OPERATOR),
     (''apiKey:create'', ADMINISTRATOR), (''apiKey:edit'', ADMINISTRATOR), (''apiKey:delete'', ADMINISTRATOR),
     (''installKey:create'', ADMINISTRATOR), (''installKey:reveal'', ADMINISTRATOR), (''installKey:edit'', ADMINISTRATOR),
     (''installKey:disable'', ADMINISTRATOR), (''installKey:revoke'', ADMINISTRATOR),
     (''namespace:editBanner'', ADMINISTRATOR)]"

definition hasPermission :: "jsstring option \<Rightarrow> string \<Rightarrow> bool" where
  "hasPermission role action =
     (if \<not> isValidRole role then False
      else case (map_of roleLevels (the role), map_of permissions action) of
        (Some l, Some p) \<Rightarrow> p \<le> l
      | _ \<Rightarrow> False)"

lemma permissions_known: "action \<in> fst ` set permissions \<Longrightarrow> \<exists>p. map_of permissions action = Some p"
  by (metis map_of_eq_None_iff not_Some_eq)

lemma hasPermission_iff:
  "hasPermission (Some r) a \<longleftrightarrow> (\<exists>l p. map_of roleLevels r = Some l \<and> map_of permissions a = Some p \<and> p \<le> l)"
  by (auto simp: hasPermission_def isValidRole_def split: option.splits)

lemma distinct_permissions: "distinct (map fst permissions)"
  by (simp add: permissions_def)

lemma observer_actions:
  "map_of permissions b = Some OBSERVER \<longleftrightarrow>
     b \<in> {''device:connect'', ''device:details'', ''session:details'', ''namespace:create'', ''namespace:leave''}"
  unfolding map_of_eq_Some_iff [OF distinct_permissions] by (auto simp: permissions_def)

text \<open>
  C36: Permissions follow the hierarchy of roles. Nothing is permitted without a known role, a role of a higher
  level may do all a lower one may, the owner may do every action of the table, and an observer exactly
  connecting to and seeing a device, seeing a session, and creating or leaving a namespace.
\<close>

theorem permission_hierarchy:
  assumes "map_of roleLevels r = Some l" and "map_of roleLevels r' = Some l'" and "l \<le> l'"
  shows "(hasPermission (Some r) a \<longrightarrow> hasPermission (Some r') a) \<and>
         \<not> hasPermission None a \<and> (\<forall>x. map_of roleLevels x = None \<longrightarrow> \<not> hasPermission (Some x) a) \<and>
         (hasPermission (Some (js ''owner'')) a \<longleftrightarrow> a \<in> fst ` set permissions) \<and>
         {b. hasPermission (Some (js ''observer'')) b} =
           {''device:connect'', ''device:details'', ''session:details'', ''namespace:create'', ''namespace:leave''}"
proof -
  have top: "p \<le> OWNER" for p by (cases p) (simp_all add: less_eq_role_level_def)
  have bot: "p \<le> OBSERVER \<longleftrightarrow> p = OBSERVER" for p by (cases p) (simp_all add: less_eq_role_level_def)
  have "{b. hasPermission (Some (js ''observer'')) b} = {b. map_of permissions b = Some OBSERVER}"
    using bot by (auto simp: hasPermission_iff roleLevels_def)
  moreover have "hasPermission (Some (js ''owner'')) a \<longleftrightarrow> a \<in> fst ` set permissions"
    using top permissions_known by (force simp: hasPermission_iff roleLevels_def dest: map_of_SomeD)
  moreover have "hasPermission (Some r) a \<longrightarrow> hasPermission (Some r') a"
    using assms by (auto simp: hasPermission_iff)
  moreover have "\<not> hasPermission None a" "\<And>x. map_of roleLevels x = None \<Longrightarrow> \<not> hasPermission (Some x) a"
    by (simp_all add: hasPermission_iff) (simp add: hasPermission_def isValidRole_def)
  ultimately show ?thesis unfolding observer_actions by auto
qed

theorem permission_hierarchy_witness:
  "hasPermission (Some (js ''operator'')) ''device:accept'' \<and>
   hasPermission (Some (js ''administrator'')) ''device:accept''"
proof -
  have "hasPermission (Some (js ''operator'')) ''device:accept''"
    by (simp add: hasPermission_iff roleLevels_def permissions_def)
  then show ?thesis
    using permission_hierarchy [of "js ''operator''" OPERATOR "js ''administrator''" ADMINISTRATOR "''device:accept''"]
    by (simp add: roleLevels_def less_eq_role_level_def)
qed

end
