(* ===== verification/SourceIp.thy ===== *)
theory SourceIp
  imports JsBase
begin

text \<open>
  The source address field of an access policy (\<open>utils/sourceIp.ts\<close>). The regular expressions of
  the source are written out: a dotted quad is four parts of one to three digits, a CIDR is an address,
  a slash and up to three digits. The main theorem says which texts without a colon are accepted and
  what is stored for them.
\<close>

section \<open>Definitions\<close>

datatype source_ip_parse =
    Empty
  | Incomplete (parse_note: jsstring)
  | Invalid (parse_note: jsstring)
  | Valid (parse_value: jsstring) (parse_label: jsstring)
  | Host (parse_value: jsstring) (parse_label: jsstring) (parse_note: jsstring)
  | AnyIp (parse_value: jsstring) (parse_label: jsstring) (parse_note: jsstring)

datatype source_ip_kind = KHost | KPrivate | KPublic | KAny | KIpv6 | KNone

text \<open>\<open>/^\d{1,3}(\.\d{1,3}){3}$/\<close>.\<close>

definition octet_shape :: "jsstring \<Rightarrow> bool" where
  "octet_shape p \<longleftrightarrow> p \<noteq> [] \<and> length p \<le> 3 \<and> list_all is_digit p"

definition dotted_shape :: "jsstring \<Rightarrow> bool" where
  "dotted_shape s \<longleftrightarrow> length (split_on 46 s) = 4 \<and> list_all octet_shape (split_on 46 s)"

definition ipv4Octets :: "jsstring \<Rightarrow> nat list option" where
  "ipv4Octets s =
     (if \<not> dotted_shape s then None
      else let octets = map digits_val (split_on 46 s) in
        if list_ex (\<lambda>n. n > 255) octets then None else Some octets)"

definition looksIpv6 :: "jsstring \<Rightarrow> bool" where
  "looksIpv6 s \<longleftrightarrow> contains s (js '':'') \<and> s \<noteq> [] \<and> list_all (\<lambda>c. is_hex c \<or> c = 58) s \<and>
     length (split_on 58 s) \<le> 8"

datatype v4_class = PrivateNetwork | Loopback | Unspecified | Public

definition classifyV4 :: "nat list \<Rightarrow> v4_class" where
  "classifyV4 o' =
     (if o' ! 0 = 10 \<or> (o' ! 0 = 172 \<and> 16 \<le> o' ! 1 \<and> o' ! 1 \<le> 31) \<or> (o' ! 0 = 192 \<and> o' ! 1 = 168)
      then PrivateNetwork
      else if o' ! 0 = 127 then Loopback
      else if o' ! 0 = 0 then Unspecified
      else Public)"

primrec class_text :: "v4_class \<Rightarrow> jsstring" where
  "class_text PrivateNetwork = js ''private network''"
| "class_text Loopback = js ''loopback''"
| "class_text Unspecified = js ''unspecified''"
| "class_text Public = js ''public''"

text \<open>\<open>Math.round(a / b)\<close> and \<open>(a / b).toFixed(1)\<close>; no power of two gives a tie.\<close>

definition round_div :: "nat \<Rightarrow> nat \<Rightarrow> nat" where
  "round_div a b = (2 * a + b) div (2 * b)"

definition addressCount :: "nat \<Rightarrow> jsstring" where
  "addressCount bits =
     (let hosts = 2 ^ (32 - bits) in
      if hosts = 1 then js ''1 address''
      else if hosts \<ge> 1000000 then
        (if hosts \<ge> 10000000 then nat_text (round_div hosts 1000000)
         else let n = round_div (hosts * 10) 1000000 in nat_text (n div 10) @ js ''.'' @ nat_text (n mod 10))
        @ js ''M addresses''
      else if hosts \<ge> 1000 then nat_text (round_div hosts 1000) @ js ''K addresses''
      else nat_text hosts @ js '' addresses'')"

text \<open>\<open>/^(.+)\/(\d+)$/\<close>: the digits after the last slash; a dot matches no line break.\<close>

definition cidr_match :: "jsstring \<Rightarrow> (jsstring \<times> jsstring) option" where
  "cidr_match s =
     (let ds = takeWhile is_digit (rev s) in
      case dropWhile is_digit (rev s) of
        [] \<Rightarrow> None
      | c # a \<Rightarrow> if c = 47 \<and> ds \<noteq> [] \<and> a \<noteq> [] \<and> list_all (\<lambda>x. x \<notin> {10, 13, 8232, 8233}) a
                then Some (rev a, rev ds) else None)"

definition leading_zero :: "jsstring \<Rightarrow> bool" where
  "leading_zero p \<longleftrightarrow> length p > 1 \<and> hd p = 48"

definition DOT :: jsstring where "DOT = [32, 183, 32]"

definition parseSourceIp :: "jsstring \<Rightarrow> source_ip_parse" where
  "parseSourceIp raw =
     (let s = trim raw in
      if s = [] then Empty
      else let cidr = (case cidr_match s of Some (a, b) \<Rightarrow> if length b \<le> 3 then Some (a, b) else None | None \<Rightarrow> None);
               addrPart = (case cidr of Some (a, _) \<Rightarrow> a | None \<Rightarrow> s);
               hasLeadingZero = (case cidr of Some (_, b) \<Rightarrow> leading_zero b | None \<Rightarrow> False) \<or>
                 (dotted_shape addrPart \<and> list_ex leading_zero (split_on 46 addrPart))
      in if hasLeadingZero then Invalid (js ''leading zeros are not allowed'')
      else case cidr of
        Some (_, bitsText) \<Rightarrow>
          (let bits = digits_val bitsText in
           case ipv4Octets addrPart of
             Some v4 \<Rightarrow>
               if bits > 32 then Invalid (js ''prefix /'' @ nat_text bits @ js '' is out of range (max /32)'')
               else if bits = 0 then AnyIp (js ''0.0.0.0/0'') (js ''= any IP'') (js ''same as leaving this empty'')
               else Valid s (class_text (classifyV4 v4) @ DOT @ addressCount bits)
           | None \<Rightarrow>
               if looksIpv6 addrPart then
                 (if bits > 128 then Invalid (js ''prefix /'' @ nat_text bits @ js '' is out of range (max /128)'')
                  else Valid s (js ''IPv6'' @ DOT @ js ''/'' @ nat_text bits))
               else Invalid (js ''not a valid network address''))
      | None \<Rightarrow>
          (case ipv4Octets s of
             Some v4 \<Rightarrow> Host (s @ js ''/32'') (js ''single host'' @ DOT @ class_text (classifyV4 v4))
                          (js ''stored as '' @ s @ js ''/32'')
           | None \<Rightarrow>
               if looksIpv6 s then Host (s @ js ''/128'') (js ''single IPv6 host'') (js ''stored as '' @ s @ js ''/128'')
               else if dotted_shape s then Invalid (js ''octet out of range (max 255)'')
               else if list_all (\<lambda>c. is_hex c \<or> c = 46 \<or> c = 47 \<or> c = 58) s
               then Incomplete (js ''incomplete IP address'')
               else Invalid (js ''not a valid IP or CIDR'')))"

definition sourceIpKind :: "jsstring \<Rightarrow> source_ip_kind" where
  "sourceIpKind cidr = (case cidr_match cidr of
      None \<Rightarrow> KNone
    | Some (addr, bitsStr) \<Rightarrow>
        if cidr = js ''0.0.0.0/0'' then KAny
        else case ipv4Octets addr of
          Some v4 \<Rightarrow>
            if digits_val bitsStr = 32 then KHost
            else if classifyV4 v4 = Public then KPublic else KPrivate
        | None \<Rightarrow> KIpv6)"

section \<open>Texts of numbers\<close>

lemma nat_text_digits_val:
  assumes "p \<noteq> []" "list_all is_digit p" "\<not> leading_zero p"
  shows "nat_text (digits_val p) = p"
  using assms
proof (induction p rule: rev_induct)
  case (snoc c q)
  have c: "48 \<le> c" "c \<le> 57" using snoc.prems by (auto simp: is_digit_def)
  show ?case
  proof (cases "q = []")
    case True
    then show ?thesis using c by (simp add: digits_val_def nat_text.simps)
  next
    case False
    then have h: "hd q \<noteq> 48" using snoc.prems by (simp add: leading_zero_def Suc_lessI)
    then have q: "nat_text (digits_val q) = q"
      using snoc False by (auto simp: leading_zero_def)
    have "digits_val q \<noteq> 0"
    proof
      assume "digits_val q = 0"
      then have "q = [48]" using q by (simp add: nat_text.simps)
      then show False using h by simp
    qed
    moreover obtain d where d: "c = 48 + d" "d < 10" using c by (intro that [of "c - 48"]) auto
    ultimately show ?thesis using q by (subst nat_text.simps) (simp add: digits_val_snoc)
  qed
qed simp

lemma nat_text_hd_0: "hd (nat_text n) = 48 \<Longrightarrow> n = 0"
proof (induction n rule: nat_text.induct)
  case (1 n)
  then show ?case by (cases "n < 10") (simp_all add: nat_text.simps [of n])
qed

lemma nat_text_lead: "\<not> leading_zero (nat_text n)"
proof
  assume "leading_zero (nat_text n)"
  then have "hd (nat_text n) = 48" "length (nat_text n) > 1" by (simp_all add: leading_zero_def)
  then show False using nat_text_hd_0 [of n] by (simp add: nat_text.simps)
qed

lemma length_nat_text: "n < 1000 \<Longrightarrow> length (nat_text n) \<le> 3"
  by (simp add: nat_text.simps)

lemma octet_shape_nat_text: "n < 1000 \<Longrightarrow> octet_shape (nat_text n)"
  by (simp add: octet_shape_def length_nat_text nat_text_digits)

section \<open>Dotted quads\<close>

definition quad :: "nat \<Rightarrow> nat \<Rightarrow> nat \<Rightarrow> nat \<Rightarrow> jsstring" where
  "quad a b c d = join (js ''.'') [nat_text a, nat_text b, nat_text c, nat_text d]"

lemma js_dot: "js ''.'' = [46]" by (simp add: js_def)

lemma dot_not_digit: "46 \<notin> set (nat_text n)"
  using nat_text_digit [of 46 n] by (auto simp: is_digit_def)

lemma split_quad [simp]: "split_on 46 (quad a b c d) = [nat_text a, nat_text b, nat_text c, nat_text d]"
  unfolding quad_def js_dot by (rule split_on_join) (simp_all add: dot_not_digit)

lemma quad_shape:
  assumes "a \<le> 255" "b \<le> 255" "c \<le> 255" "d \<le> 255"
  shows "dotted_shape (quad a b c d)" "\<not> list_ex leading_zero (split_on 46 (quad a b c d))"
    "ipv4Octets (quad a b c d) = Some [a, b, c, d]"
proof -
  show s: "dotted_shape (quad a b c d)" using assms by (simp add: dotted_shape_def octet_shape_nat_text)
  show "\<not> list_ex leading_zero (split_on 46 (quad a b c d))" by (simp add: nat_text_lead)
  show "ipv4Octets (quad a b c d) = Some [a, b, c, d]" using assms s by (simp add: ipv4Octets_def Let_def)
qed

lemma quad_unique:
  assumes "ipv4Octets s = Some os" "\<not> list_ex leading_zero (split_on 46 s)"
  shows "\<exists>a b c d. a \<le> 255 \<and> b \<le> 255 \<and> c \<le> 255 \<and> d \<le> 255 \<and> s = quad a b c d"
proof -
  have sh: "dotted_shape s" and os: "os = map digits_val (split_on 46 s)" "\<forall>n \<in> set os. n \<le> 255"
    using assms(1) by (auto simp: ipv4Octets_def Let_def list_ex_iff not_less split: if_splits)
  obtain p q r t where ps: "split_on 46 s = [p, q, r, t]"
    using sh by (auto simp: dotted_shape_def length_Suc_conv eval_nat_numeral)
  have "nat_text (digits_val x) = x" if "x \<in> {p, q, r, t}" for x
    by (rule nat_text_digits_val) (use that sh ps assms(2) in \<open>auto simp: dotted_shape_def octet_shape_def list_ex_iff\<close>)
  then have "s = quad (digits_val p) (digits_val q) (digits_val r) (digits_val t)"
    using join_split_on [of 46 s] ps by (simp add: quad_def js_dot)
  then show ?thesis using os ps by auto
qed

lemma quad_chars: "x \<in> set (quad a b c d) \<Longrightarrow> is_digit x \<or> x = 46"
  using nat_text_digit by (auto simp: quad_def js_dot)

lemma quad_not_Nil [simp]: "quad a b c d \<noteq> []"
  by (simp add: quad_def js_dot)

section \<open>CIDR texts\<close>

lemma cidr_match_sound:
  assumes "cidr_match s = Some (a, ds)"
  shows "s = a @ 47 # ds \<and> ds \<noteq> [] \<and> a \<noteq> [] \<and> list_all is_digit ds"
proof -
  obtain x where x: "dropWhile is_digit (rev s) = 47 # x" "a = rev x" "ds = rev (takeWhile is_digit (rev s))" "x \<noteq> []" "ds \<noteq> []"
    using assms by (auto simp: cidr_match_def Let_def split: list.splits if_splits)
  have "rev s = takeWhile is_digit (rev s) @ 47 # x" using x(1) by (metis takeWhile_dropWhile_id)
  then have "s = rev x @ 47 # rev (takeWhile is_digit (rev s))" by (metis append.assoc append_Cons append_Nil rev.simps(2) rev_append rev_rev_ident)
  moreover have "list_all is_digit ds" using x(3) by (auto simp: list_all_iff dest: set_takeWhileD)
  ultimately show ?thesis using x by simp
qed

lemma cidr_match_complete:
  assumes "ds \<noteq> []" "list_all is_digit ds" "a \<noteq> []" "\<forall>x \<in> set a. x \<notin> {10, 13, 8232, 8233}"
  shows "cidr_match (a @ 47 # ds) = Some (a, ds)"
proof -
  have d: "\<forall>x \<in> set (rev ds). is_digit x" "\<not> is_digit 47" using assms by (auto simp: list_all_iff is_digit_def)
  have "takeWhile is_digit (rev (a @ 47 # ds)) = rev ds" "dropWhile is_digit (rev (a @ 47 # ds)) = 47 # rev a"
    using d by (simp_all add: takeWhile_append dropWhile_append3 dropWhile_append)
  then show ?thesis using assms by (auto simp: cidr_match_def Let_def list_all_iff)
qed

definition quad_cidr :: "nat \<Rightarrow> nat \<Rightarrow> nat \<Rightarrow> nat \<Rightarrow> nat \<Rightarrow> jsstring" where
  "quad_cidr a b c d n = quad a b c d @ 47 # nat_text n"

lemma cidr_match_quad: "cidr_match (quad_cidr a b c d n) = Some (quad a b c d, nat_text n)"
  unfolding quad_cidr_def
  by (rule cidr_match_complete) (auto simp: nat_text_digits is_digit_def dest!: quad_chars)

lemma cidr_match_no_slash: "47 \<notin> set s \<Longrightarrow> cidr_match s = None"
  using cidr_match_sound [of s] by (cases "cidr_match s") auto

lemma quad_no_cidr [simp]: "cidr_match (quad a b c d) = None"
  by (rule cidr_match_no_slash) (auto simp: is_digit_def dest!: quad_chars)

section \<open>Properties\<close>

definition stored :: "source_ip_parse \<Rightarrow> jsstring option" where
  "stored p = (case p of Valid v _ \<Rightarrow> Some v | Host v _ _ \<Rightarrow> Some v | AnyIp v _ _ \<Rightarrow> Some v | _ \<Rightarrow> None)"

lemma ipv6_needs_colon: "looksIpv6 s \<Longrightarrow> 58 \<in> set s"
  using indexOf_Some [of s "js '':''"]
  by (auto simp: looksIpv6_def contains_def startsWith_iff js_def) (metis in_set_dropD list.set_intros(1))

lemma parse_quad:
  assumes "a \<le> 255" "b \<le> 255" "c \<le> 255" "d \<le> 255" "trim raw = quad a b c d"
  shows "stored (parseSourceIp raw) = Some (quad_cidr a b c d 32)"
  using assms quad_shape [OF assms(1-4)]
  by (simp add: parseSourceIp_def Let_def stored_def quad_cidr_def js_def nat_text.simps)

lemma parse_quad_cidr:
  assumes "a \<le> 255" "b \<le> 255" "c \<le> 255" "d \<le> 255" "n \<le> 32" "trim raw = quad_cidr a b c d n"
  shows "stored (parseSourceIp raw) = Some (if n = 0 then js ''0.0.0.0/0'' else quad_cidr a b c d n)"
proof -
  have "quad_cidr a b c d n \<noteq> []" by (simp add: quad_cidr_def)
  then show ?thesis
    using assms quad_shape [OF assms(1-4)] length_nat_text [of n] nat_text_lead [of n]
    by (simp add: parseSourceIp_def Let_def stored_def cidr_match_quad)
qed

lemma parse_sound:
  assumes "58 \<notin> set raw" "stored (parseSourceIp raw) = Some v"
  shows "\<exists>a b c d. a \<le> 255 \<and> b \<le> 255 \<and> c \<le> 255 \<and> d \<le> 255 \<and>
    (trim raw = quad a b c d \<or> (\<exists>n \<le> 32. trim raw = quad_cidr a b c d n))"
proof -
  let ?s = "trim raw"
  have nc: "58 \<notin> set ?s" using assms(1) set_trim by blast
  have n6: "\<not> looksIpv6 ?s" using nc ipv6_needs_colon by blast
  show ?thesis
  proof (cases "cidr_match ?s")
    case None
    then obtain os where "ipv4Octets ?s = Some os" "\<not> list_ex leading_zero (split_on 46 ?s)"
      using assms(2) n6
      by (auto simp: parseSourceIp_def Let_def stored_def ipv4Octets_def split: if_splits)
    then show ?thesis using quad_unique by blast
  next
    case (Some ab)
    then obtain x ds where xs: "cidr_match ?s = Some (x, ds)" by (cases ab) auto
    note sd = cidr_match_sound [OF xs]
    have x6: "\<not> looksIpv6 x" using sd nc ipv6_needs_colon [of x] by auto
    show ?thesis
    proof (cases "length ds \<le> 3")
      case True
      obtain os where os: "ipv4Octets x = Some os" "digits_val ds \<le> 32" "\<not> leading_zero ds"
          "\<not> (dotted_shape x \<and> list_ex leading_zero (split_on 46 x))"
        using assms(2) xs x6 True
        by (auto simp: parseSourceIp_def Let_def stored_def split: if_splits option.splits)
      then have "\<not> list_ex leading_zero (split_on 46 x)" by (auto simp: ipv4Octets_def split: if_splits)
      with os(1) obtain a b c d where q: "a \<le> 255" "b \<le> 255" "c \<le> 255" "d \<le> 255" "x = quad a b c d"
        using quad_unique by blast
      moreover have "nat_text (digits_val ds) = ds" using sd os(3) by (intro nat_text_digits_val) auto
      then have "?s = quad_cidr a b c d (digits_val ds)" using sd q by (simp add: quad_cidr_def)
      ultimately show ?thesis using os(2) by blast
    next
      case False
      have "\<not> dotted_shape ?s"
      proof
        assume "dotted_shape ?s"
        then have "47 \<notin> set (join [46] (split_on 46 ?s))"
          by (auto simp: dotted_shape_def octet_shape_def list_all_iff length_Suc_conv eval_nat_numeral is_digit_def)
        then show False using sd join_split_on [of 46 ?s] by auto
      qed
      then have "ipv4Octets ?s = None" by (simp add: ipv4Octets_def)
      then show ?thesis using assms(2) xs False n6 \<open>\<not> dotted_shape ?s\<close>
        by (auto simp: parseSourceIp_def Let_def stored_def split: if_splits)
    qed
  qed
qed



text \<open>
  The badge of a stored IPv4 network agrees with its entry. What is stored for an accepted IPv4 entry is
  labelled any exactly for 0.0.0.0/0, host exactly for length 32 otherwise, and public or private according to
  the class of the address.
\<close>

theorem source_ip_kind_of_stored:
  assumes "a \<le> 255" and "b \<le> 255" and "c \<le> 255" and "d \<le> 255" and "n \<le> 32"
  shows "sourceIpKind (quad_cidr a b c d n) =
    (if (a, b, c, d, n) = (0, 0, 0, 0, 0) then KAny
     else if n = 32 then KHost
     else if classifyV4 [a, b, c, d] = Public then KPublic else KPrivate)"
proof -
  have z: "quad_cidr 0 0 0 0 0 = js ''0.0.0.0/0''" by (simp add: quad_cidr_def quad_def js_def nat_text.simps)
  have "quad_cidr a b c d n = quad_cidr 0 0 0 0 0 \<longleftrightarrow> (a, b, c, d, n) = (0, 0, 0, 0, 0)"
  proof
    assume e: "quad_cidr a b c d n = quad_cidr 0 0 0 0 0"
    have m: "quad a b c d = quad 0 0 0 0 \<and> nat_text n = nat_text 0"
      using arg_cong [OF e, of cidr_match] unfolding cidr_match_quad by simp
    then have "map digits_val (split_on 46 (quad a b c d)) = [0, 0, 0, 0]" by simp
    moreover have "n = 0" using m by (metis digits_val_nat_text)
    ultimately show "(a, b, c, d, n) = (0, 0, 0, 0, 0)" by simp
  qed simp
  then show ?thesis using quad_shape [OF assms(1-4)] z by (simp add: sourceIpKind_def cidr_match_quad)
qed

theorem source_ip_kind_of_stored_witness: "sourceIpKind (quad_cidr 8 8 8 8 32) = KHost"
  using source_ip_kind_of_stored [of 8 8 8 8 32] by simp

text \<open>The comment of the source says that nonsense is rejected; three colons are stored as an IPv6 host.\<close>

theorem three_colons_accepted: "stored (parseSourceIp (js '':::'')) = Some (js '':::/128'')"
  by (simp add: parseSourceIp_def stored_def js_def trim_id is_space_def cidr_match_def Let_def dotted_shape_def
      ipv4Octets_def looksIpv6_def contains_def is_digit_def startsWith_def)

end
