(* ===== verification/Validation.thy ===== *)
theory Validation
  imports SourceIp
begin

text \<open>
  The field validators of the console (\<open>utils/validation.ts\<close>, \<open>pages/setup/validate.ts\<close>,
  \<open>pages/profile/validate.ts\<close>) and the form resolvers built from them
  (\<open>pages/setup/*Resolver.ts\<close>, \<open>pages/profile/*Schema.ts\<close>). A validator that returns
  \<open>string | null\<close> returns a \<open>jsstring option\<close>. The regular expressions are decision
  functions on code units; the ones with a choice are shown equal to the language they denote.
\<close>

section \<open>Regular expressions\<close>

abbreviation lower_alnum :: "nat \<Rightarrow> bool" where
  "lower_alnum c \<equiv> is_lower c \<or> is_digit c"

text \<open>The class \<open>[a-z0-9._@-]\<close>.\<close>

definition username_char :: "nat \<Rightarrow> bool" where
  "username_char c \<longleftrightarrow> lower_alnum c \<or> c = 46 \<or> c = 95 \<or> c = 64 \<or> c = 45"

definition username_regex :: "jsstring \<Rightarrow> bool" where
  "username_regex s \<longleftrightarrow> 3 \<le> length s \<and> length s \<le> 32 \<and> list_all username_char s"

text \<open>The class \<open>[^\s@]\<close>.\<close>

definition email_char :: "nat \<Rightarrow> bool" where
  "email_char c \<longleftrightarrow> \<not> is_space c \<and> c \<noteq> 64"

text \<open>
  \<open>^[^\s@]+@[^\s@]+\.[^\s@]+$\<close>: one \<open>@\<close>, text before it, and after it a dot that is
  neither the first nor the last character.
\<close>

definition email_regex :: "jsstring \<Rightarrow> bool" where
  "email_regex s = (case split_on 64 s of
      [l, d] \<Rightarrow> l \<noteq> [] \<and> list_all email_char l \<and> list_all email_char d \<and>
                list_ex (\<lambda>i. d ! i = 46) [1 ..< length d - 1]
    | _ \<Rightarrow> False)"

text \<open>\<open>^[a-z0-9]([a-z0-9-]*[a-z0-9])?$\<close>.\<close>

definition namespace_char :: "nat \<Rightarrow> bool" where
  "namespace_char c \<longleftrightarrow> lower_alnum c \<or> c = 45"

definition namespace_regex :: "jsstring \<Rightarrow> bool" where
  "namespace_regex s \<longleftrightarrow>
     s \<noteq> [] \<and> lower_alnum (hd s) \<and> lower_alnum (last s) \<and> list_all namespace_char s"

section \<open>Shared validators\<close>

definition NAME_MAX_LENGTH :: nat where
  "NAME_MAX_LENGTH = 64"

definition USERNAME_HINT :: jsstring where
  "USERNAME_HINT = js ''3-32 characters: lowercase letters, numbers, hyphens, dots, underscores, @''"

definition validateName :: "jsstring \<Rightarrow> jsstring option" where
  "validateName value =
     (let trimmed = trim value in
      if trimmed = [] then Some (js ''Name is required'')
      else if length trimmed > NAME_MAX_LENGTH
        then Some (js ''Name must be at most '' @ nat_text NAME_MAX_LENGTH @ js '' characters'')
      else None)"

definition validateUsername :: "jsstring \<Rightarrow> jsstring option" where
  "validateUsername value =
     (let trimmed = trim value in
      if trimmed = [] then Some (js ''Username is required'')
      else if \<not> username_regex trimmed then Some USERNAME_HINT
      else None)"

definition validateEmail :: "jsstring \<Rightarrow> jsstring option" where
  "validateEmail value =
     (let trimmed = trim value in
      if trimmed = [] then Some (js ''Email is required'')
      else if \<not> email_regex trimmed then Some (js ''Enter a valid email address'')
      else None)"

definition validateIdentifier :: "jsstring \<Rightarrow> jsstring option" where
  "validateIdentifier value =
     (let trimmed = trim value in
      if trimmed = [] then Some (js ''Username or email is required'')
      else if email_regex trimmed \<or> username_regex trimmed then None
      else Some (js ''Enter a valid username or email''))"

definition PASSWORD_MIN_LENGTH :: nat where
  "PASSWORD_MIN_LENGTH = 5"

definition PASSWORD_MAX_LENGTH :: nat where
  "PASSWORD_MAX_LENGTH = 32"

definition validatePassword :: "jsstring \<Rightarrow> jsstring option" where
  "validatePassword value =
     (if length value < PASSWORD_MIN_LENGTH \<or> length value > PASSWORD_MAX_LENGTH
      then Some (js ''Password must be '' @ nat_text PASSWORD_MIN_LENGTH @ [8211] @
                 nat_text PASSWORD_MAX_LENGTH @ js '' characters long'')
      else None)"

definition NAMESPACE_NAME_MIN_LENGTH :: nat where
  "NAMESPACE_NAME_MIN_LENGTH = 3"

definition NAMESPACE_NAME_MAX_LENGTH :: nat where
  "NAMESPACE_NAME_MAX_LENGTH = 30"

definition validateNamespaceName :: "jsstring \<Rightarrow> jsstring option" where
  "validateNamespaceName name =
     (if length name < NAMESPACE_NAME_MIN_LENGTH
        then Some (js ''Name must be at least '' @ nat_text NAMESPACE_NAME_MIN_LENGTH @ js '' characters'')
      else if length name > NAMESPACE_NAME_MAX_LENGTH
        then Some (js ''Name must be at most '' @ nat_text NAMESPACE_NAME_MAX_LENGTH @ js '' characters'')
      else if \<not> namespace_regex name
        then Some (js ''Only lowercase letters, numbers, and hyphens (cannot start or end with hyphen)'')
      else None)"

definition MAX_NAMESPACES_ERROR :: jsstring where
  "MAX_NAMESPACES_ERROR = js ''Max namespaces must be a number greater than or equal to 1''"

definition isMaxNamespacesValid :: "bool \<Rightarrow> bool \<Rightarrow> jsstring \<Rightarrow> bool" where
  "isMaxNamespacesValid limitEnabled limitDisabled maxNamespaces \<longleftrightarrow>
     \<not> limitEnabled \<or> limitDisabled \<or>
     (case parseInt maxNamespaces of None \<Rightarrow> False | Some n \<Rightarrow> n \<ge> 1)"

section \<open>The sign-up and setup forms\<close>

text \<open>
  \<open>suggestNamespace\<close>. Lower-casing is a parameter: the result is well formed for every
  case mapping, the full Unicode one included.
\<close>

definition suggestNamespace :: "(jsstring \<Rightarrow> jsstring) \<Rightarrow> jsstring \<Rightarrow> jsstring" where
  "suggestNamespace toLowerCase username =
     (let s1 = toLowerCase username;
          s2 = replace_runs (\<lambda>c. \<not> namespace_char c) [45] False s1;
          s3 = replace_runs (\<lambda>c. c = 45) [45] False s2;
          s4 = dropWhile (\<lambda>c. c = 45) s3;
          s5 = slice 0 NAMESPACE_NAME_MAX_LENGTH s4
      in rev (dropWhile (\<lambda>c. c = 45) (rev s5)))"

datatype setup_field = FName | FUsername | FNamespace | FEmail | FPassword | FConfirmPassword
  | FAcceptPrivacyPolicy | FAccount | FRecoveryCode

text \<open>An error of a field, with the \<open>type\<close> the form library receives.\<close>

type_synonym field_error = "setup_field \<times> string \<times> jsstring"

record account_fields =
  af_name :: jsstring
  af_username :: jsstring
  af_email :: jsstring
  af_password :: jsstring
  af_confirmPassword :: jsstring

text \<open>\<open>validate\<close>: the optional members of \<open>FormErrors\<close> as a map.\<close>

fun validate :: "account_fields \<Rightarrow> setup_field \<rightharpoonup> jsstring" where
  "validate acct FName =
     (if length (af_name acct) < 1 \<or> length (af_name acct) > 64
      then Some (js ''Name must be 1-64 characters long'') else None)"
| "validate acct FUsername =
     (if length (af_username acct) < 3 \<or> length (af_username acct) > 32
        then Some (js ''Username must be 3-32 characters long'')
      else if \<not> (af_username acct \<noteq> [] \<and> list_all username_char (af_username acct))
        then Some (js ''Only lowercase letters, numbers, and -_.@ are allowed'')
      else None)"
| "validate acct FEmail =
     (if af_email acct = [] \<or> \<not> email_regex (af_email acct)
      then Some (js ''Enter a valid email address'') else None)"
| "validate acct FPassword =
     (if length (af_password acct) < 5 \<or> length (af_password acct) > 32
      then Some (js ''Password must be 5-32 characters long'') else None)"
| "validate acct FConfirmPassword =
     (if af_confirmPassword acct \<noteq> af_password acct
      then Some (js ''Passwords do not match'') else None)"
| "validate acct _ = None"

text \<open>The loop over \<open>VALIDATE_FIELDS\<close>; an empty message counts as none.\<close>

definition collect_errors :: "setup_field list \<Rightarrow> (setup_field \<rightharpoonup> jsstring) \<Rightarrow> field_error list" where
  "collect_errors fs errors =
     concat (map (\<lambda>f. case errors f of
                        Some m \<Rightarrow> if m = [] then [] else [(f, ''validate'', m)]
                      | None \<Rightarrow> []) fs)"

datatype 'v resolved = Resolved 'v | Rejected "field_error list"

definition resolve :: "field_error list \<Rightarrow> 'v \<Rightarrow> 'v resolved" where
  "resolve errors v = (if errors \<noteq> [] then Rejected errors else Resolved v)"

definition VALIDATE_FIELDS :: "setup_field list" where
  "VALIDATE_FIELDS = [FName, FUsername, FEmail, FPassword, FConfirmPassword]"

text \<open>A message that is present and not empty, as \<open>if (error)\<close> tests it.\<close>

definition error_of :: "setup_field \<Rightarrow> jsstring option \<Rightarrow> field_error list" where
  "error_of f e = (case e of None \<Rightarrow> [] | Some m \<Rightarrow> if m = [] then [] else [(f, ''validate'', m)])"

definition setupResolver :: "account_fields \<times> jsstring \<Rightarrow> (account_fields \<times> jsstring) resolved" where
  "setupResolver values = (case values of (acct, namespace) \<Rightarrow>
     resolve (collect_errors VALIDATE_FIELDS (validate acct) @
              error_of FNamespace (validateNamespaceName namespace)) values)"

definition signUpResolver :: "account_fields \<times> bool \<Rightarrow> (account_fields \<times> bool) resolved" where
  "signUpResolver values = (case values of (acct, acceptPrivacyPolicy) \<Rightarrow>
     resolve (collect_errors VALIDATE_FIELDS (validate acct) @
              (if \<not> acceptPrivacyPolicy
               then [(FAcceptPrivacyPolicy, ''required'', js ''You must accept the privacy policy'')]
               else [])) values)"

text \<open>The invited user has no email field; the shared check gets a placeholder.\<close>

record invite_values =
  iv_name :: jsstring
  iv_username :: jsstring
  iv_password :: jsstring
  iv_confirmPassword :: jsstring

definition inviteResolver :: "invite_values \<Rightarrow> invite_values resolved" where
  "inviteResolver values =
     (let formErrors = validate \<lparr>af_name = iv_name values, af_username = iv_username values,
            af_email = js ''invite@placeholder.local'', af_password = iv_password values,
            af_confirmPassword = iv_confirmPassword values\<rparr>
      in resolve (collect_errors [FName, FUsername, FPassword, FConfirmPassword] formErrors) values)"

definition loginResolver :: "jsstring \<times> jsstring \<Rightarrow> (jsstring \<times> jsstring) resolved" where
  "loginResolver values = (case values of (username, password) \<Rightarrow>
     resolve (error_of FUsername (validateIdentifier username) @
              (if password = [] then [(FPassword, ''required'', js ''Password is required'')] else []))
       (trim username, password))"

definition forgotPasswordResolver :: "jsstring \<Rightarrow> jsstring resolved" where
  "forgotPasswordResolver account =
     resolve (error_of FAccount (validateIdentifier account)) (trim account)"

definition mfaRecoverResolver :: "jsstring \<Rightarrow> jsstring resolved" where
  "mfaRecoverResolver recoveryCode0 =
     (let recoveryCode = trim recoveryCode0 in
      if recoveryCode = []
      then Rejected [(FRecoveryCode, ''required'', js ''Recovery code is required'')]
      else Resolved recoveryCode)"

definition updatePasswordResolver :: "jsstring \<times> jsstring \<Rightarrow> (jsstring \<times> jsstring) resolved" where
  "updatePasswordResolver values = (case values of (password, confirmPassword) \<Rightarrow>
     resolve (error_of FPassword (validatePassword password) @
              (if confirmPassword \<noteq> password
               then [(FConfirmPassword, ''validate'', js ''Passwords do not match'')] else []))
       (password, confirmPassword))"

section \<open>The profile forms\<close>

definition profile_validateName :: "jsstring \<Rightarrow> jsstring option" where
  "profile_validateName v =
     (if trim v = [] then Some (js ''Name is required'')
      else if length v > 64 then Some (js ''Name must be at most 64 characters'')
      else None)"

definition profile_validateUsername :: "jsstring \<Rightarrow> jsstring option" where
  "profile_validateUsername v =
     (if trim v = [] then Some (js ''Username is required'')
      else if length v > 32 then Some (js ''Username must be at most 32 characters'')
      else if v \<noteq> toLower v then Some (js ''Username must be lowercase'')
      else if contains v (js '' '') then Some (js ''Username cannot contain spaces'')
      else if \<not> (v \<noteq> [] \<and> list_all username_char v)
        then Some (js ''Only lowercase letters, numbers, dots, underscores, @ and hyphens are allowed'')
      else None)"

definition profile_validateEmail :: "jsstring \<Rightarrow> jsstring option" where
  "profile_validateEmail v =
     (if trim v = [] then Some (js ''Email is required'')
      else if \<not> email_regex v then Some (js ''Invalid email format'')
      else None)"

definition validateRecoveryEmail :: "jsstring \<Rightarrow> jsstring \<Rightarrow> jsstring option" where
  "validateRecoveryEmail recoveryEmail primaryEmail =
     (if recoveryEmail = [] then None
      else if \<not> email_regex recoveryEmail then Some (js ''Invalid email format'')
      else if toLower recoveryEmail = toLower primaryEmail
        then Some (js ''Must be different from your email'')
      else None)"

text \<open>The issues a schema reports: the path and the message, in the order they are added.\<close>

type_synonym issue = "string \<times> jsstring"

definition issue_of :: "string \<Rightarrow> jsstring option \<Rightarrow> issue list" where
  "issue_of path e = (case e of None \<Rightarrow> [] | Some m \<Rightarrow> if m = [] then [] else [(path, m)])"

definition issue_if :: "bool \<Rightarrow> string \<Rightarrow> string \<Rightarrow> issue list" where
  "issue_if c path m = (if c then [(path, js m)] else [])"

definition changePasswordSchema :: "jsstring \<Rightarrow> jsstring \<Rightarrow> jsstring \<Rightarrow> issue list" where
  "changePasswordSchema current newPw confirmPw =
     (if newPw \<noteq> [] then issue_of ''newPw'' (validatePassword newPw) else []) @
     issue_if (confirmPw \<noteq> [] \<and> confirmPw \<noteq> newPw) ''confirmPw'' ''Passwords do not match''"

record profile_values =
  pv_name :: jsstring
  pv_username :: jsstring
  pv_email :: jsstring
  pv_recoveryEmail :: jsstring

definition editProfileSchema :: "jsstring \<Rightarrow> jsstring \<Rightarrow> jsstring \<Rightarrow> profile_values \<Rightarrow> issue list" where
  "editProfileSchema cur_name cur_username cur_email values =
     (if pv_name values \<noteq> cur_name then issue_of ''name'' (profile_validateName (pv_name values)) else []) @
     (if pv_username values \<noteq> cur_username
      then issue_of ''username'' (profile_validateUsername (pv_username values)) else []) @
     (if pv_email values \<noteq> cur_email
      then issue_of ''email'' (profile_validateEmail (pv_email values)) else []) @
     (if pv_recoveryEmail values \<noteq> []
      then issue_of ''recoveryEmail'' (validateRecoveryEmail (pv_recoveryEmail values) (pv_email values))
      else [])"

section \<open>The languages of the regular expressions\<close>

lemma split_on_two:
  assumes "split_on d s = [a, b]"
  shows "s = a @ d # b \<and> d \<notin> set a \<and> d \<notin> set b"
  using join_split_on [of d s] assms split_on_no_sep [of a d s] split_on_no_sep [of b d s] by simp

lemma split_on_two_plain: "d \<notin> set a \<Longrightarrow> d \<notin> set b \<Longrightarrow> split_on d (a @ d # b) = [a, b]"
  by (simp add: split_on_append split_on_plain)

lemma email_chars_no_at: "list_all email_char a \<Longrightarrow> 64 \<notin> set a"
  by (auto simp: email_char_def list_all_iff)

text \<open>The decision function accepts exactly the strings the pattern denotes.\<close>

lemma email_regex_iff:
  "email_regex s \<longleftrightarrow>
     (\<exists>a b c. s = a @ [64] @ b @ [46] @ c \<and> a \<noteq> [] \<and> b \<noteq> [] \<and> c \<noteq> [] \<and>
              list_all email_char a \<and> list_all email_char b \<and> list_all email_char c)"
  (is "_ \<longleftrightarrow> ?R")
proof
  assume "email_regex s"
  then obtain l d where sp: "split_on 64 s = [l, d]" and l: "l \<noteq> []" "list_all email_char l"
    and d: "list_all email_char d" and ex: "list_ex (\<lambda>i. d ! i = 46) [1 ..< length d - 1]"
    by (auto simp: email_regex_def split: list.splits)
  from ex obtain i where i: "1 \<le> i" "i < length d - 1" "d ! i = 46"
    by (auto simp: list_ex_iff)
  then have "d = take i d @ [46] @ drop (Suc i) d"
    using id_take_nth_drop [of i d] by simp
  moreover have "take i d \<noteq> []" "drop (Suc i) d \<noteq> []"
    using i by auto
  moreover have "list_all email_char (take i d)" "list_all email_char (drop (Suc i) d)"
    using d by (auto simp: list_all_iff dest: in_set_takeD in_set_dropD)
  moreover have "s = l @ [64] @ d"
    using split_on_two [OF sp] by simp
  ultimately show ?R
    using l by (intro exI [of _ l] exI [of _ "take i d"] exI [of _ "drop (Suc i) d"]) auto
next
  assume ?R
  then obtain a b c where s: "s = a @ 64 # (b @ 46 # c)" and ne: "a \<noteq> []" "b \<noteq> []" "c \<noteq> []"
    and ok: "list_all email_char a" "list_all email_char b" "list_all email_char c"
    by auto
  have "split_on 64 s = [a, b @ 46 # c]"
    unfolding s using ok by (intro split_on_two_plain) (auto dest: email_chars_no_at)
  moreover have "list_all email_char (b @ 46 # c)"
    using ok by (simp add: email_char_def is_space_def)
  moreover have "list_ex (\<lambda>i. (b @ 46 # c) ! i = 46) [1 ..< length (b @ 46 # c) - 1]"
    unfolding list_ex_iff using ne by (intro bexI [of _ "length b"]) (auto simp: Suc_le_eq)
  ultimately show "email_regex s"
    using ne ok by (simp add: email_regex_def)
qed

lemma email_regex_no_space: "email_regex s \<Longrightarrow> list_all (\<lambda>c. \<not> is_space c) s"
proof -
  have "\<not> is_space 64" "\<not> is_space 46"
    by (simp_all add: is_space_def)
  then show "email_regex s \<Longrightarrow> ?thesis"
    by (auto simp: email_regex_iff email_char_def list_all_iff)
qed

lemma username_no_space: "list_all username_char s \<Longrightarrow> list_all (\<lambda>c. \<not> is_space c) s"
proof -
  have "username_char c \<Longrightarrow> \<not> is_space c" for c
    by (auto simp: username_char_def char_class_defs)
  then show "list_all username_char s \<Longrightarrow> ?thesis"
    by (auto simp: list_all_iff)
qed

lemma trim_no_space: "list_all (\<lambda>c. \<not> is_space c) s \<Longrightarrow> trim s = s"
  by (cases "s = []") (auto simp: list_all_iff intro!: trim_id)

lemma email_regex_trim: "email_regex s \<Longrightarrow> trim s = s"
  by (rule trim_no_space, rule email_regex_no_space)

lemma username_trim: "list_all username_char s \<Longrightarrow> trim s = s"
  by (rule trim_no_space, rule username_no_space)

section \<open>The suggested namespace\<close>

lemma set_replace_runs: "set (replace_runs P r b s) \<subseteq> set r \<union> {c \<in> set s. \<not> P c}"
proof (induction s arbitrary: b)
  case (Cons a s)
  show ?case
    using Cons.IH [of True] Cons.IH [of False] by auto
qed simp

lemma set_dropWhile_rev: "set (rev (dropWhile P (rev s))) \<subseteq> set s"
  using set_dropWhileD [of _ P "rev s"] by auto

lemma hd_dropWhile_rev:
  "rev (dropWhile P (rev s)) \<noteq> [] \<Longrightarrow> hd (rev (dropWhile P (rev s))) = hd s"
proof -
  have "s = rev (dropWhile P (rev s)) @ rev (takeWhile P (rev s))"
    by (metis rev_append rev_rev_ident takeWhile_dropWhile_id)
  then show "rev (dropWhile P (rev s)) \<noteq> [] \<Longrightarrow> ?thesis"
    by (metis hd_append2)
qed

lemma suggest_chars: "list_all namespace_char (suggestNamespace lc u)"
proof -
  let ?s2 = "replace_runs (\<lambda>c. \<not> namespace_char c) [45] False (lc u)"
  let ?s3 = "replace_runs (\<lambda>c. c = 45) [45] False ?s2"
  have "list_all namespace_char ?s2"
    using set_replace_runs [of "\<lambda>c. \<not> namespace_char c" "[45]" False "lc u"]
    by (auto simp: list_all_iff namespace_char_def)
  then have 3: "list_all namespace_char ?s3"
    using set_replace_runs [of "\<lambda>c. c = 45" "[45]" False ?s2]
    by (auto simp: list_all_iff namespace_char_def)
  have "set (suggestNamespace lc u) \<subseteq> set ?s3"
    unfolding suggestNamespace_def Let_def slice_def
    using set_dropWhile_rev by (fastforce dest: in_set_takeD set_dropWhileD)
  then show ?thesis
    using 3 by (auto simp: list_all_iff)
qed

lemma suggest_ends:
  assumes "suggestNamespace lc u \<noteq> []"
  shows "hd (suggestNamespace lc u) \<noteq> 45 \<and> last (suggestNamespace lc u) \<noteq> 45"
proof -
  define s4 where "s4 = dropWhile (\<lambda>c. c = 45)
    (replace_runs (\<lambda>c. c = 45) [45] False (replace_runs (\<lambda>c. \<not> namespace_char c) [45] False (lc u)))"
  define s5 where "s5 = slice 0 NAMESPACE_NAME_MAX_LENGTH s4"
  have eq: "suggestNamespace lc u = rev (dropWhile (\<lambda>c. c = 45) (rev s5))"
    by (simp add: suggestNamespace_def s4_def s5_def)
  have "last (suggestNamespace lc u) \<noteq> 45"
    using assms dropWhile_rev_last [of "\<lambda>c. c = 45" s5] unfolding eq by auto
  moreover have "s5 \<noteq> []"
    using assms unfolding eq by auto
  then have "hd s5 = hd s4" "s4 \<noteq> []"
    by (auto simp: s5_def slice_def NAMESPACE_NAME_MAX_LENGTH_def)
  then have "hd s5 \<noteq> 45"
    using hd_dropWhile unfolding s4_def by (metis (mono_tags, lifting))
  then have "hd (suggestNamespace lc u) \<noteq> 45"
    using assms hd_dropWhile_rev unfolding eq by metis
  ultimately show ?thesis
    by blast
qed

lemma suggest_length: "length (suggestNamespace lc u) \<le> NAMESPACE_NAME_MAX_LENGTH"
proof -
  have "length (rev (dropWhile P (rev s))) \<le> length s" for P and s :: jsstring
    using length_dropWhile_le [of P "rev s"] by simp
  then show ?thesis
    unfolding suggestNamespace_def Let_def slice_def
    by (rule order_trans) simp
qed

lemma suggest_regex: "suggestNamespace lc u \<noteq> [] \<Longrightarrow> namespace_regex (suggestNamespace lc u)"
  using suggest_ends [of lc u] suggest_chars [of lc u] hd_in_set last_in_set
  by (fastforce simp: namespace_regex_def namespace_char_def list_all_iff)

text \<open>
  The namespace that setup suggests for a user name is never refused for its characters,
  its ends or for being too long: whatever the user name, validation either accepts the suggestion or
  reports that it is too short, and the latter only when fewer than three characters remain.
\<close>

theorem suggestNamespace_acceptable:
  "validateNamespaceName (suggestNamespace lc u) =
     (if length (suggestNamespace lc u) < 3
      then Some (js ''Name must be at least 3 characters'') else None)"
proof -
  have "nat_text 3 = js ''3''"
    by (simp add: nat_text.simps js_def)
  moreover have "suggestNamespace lc u \<noteq> []" if "\<not> length (suggestNamespace lc u) < 3"
    using that by auto
  ultimately show ?thesis
    using suggest_length [of lc u] suggest_regex [of lc u]
    by (auto simp: validateNamespaceName_def NAMESPACE_NAME_MIN_LENGTH_def js_def)
qed

section \<open>Accounts that the forms create can sign in\<close>

lemma resolve_Resolved: "resolve es v = Resolved w \<longleftrightarrow> es = [] \<and> w = v"
  by (auto simp: resolve_def)

lemma collect_errors_Nil:
  "collect_errors fs errs = [] \<longleftrightarrow> (\<forall>f\<in>set fs. errs f = None \<or> errs f = Some [])"
proof -
  have "(case errs f of Some m \<Rightarrow> if m = [] then [] else [(f, ''validate'', m)] | None \<Rightarrow> []) = []
      \<longleftrightarrow> errs f = None \<or> errs f = Some []" for f
    by (auto split: option.splits)
  then show ?thesis
    by (simp add: collect_errors_def)
qed

lemma error_of_Nil: "error_of f e = [] \<longleftrightarrow> e = None \<or> e = Some []"
  by (auto simp: error_of_def split: option.splits)

lemma validate_username:
  "validate a FUsername = None \<or> validate a FUsername = Some [] \<longleftrightarrow>
     username_regex (af_username a)"
  by (auto simp: username_regex_def)

lemma validate_email:
  "validate a FEmail = None \<or> validate a FEmail = Some [] \<longleftrightarrow> email_regex (af_email a)"
  by (cases "af_email a = []") (auto simp: email_regex_def)

lemma validate_password:
  "validate a FPassword = None \<or> validate a FPassword = Some [] \<longleftrightarrow>
     5 \<le> length (af_password a) \<and> length (af_password a) \<le> 32"
  by auto

lemma validate_confirm:
  "validate a FConfirmPassword = None \<or> validate a FConfirmPassword = Some [] \<longleftrightarrow>
     af_confirmPassword a = af_password a"
  by auto

lemmas validate_facts = validate_username validate_email validate_password validate_confirm

lemma username_not_Nil: "username_regex s \<Longrightarrow> s \<noteq> []"
  by (auto simp: username_regex_def)

lemma email_not_Nil: "email_regex s \<Longrightarrow> s \<noteq> []"
  by (auto simp: email_regex_iff)

lemma identifier_username: "username_regex s \<Longrightarrow> validateIdentifier s = None \<and> trim s = s"
  using username_trim [of s] username_not_Nil [of s]
  by (simp add: validateIdentifier_def username_regex_def)

lemma identifier_email: "email_regex s \<Longrightarrow> validateIdentifier s = None \<and> trim s = s"
  using email_regex_trim [of s] email_not_Nil [of s] by (simp add: validateIdentifier_def)

lemma login_accepts:
  "validateIdentifier u = None \<Longrightarrow> trim u = u \<Longrightarrow> p \<noteq> [] \<Longrightarrow>
     loginResolver (u, p) = Resolved (u, p)"
  by (simp add: loginResolver_def error_of_def resolve_def)

lemma password_accepts:
  "5 \<le> length p \<Longrightarrow> length p \<le> 32 \<Longrightarrow> updatePasswordResolver (p, p) = Resolved (p, p)"
  by (simp add: updatePasswordResolver_def validatePassword_def error_of_def resolve_def
      PASSWORD_MIN_LENGTH_def PASSWORD_MAX_LENGTH_def)

text \<open>
  An account that the setup form, the sign-up form or the invitation form accepts can be used
  to sign in: the sign-in form accepts its user name with its password, unchanged, and where the
  form has an email, the email with the password too; the password also satisfies the rule of
  the password-reset form.
\<close>

theorem accepted_account_signs_in:
  "(setupResolver (a, ns) = Resolved v1 \<or> signUpResolver (a, tos) = Resolved v2 \<longrightarrow>
      loginResolver (af_username a, af_password a) = Resolved (af_username a, af_password a) \<and>
      loginResolver (af_email a, af_password a) = Resolved (af_email a, af_password a) \<and>
      updatePasswordResolver (af_password a, af_confirmPassword a)
        = Resolved (af_password a, af_confirmPassword a)) \<and>
   (inviteResolver i = Resolved v3 \<longrightarrow>
      loginResolver (iv_username i, iv_password i) = Resolved (iv_username i, iv_password i) \<and>
      updatePasswordResolver (iv_password i, iv_confirmPassword i)
        = Resolved (iv_password i, iv_confirmPassword i))"
proof (intro conjI impI)
  assume "setupResolver (a, ns) = Resolved v1 \<or> signUpResolver (a, tos) = Resolved v2"
  then have "collect_errors VALIDATE_FIELDS (validate a) = []"
    by (auto simp: setupResolver_def signUpResolver_def resolve_Resolved)
  then have ok: "username_regex (af_username a)" "email_regex (af_email a)"
    "5 \<le> length (af_password a)" "length (af_password a) \<le> 32"
    "af_confirmPassword a = af_password a"
    using validate_facts [of a] by (auto simp: collect_errors_Nil VALIDATE_FIELDS_def)
  then have "af_password a \<noteq> []"
    by auto
  then show "loginResolver (af_username a, af_password a) = Resolved (af_username a, af_password a)"
    "loginResolver (af_email a, af_password a) = Resolved (af_email a, af_password a)"
    "updatePasswordResolver (af_password a, af_confirmPassword a)
        = Resolved (af_password a, af_confirmPassword a)"
    using ok identifier_username identifier_email by (simp_all add: login_accepts password_accepts)
next
  define b where "b = \<lparr>af_name = iv_name i, af_username = iv_username i,
    af_email = js ''invite@placeholder.local'', af_password = iv_password i,
    af_confirmPassword = iv_confirmPassword i\<rparr>"
  assume "inviteResolver i = Resolved v3"
  then have "collect_errors [FName, FUsername, FPassword, FConfirmPassword] (validate b) = []"
    by (simp add: inviteResolver_def resolve_Resolved b_def)
  then have ok: "username_regex (iv_username i)"
    "5 \<le> length (iv_password i)" "length (iv_password i) \<le> 32"
    "iv_confirmPassword i = iv_password i"
    using validate_facts [of b] by (auto simp: collect_errors_Nil b_def)
  then have "iv_password i \<noteq> []"
    by auto
  then show "loginResolver (iv_username i, iv_password i) = Resolved (iv_username i, iv_password i)"
    "updatePasswordResolver (iv_password i, iv_confirmPassword i)
        = Resolved (iv_password i, iv_confirmPassword i)"
    using ok identifier_username by (simp_all add: login_accepts password_accepts)
qed

lemmas form_eval = js_def collect_errors_def VALIDATE_FIELDS_def error_of_def
  resolve_def username_regex_def username_char_def email_regex_def email_char_def
  namespace_regex_def namespace_char_def validateNamespaceName_def
  NAMESPACE_NAME_MIN_LENGTH_def NAMESPACE_NAME_MAX_LENGTH_def char_class_defs

theorem accepted_account_signs_in_witness:
  "loginResolver (js ''ada'', js ''s3cret'') = Resolved (js ''ada'', js ''s3cret'') \<and>
   loginResolver (js ''ada@lab.io'', js ''s3cret'') = Resolved (js ''ada@lab.io'', js ''s3cret'')"
proof -
  define a where "a = \<lparr>af_name = js ''Ada'', af_username = js ''ada'', af_email = js ''ada@lab.io'',
    af_password = js ''s3cret'', af_confirmPassword = js ''s3cret''\<rparr>"
  have "signUpResolver (a, True) = Resolved (a, True)"
    by (simp add: signUpResolver_def a_def form_eval)
  then show ?thesis
    using accepted_account_signs_in [of a "js ''lab''" "(a, js ''lab'')" True "(a, True)"
        "\<lparr>iv_name = [], iv_username = [], iv_password = [], iv_confirmPassword = []\<rparr>"
        "\<lparr>iv_name = [], iv_username = [], iv_password = [], iv_confirmPassword = []\<rparr>"]
    by (simp add: a_def)
qed

text \<open>
  The profile form has no lower bound for the length of a user name: it accepts one of two
  letters, which the sign-in form refuses before the server is asked.
\<close>

theorem profile_username_locked_out:
  "profile_validateUsername (js ''ed'') = None \<and>
   editProfileSchema (js ''Ed'') (js ''edward'') (js ''e@d.io'')
     \<lparr>pv_name = js ''Ed'', pv_username = js ''ed'', pv_email = js ''e@d.io'', pv_recoveryEmail = []\<rparr> = [] \<and>
   loginResolver (js ''ed'', pw) \<noteq> Resolved v"
  by (cases "pw = []")
    (simp_all add: profile_validateUsername_def editProfileSchema_def issue_of_def contains_def
      startsWith_def toLower_def loginResolver_def validateIdentifier_def trim_def trimStart_def
      trimEnd_def form_eval)

end
