(* ===== verification/AccessForms.thy ===== *)
theory AccessForms
  imports Validation Codec
begin

text \<open>
  The forms for firewall rules (\<open>pages/firewall-rules/ruleSchema.ts\<close>) and public keys
  (\<open>pages/public-keys/keySchema.ts\<close>, with \<open>isPublicKeyValid\<close> of \<open>utils/sshKeys.ts\<close>).
  A schema is the list of issues it reports for the values of the form, in the order they are added;
  the builders turn the values into the request body and a stored entity into the values
  an edit form starts from. Whether a pattern compiles (\<open>new RegExp(p)\<close>) is a parameter.
  The locale \<open>edit_form\<close> is the contract the edit drawers rely on: what an edit form shows for a
  stored entity passes its own schema, and saving it unchanged sends the entity back.
\<close>

section \<open>The contract of an edit form\<close>

locale edit_form =
  fixes defaults :: "'e \<Rightarrow> 'v"
    and issues :: "'e \<Rightarrow> 'v \<Rightarrow> issue list"
    and body :: "'e \<Rightarrow> 'v \<Rightarrow> 'b"
    and stored :: "'e \<Rightarrow> bool"
    and request :: "'e \<Rightarrow> 'b"
  assumes defaults_valid: "stored e \<Longrightarrow> issues e (defaults e) = []"
    and body_defaults: "stored e \<Longrightarrow> body e (defaults e) = request e"
begin

text \<open>What the submit handler sends: nothing while the schema reports an issue.\<close>

definition submit :: "'e \<Rightarrow> 'v \<Rightarrow> 'b option" where
  "submit e v = (if issues e v = [] then Some (body e v) else None)"

lemma submit_unchanged: "stored e \<Longrightarrow> submit e (defaults e) = Some (request e)"
  by (simp add: submit_def defaults_valid body_defaults)

end

section \<open>Firewall rules\<close>

datatype rule_action = Allow | Deny
datatype restrict_option = AllSources | Restrict
datatype filter_option = FilterAll | FilterHostname | FilterTags

record rule_values =
  rv_priority :: jsstring
  rv_action :: rule_action
  rv_active :: bool
  rv_sourceIpOption :: restrict_option
  rv_sourceIp :: jsstring
  rv_usernameOption :: restrict_option
  rv_username :: jsstring
  rv_filterOption :: filter_option
  rv_hostname :: jsstring
  rv_tags :: "jsstring list"

definition rule_priority_issues :: "jsstring \<Rightarrow> issue list" where
  "rule_priority_issues priority =
     (if trim priority = [] then [(''priority'', js ''Priority is required'')]
      else if \<not> isInteger (toNumber priority) then [(''priority'', js ''Priority must be an integer'')]
      else if num_le (toNumber priority) 0
        then [(''priority'', js ''Priority must be a positive integer'')]
      else [])"

text \<open>The three checks of a pattern have one shape; \<open>label\<close> starts their messages.\<close>

definition pattern_issues :: "(jsstring \<Rightarrow> bool) \<Rightarrow> string \<Rightarrow> string \<Rightarrow> jsstring \<Rightarrow> issue list" where
  "pattern_issues isValidRegex path label p =
     (if trim p = [] then [(path, js (label @ '' pattern is required''))]
      else if \<not> isValidRegex p then [(path, js (label @ '' must be a valid regular expression''))]
      else [])"

definition tag_issues :: "jsstring list \<Rightarrow> issue list" where
  "tag_issues tags =
     (if length tags = 0 then [(''tags'', js ''Select at least one tag'')]
      else if length tags > 3 then [(''tags'', js ''You can select up to 3 tags'')]
      else [])"

definition ruleSchema :: "(jsstring \<Rightarrow> bool) \<Rightarrow> rule_values \<Rightarrow> issue list" where
  "ruleSchema isValidRegex values =
     rule_priority_issues (rv_priority values) @
     (if rv_sourceIpOption values = Restrict
      then pattern_issues isValidRegex ''sourceIp'' ''Source IP'' (rv_sourceIp values) else []) @
     (if rv_usernameOption values = Restrict
      then pattern_issues isValidRegex ''username'' ''Username'' (rv_username values) else []) @
     (if rv_filterOption values = FilterHostname
      then pattern_issues isValidRegex ''hostname'' ''Hostname'' (rv_hostname values) else []) @
     (if rv_filterOption values = FilterTags then tag_issues (rv_tags values) else [])"

definition rule_DEFAULT_VALUES :: rule_values where
  "rule_DEFAULT_VALUES = \<lparr>rv_priority = [], rv_action = Allow, rv_active = True,
     rv_sourceIpOption = AllSources, rv_sourceIp = [], rv_usernameOption = AllSources,
     rv_username = [], rv_filterOption = FilterAll, rv_hostname = [], rv_tags = []\<rparr>"

text \<open>The request: its filter has a host name or tags. A priority of NaN is \<open>None\<close>.\<close>

datatype filter_request = HostnameFilter jsstring | TagsFilter "jsstring list"

record rule_request =
  rq_priority :: "int option"
  rq_action :: rule_action
  rq_active :: bool
  rq_source_ip :: jsstring
  rq_username :: jsstring
  rq_filter :: filter_request

definition ANY :: jsstring where
  "ANY = js ''.*''"

definition buildRuleBody :: "rule_values \<Rightarrow> rule_request" where
  "buildRuleBody values = \<lparr>
     rq_priority = parseInt (rv_priority values),
     rq_action = rv_action values,
     rq_active = rv_active values,
     rq_source_ip = (if rv_sourceIpOption values = Restrict then trim (rv_sourceIp values) else ANY),
     rq_username = (if rv_usernameOption values = Restrict then trim (rv_username values) else ANY),
     rq_filter = (case rv_filterOption values of
        FilterHostname \<Rightarrow> HostnameFilter (trim (rv_hostname values))
      | FilterTags \<Rightarrow> TagsFilter (rv_tags values)
      | FilterAll \<Rightarrow> HostnameFilter ANY)\<rparr>"

text \<open>The stored rule the server returns; a tag is its name.\<close>

record rule_response =
  rs_priority :: int
  rs_action :: rule_action
  rs_active :: bool
  rs_source_ip :: jsstring
  rs_username :: jsstring
  rs_filter_hostname :: "jsstring option"
  rs_filter_tags :: "jsstring list"

text \<open>The choice between tags, host name and all, shared by both forms.\<close>

definition filter_option_of :: "jsstring option \<Rightarrow> jsstring list \<Rightarrow> filter_option" where
  "filter_option_of hostname tags =
     (if tags \<noteq> [] then FilterTags
      else if hostname \<noteq> None \<and> hostname \<noteq> Some ANY then FilterHostname
      else FilterAll)"

definition or_empty :: "jsstring option \<Rightarrow> jsstring" where
  "or_empty s = (case s of None \<Rightarrow> [] | Some t \<Rightarrow> t)"

definition buildRuleDefaults :: "rule_response \<Rightarrow> rule_values" where
  "buildRuleDefaults rule =
     (let filterOption = filter_option_of (rs_filter_hostname rule) (rs_filter_tags rule) in \<lparr>
       rv_priority = int_text (rs_priority rule),
       rv_action = rs_action rule,
       rv_active = rs_active rule,
       rv_sourceIpOption = (if rs_source_ip rule = ANY then AllSources else Restrict),
       rv_sourceIp = (if rs_source_ip rule = ANY then [] else rs_source_ip rule),
       rv_usernameOption = (if rs_username rule = ANY then AllSources else Restrict),
       rv_username = (if rs_username rule = ANY then [] else rs_username rule),
       rv_filterOption = filterOption,
       rv_hostname = (if filterOption = FilterHostname then or_empty (rs_filter_hostname rule) else []),
       rv_tags = (if rs_filter_tags rule \<noteq> [] then rs_filter_tags rule else [])\<rparr>)"

section \<open>Public keys\<close>

definition SSH_KEY_PREFIXES :: "jsstring list" where
  "SSH_KEY_PREFIXES = map js [''ssh-rsa'', ''ssh-dss'', ''ssh-ed25519'', ''ecdsa-sha2-nistp256'',
     ''ecdsa-sha2-nistp384'', ''ecdsa-sha2-nistp521'']"

definition isPublicKeyValid :: "jsstring \<Rightarrow> bool" where
  "isPublicKeyValid key =
     (let trimmed = trim key; parts = split_runs is_space False trimmed in
      if trimmed = [] then False
      else if list_ex (\<lambda>prefix. startsWith trimmed prefix \<and>
                 length parts \<ge> 2 \<and> length (parts ! 1) > 10) SSH_KEY_PREFIXES then True
      else if startsWith trimmed (js ''-----BEGIN'') then contains trimmed (js ''-----END'')
      else False)"

datatype key_mode = KeyCreate | KeyEdit
datatype username_option = AllUsers | OneUsername

record key_values =
  kv_name :: jsstring
  kv_data :: jsstring
  kv_usernameOption :: username_option
  kv_username :: jsstring
  kv_filterOption :: filter_option
  kv_hostname :: jsstring
  kv_tags :: "jsstring list"

definition key_DEFAULT_VALUES :: key_values where
  "key_DEFAULT_VALUES = \<lparr>kv_name = [], kv_data = [], kv_usernameOption = AllUsers, kv_username = [],
     kv_filterOption = FilterAll, kv_hostname = [], kv_tags = []\<rparr>"

definition keySchema :: "key_mode \<Rightarrow> key_values \<Rightarrow> issue list" where
  "keySchema mode values =
     issue_of ''name'' (validateName (kv_name values)) @
     (if mode = KeyCreate then
        if trim (kv_data values) = [] then [(''data'', js ''Public key data is required'')]
        else if \<not> isPublicKeyValid (kv_data values) then [(''data'', js ''This is not a valid public key'')]
        else []
      else []) @
     issue_if (kv_usernameOption values = OneUsername \<and> trim (kv_username values) = [])
       ''username'' ''Username pattern is required'' @
     issue_if (kv_filterOption values = FilterHostname \<and> trim (kv_hostname values) = [])
       ''hostname'' ''Hostname pattern is required'' @
     (if kv_filterOption values = FilterTags then tag_issues (kv_tags values) else [])"

record key_request =
  kq_name :: jsstring
  kq_data :: jsstring
  kq_username :: jsstring
  kq_filter :: filter_request

text \<open>\<open>btoa\<close> throws on a code unit above 255: then there is no body, \<open>None\<close>.\<close>

definition buildKeyBody :: "key_values \<Rightarrow> key_request option" where
  "buildKeyBody values = map_option (\<lambda>data. \<lparr>
     kq_name = trim (kv_name values),
     kq_data = data,
     kq_username = (if kv_usernameOption values = OneUsername then trim (kv_username values) else ANY),
     kq_filter = (case kv_filterOption values of
        FilterHostname \<Rightarrow> HostnameFilter (kv_hostname values)
      | FilterTags \<Rightarrow> TagsFilter (kv_tags values)
      | FilterAll \<Rightarrow> HostnameFilter ANY)\<rparr>) (btoa (trim (kv_data values)))"

record key_response =
  ks_name :: jsstring
  ks_data :: jsstring
  ks_username :: jsstring
  ks_filter_hostname :: "jsstring option"
  ks_filter_tags :: "jsstring list"

definition buildKeyDefaults :: "key_response \<Rightarrow> key_values" where
  "buildKeyDefaults key =
     (let filterOption = filter_option_of (ks_filter_hostname key) (ks_filter_tags key) in \<lparr>
       kv_name = ks_name key,
       kv_data = (case atob (ks_data key) of Some t \<Rightarrow> t | None \<Rightarrow> ks_data key),
       kv_usernameOption = (if ks_username key = ANY then AllUsers else OneUsername),
       kv_username = (if ks_username key = ANY then [] else ks_username key),
       kv_filterOption = filterOption,
       kv_hostname = (if filterOption = FilterHostname then or_empty (ks_filter_hostname key) else []),
       kv_tags = (if ks_filter_tags key \<noteq> [] then ks_filter_tags key else [])\<rparr>)"

section \<open>Saving an entity unchanged\<close>

text \<open>The filter of a stored entity and what the request for it must say.\<close>

definition filter_request_of :: "jsstring option \<Rightarrow> jsstring list \<Rightarrow> filter_request" where
  "filter_request_of hostname tags =
     (if tags \<noteq> [] then TagsFilter tags
      else HostnameFilter (case hostname of None \<Rightarrow> ANY | Some h \<Rightarrow> h))"

definition stored_pattern :: "(jsstring \<Rightarrow> bool) \<Rightarrow> jsstring \<Rightarrow> bool" where
  "stored_pattern isValidRegex p \<longleftrightarrow> p = ANY \<or> p \<noteq> [] \<and> trim p = p \<and> isValidRegex p"

definition stored_rule :: "(jsstring \<Rightarrow> bool) \<Rightarrow> rule_response \<Rightarrow> bool" where
  "stored_rule isValidRegex r \<longleftrightarrow>
     0 < rs_priority r \<and> stored_pattern isValidRegex (rs_source_ip r) \<and>
     stored_pattern isValidRegex (rs_username r) \<and> length (rs_filter_tags r) \<le> 3 \<and>
     (case rs_filter_hostname r of None \<Rightarrow> True | Some h \<Rightarrow> stored_pattern isValidRegex h)"

definition rule_request_of :: "rule_response \<Rightarrow> rule_request" where
  "rule_request_of r = \<lparr>rq_priority = Some (rs_priority r), rq_action = rs_action r,
     rq_active = rs_active r, rq_source_ip = rs_source_ip r, rq_username = rs_username r,
     rq_filter = filter_request_of (rs_filter_hostname r) (rs_filter_tags r)\<rparr>"

definition stored_key :: "key_response \<Rightarrow> bool" where
  "stored_key k \<longleftrightarrow>
     ks_name k \<noteq> [] \<and> trim (ks_name k) = ks_name k \<and> length (ks_name k) \<le> 64 \<and>
     (\<exists>t. trim t = t \<and> btoa t = Some (ks_data k)) \<and>
     ks_username k \<noteq> [] \<and> trim (ks_username k) = ks_username k \<and>
     length (ks_filter_tags k) \<le> 3 \<and>
     (case ks_filter_hostname k of None \<Rightarrow> True | Some h \<Rightarrow> trim h \<noteq> [])"

definition key_request_of :: "key_response \<Rightarrow> key_request" where
  "key_request_of k = \<lparr>kq_name = ks_name k, kq_data = ks_data k, kq_username = ks_username k,
     kq_filter = filter_request_of (ks_filter_hostname k) (ks_filter_tags k)\<rparr>"

lemma priority_text_valid: "0 < n \<Longrightarrow> rule_priority_issues (int_text n) = []"
  by (simp add: rule_priority_issues_def int_text_def)

lemma pattern_stored:
  "stored_pattern ok p \<Longrightarrow> p \<noteq> ANY \<Longrightarrow> pattern_issues ok path label p = [] \<and> trim p = p"
  by (auto simp: stored_pattern_def pattern_issues_def)

lemma tags_stored: "ts \<noteq> [] \<Longrightarrow> length ts \<le> 3 \<Longrightarrow> tag_issues ts = []"
  by (simp add: tag_issues_def)

lemma rule_defaults_valid: "stored_rule ok r \<Longrightarrow> ruleSchema ok (buildRuleDefaults r) = []"
  by (auto simp: ruleSchema_def buildRuleDefaults_def Let_def stored_rule_def filter_option_of_def
      priority_text_valid pattern_stored tags_stored or_empty_def split: option.splits)

lemma rule_body_defaults: "stored_rule ok r \<Longrightarrow> buildRuleBody (buildRuleDefaults r) = rule_request_of r"
  by (auto simp: buildRuleBody_def buildRuleDefaults_def rule_request_of_def Let_def stored_rule_def
      filter_option_of_def filter_request_of_def stored_pattern_def or_empty_def split: option.splits)

interpretation rule: edit_form buildRuleDefaults "\<lambda>_. ruleSchema ok" "\<lambda>_. buildRuleBody"
    "stored_rule ok" rule_request_of for ok
  by unfold_locales (rule rule_defaults_valid rule_body_defaults, assumption)+

lemma key_defaults_valid: "stored_key k \<Longrightarrow> keySchema KeyEdit (buildKeyDefaults k) = []"
  by (auto simp: keySchema_def buildKeyDefaults_def Let_def stored_key_def filter_option_of_def
      validateName_def NAME_MAX_LENGTH_def issue_of_def issue_if_def tags_stored or_empty_def
      split: option.splits)

lemma key_body_defaults:
  assumes "stored_key k"
  shows "buildKeyBody (buildKeyDefaults k) = Some (key_request_of k)"
proof -
  obtain t where t: "trim t = t" "btoa t = Some (ks_data k)"
    using assms by (auto simp: stored_key_def)
  then have "kv_data (buildKeyDefaults k) = t"
    by (simp add: buildKeyDefaults_def Let_def atob_btoa)
  then have "btoa (trim (kv_data (buildKeyDefaults k))) = Some (ks_data k)"
    using t by simp
  then show ?thesis
    using assms by (auto simp: buildKeyBody_def key_request_of_def stored_key_def)
      (auto simp: buildKeyDefaults_def Let_def filter_option_of_def filter_request_of_def or_empty_def
        split: option.splits if_splits)
qed

interpretation key: edit_form buildKeyDefaults "\<lambda>_. keySchema KeyEdit" "\<lambda>_. buildKeyBody" stored_key
    "\<lambda>k. Some (key_request_of k)"
  by unfold_locales (rule key_defaults_valid key_body_defaults, assumption)+

section \<open>What a valid rule form sends\<close>

lemma digits_not_space: "list_all is_digit s \<Longrightarrow> c \<in> set s \<Longrightarrow> \<not> is_space c"
  using digit_not_space by (auto simp: list_all_iff)

lemma toNumber_digits:
  assumes "list_all is_digit (trim p)" "trim p \<noteq> []"
  shows "toNumber p = Fin (of_nat (digits_val (trim p)))"
proof -
  obtain d ds where d: "trim p = d # ds"
    using assms(2) by (cases "trim p") auto
  have nums: "is_digit d" "list_all is_digit ds"
    using assms(1) by (auto simp: d)
  have "\<not> startsWith (trim p) [48, c]" if "\<not> is_digit c" for c
    using nums that by (cases ds) (auto simp: d startsWith_def)
  then have no_prefix: "\<not> startsWith (trim p) [48, c]" if "c \<in> {120, 88, 111, 79, 98, 66}" for c
    using that by (auto simp: is_digit_def)
  have "d \<noteq> 45" "d \<noteq> 43" "d \<noteq> 73"
    using nums by (auto simp: is_digit_def)
  moreover have "unsigned_decimal (trim p) = Some (of_nat (digits_val (trim p)))"
    using assms by (simp add: unsigned_decimal_def list_all_iff takeWhile_eq_all_conv [THEN iffD2]
        dropWhile_eq_Nil_conv [THEN iffD2] exponent_part_def pow10_def)
  ultimately show ?thesis
    using no_prefix assms(2) by (simp add: toNumber_def Let_def js_def signed_prefix_def d)
qed

lemma parseInt_digits:
  assumes "list_all is_digit (trim p)" "trim p \<noteq> []"
  shows "parseInt p = Some (int (digits_val (trim p)))"
proof -
  obtain w where w: "trimStart p = trim p @ w" "\<forall>c\<in>set w. is_space c"
    using trimEnd_append [of "trimStart p"] by (auto simp: trim_def)
  have tw: "takeWhile is_digit (trim p @ w) = trim p"
  proof -
    have "takeWhile is_digit w = []"
      using w(2) digit_not_space by (cases w) auto
    then show ?thesis
      using assms(1) by (simp add: takeWhile_append2 list_all_iff)
  qed
  have "hd (trim p @ w) \<noteq> 45" "hd (trim p @ w) \<noteq> 43"
    using assms by (cases "trim p"; auto simp: is_digit_def)+
  then have "signed_prefix (trim p @ w) = (1, trim p @ w)"
    using assms(2) by (cases "trim p") (auto simp: signed_prefix_def)
  then show ?thesis
    using assms(2) by (simp add: parseInt_def w(1) tw)
qed

lemma pattern_issues_Nil: "pattern_issues ok path label p = [] \<longleftrightarrow> trim p \<noteq> [] \<and> ok p"
  by (simp add: pattern_issues_def)

lemma priority_digits:
  assumes "rule_priority_issues p = []" "list_all is_digit (trim p)"
  shows "\<exists>n. parseInt p = Some n \<and> toNumber p = Fin (of_int n) \<and> 0 < n"
proof -
  have ne: "trim p \<noteq> []"
    using assms(1) by (auto simp: rule_priority_issues_def split: if_splits)
  then have "0 < digits_val (trim p)"
    using assms by (auto simp: rule_priority_issues_def toNumber_digits split: if_splits)
  then show ?thesis
    using ne assms(2) by (simp add: toNumber_digits parseInt_digits)
qed

text \<open>
  A rule form without issues whose priority is written in decimal digits sends the number that was
  validated, which is positive; it sends no blank source, user name or host name, and between
  one and three tags.
\<close>

theorem rule_body_valid:
  assumes "ruleSchema ok v = []" "list_all is_digit (trim (rv_priority v))"
  shows "(\<exists>n. rq_priority (buildRuleBody v) = Some n \<and> toNumber (rv_priority v) = Fin (of_int n) \<and> 0 < n) \<and>
    rq_source_ip (buildRuleBody v) \<noteq> [] \<and> rq_username (buildRuleBody v) \<noteq> [] \<and>
    (case rq_filter (buildRuleBody v) of
       HostnameFilter h \<Rightarrow> h \<noteq> []
     | TagsFilter ts \<Rightarrow> 1 \<le> length ts \<and> length ts \<le> 3)"
proof -
  have "rule_priority_issues (rv_priority v) = []"
    using assms(1) by (simp add: ruleSchema_def)
  from priority_digits [OF this assms(2)] have
    "\<exists>n. rq_priority (buildRuleBody v) = Some n \<and> toNumber (rv_priority v) = Fin (of_int n) \<and> 0 < n"
    by (simp add: buildRuleBody_def)
  moreover have "rq_source_ip (buildRuleBody v) \<noteq> []" "rq_username (buildRuleBody v) \<noteq> []"
    using assms(1) by (auto simp: ruleSchema_def buildRuleBody_def pattern_issues_Nil ANY_def split: if_splits)
  moreover have "case rq_filter (buildRuleBody v) of
       HostnameFilter h \<Rightarrow> h \<noteq> []
     | TagsFilter ts \<Rightarrow> 1 \<le> length ts \<and> length ts \<le> 3"
    using assms(1) by (cases "rv_filterOption v")
      (auto simp: ruleSchema_def buildRuleBody_def pattern_issues_Nil ANY_def tag_issues_def Suc_le_eq
         split: if_splits)
  ultimately show ?thesis
    by blast
qed


section \<open>Witnesses and findings\<close>

definition sample_rule_values :: "jsstring \<Rightarrow> rule_values" where
  "sample_rule_values p = rule_DEFAULT_VALUES\<lparr>rv_priority := p, rv_filterOption := FilterTags,
     rv_tags := [js ''prod'']\<rparr>"

lemmas trim_eval = trim_def trimStart_def trimEnd_def char_class_defs

lemma sample_rule_digits:
  "ruleSchema ok (sample_rule_values [49, 48]) = []"
  by (simp add: ruleSchema_def sample_rule_values_def rule_DEFAULT_VALUES_def rule_priority_issues_def
      toNumber_digits trim_eval digits_val_def tag_issues_def)

theorem rule_body_valid_witness:
  "ruleSchema (\<lambda>_. True) (sample_rule_values [49, 48]) = [] \<and>
   rq_filter (buildRuleBody (sample_rule_values [49, 48])) = TagsFilter [js ''prod''] \<and>
   rq_source_ip (buildRuleBody (sample_rule_values [49, 48])) \<noteq> []"
  using rule_body_valid [OF sample_rule_digits [of "\<lambda>_. True"]] sample_rule_digits
  by (simp add: sample_rule_values_def rule_DEFAULT_VALUES_def trim_eval buildRuleBody_def)

definition sample_rule :: rule_response where
  "sample_rule = \<lparr>rs_priority = 7, rs_action = Deny, rs_active = True, rs_source_ip = js ''^10'',
     rs_username = ANY, rs_filter_hostname = Some (js ''web''), rs_filter_tags = []\<rparr>"

definition sample_key :: key_response where
  "sample_key = \<lparr>ks_name = js ''ci'', ks_data = b64_text [], ks_username = js ''root'',
     ks_filter_hostname = None, ks_filter_tags = [js ''prod'']\<rparr>"

lemma sample_rule_stored: "stored_rule (\<lambda>_. True) sample_rule"
  by (simp add: stored_rule_def sample_rule_def stored_pattern_def ANY_def js_def trim_eval)

lemma sample_key_stored: "stored_key sample_key"
proof -
  have "trim ([]::jsstring) = [] \<and> btoa [] = Some (ks_data sample_key)"
    by (simp add: btoa_def sample_key_def)
  then have "\<exists>t. trim t = t \<and> btoa t = Some (ks_data sample_key)"
    by blast
  then show ?thesis
    by (simp add: stored_key_def sample_key_def js_def trim_eval)
qed


text \<open>
  The schema reads the priority with \<open>Number\<close> and the body with \<open>parseInt\<close>: a hexadecimal
  priority passes as sixteen and is sent as zero, one in scientific notation passes as one thousand
  and is sent as one.
\<close>

theorem rule_priority_mismatch:
  "ruleSchema ok (sample_rule_values (js ''0x10'')) = [] \<and>
   rq_priority (buildRuleBody (sample_rule_values (js ''0x10''))) = Some 0 \<and>
   ruleSchema ok (sample_rule_values (js ''1e3'')) = [] \<and>
   toNumber (js ''1e3'') = Fin 1000 \<and>
   rq_priority (buildRuleBody (sample_rule_values (js ''1e3''))) = Some 1"
proof -
  have n: "toNumber [48, 120, 49, 48] = Fin 16" "toNumber [49, 101, 51] = Fin 1000"
    by (simp_all add: toNumber_def trim_eval js_def startsWith_def radix_literal_def hex_digit_val_def
        signed_prefix_def unsigned_decimal_def exponent_part_def digits_val_def pow10_def)
  moreover have "js ''0x10'' = [48, 120, 49, 48]" "js ''1e3'' = [49, 101, 51]"
    by (simp_all add: js_def)
  moreover have "parseInt [48, 120, 49, 48] = Some 0" "parseInt [49, 101, 51] = Some 1"
    by (simp_all add: parseInt_def trim_eval signed_prefix_def digits_val_def)
  moreover have "isInteger (Fin 16)" "isInteger (Fin 1000)"
    by simp_all
  ultimately show ?thesis
    by (simp add: ruleSchema_def sample_rule_values_def rule_DEFAULT_VALUES_def tag_issues_def
        rule_priority_issues_def trim_eval buildRuleBody_def)
qed

text \<open>
  A public key whose comment has a character outside Latin-1 passes the schema of the
  create form, but the body cannot be built: \<open>btoa\<close> throws.
\<close>

definition sample_key_values :: "jsstring \<Rightarrow> key_values" where
  "sample_key_values d = key_DEFAULT_VALUES\<lparr>kv_name := js ''ci'', kv_data := d\<rparr>"

theorem key_comment_breaks_body:
  "keySchema KeyCreate (sample_key_values (js ''ssh-rsa AAAAB3NzaC1yc2 '' @ [26085])) = [] \<and>
   buildKeyBody (sample_key_values (js ''ssh-rsa AAAAB3NzaC1yc2 '' @ [26085])) = None"
  by (simp add: keySchema_def sample_key_values_def key_DEFAULT_VALUES_def validateName_def
      NAME_MAX_LENGTH_def issue_of_def issue_if_def isPublicKeyValid_def SSH_KEY_PREFIXES_def
      startsWith_def buildKeyBody_def btoa_def trim_eval js_def)

end
