(* ===== verification/AdminForms.thy ===== *)
theory AdminForms
  imports AccessForms Json VaultParse
begin

text \<open>
  The forms of the administration, team and vault pages: users
  (\<open>pages/admin/users/userSchema.ts\<close>), SAML settings
  (\<open>pages/admin/settings/samlSchema.ts\<close>), namespaces
  (\<open>pages/admin/namespaces/editNamespaceSchema.ts\<close>), announcements, members and API keys
  (\<open>pages/team/schemas.ts\<close>, \<open>helpers.ts\<close>) and vault keys
  (\<open>pages/secure-vault/vaultKeySchema.ts\<close>). Each edit form is an instance of
  \<open>edit_form\<close>. Whether a string parses as a URL and what the key parser says of a private key are
  parameters.
\<close>

section \<open>Users\<close>

datatype form_mode = Create | Edit

record user_values =
  uv_name :: jsstring
  uv_username :: jsstring
  uv_email :: jsstring
  uv_password :: jsstring
  uv_confirmed :: bool
  uv_admin :: bool
  uv_limitEnabled :: bool
  uv_limitDisabled :: bool
  uv_maxNamespaces :: jsstring

definition userSchema :: "form_mode \<Rightarrow> user_values \<Rightarrow> issue list" where
  "userSchema mode v =
     issue_of ''name'' (validateName (uv_name v)) @
     issue_of ''username'' (validateUsername (uv_username v)) @
     issue_of ''email'' (validateEmail (uv_email v)) @
     (if \<not> (mode = Edit \<and> uv_password v = [])
      then issue_of ''password'' (validatePassword (uv_password v)) else []) @
     (if \<not> isMaxNamespacesValid (uv_limitEnabled v) (uv_limitDisabled v) (uv_maxNamespaces v)
      then [(''maxNamespaces'', MAX_NAMESPACES_ERROR)] else [])"

definition blankValues :: user_values where
  "blankValues = \<lparr>uv_name = [], uv_username = [], uv_email = [], uv_password = [],
     uv_confirmed = False, uv_admin = False, uv_limitEnabled = False, uv_limitDisabled = False,
     uv_maxNamespaces = js ''1''\<rparr>"

text \<open>The user the server returns; every member may be missing.\<close>

record user_response =
  us_name :: "jsstring option"
  us_username :: "jsstring option"
  us_email :: "jsstring option"
  us_status :: "jsstring option"
  us_admin :: "bool option"
  us_max_namespaces :: "int option"

definition or_else :: "'a option \<Rightarrow> 'a \<Rightarrow> 'a" where
  "or_else x d = (case x of None \<Rightarrow> d | Some y \<Rightarrow> y)"

definition valuesFromUser :: "user_response \<Rightarrow> user_values" where
  "valuesFromUser user =
     (let max = us_max_namespaces user;
          limitEnabled = (case max of None \<Rightarrow> False | Some m \<Rightarrow> m \<ge> 0);
          limitDisabled = (limitEnabled \<and> max = Some 0)
      in \<lparr>uv_name = or_else (us_name user) [],
          uv_username = or_else (us_username user) [],
          uv_email = or_else (us_email user) [],
          uv_password = [],
          uv_confirmed = (us_status user = Some (js ''confirmed'')),
          uv_admin = or_else (us_admin user) False,
          uv_limitEnabled = limitEnabled,
          uv_limitDisabled = limitDisabled,
          uv_maxNamespaces = (case max of
              Some m \<Rightarrow> if limitEnabled \<and> m \<noteq> 0 then int_text m else js ''1''
            | None \<Rightarrow> js ''1'')\<rparr>)"

definition buildUserDefaults :: "user_response option \<Rightarrow> user_values" where
  "buildUserDefaults user = (case user of Some u \<Rightarrow> valuesFromUser u | None \<Rightarrow> blankValues)"

text \<open>\<open>None\<close> is undefined, \<open>Some None\<close> is NaN.\<close>

definition computeMaxNamespaces ::
  "form_mode \<Rightarrow> user_values \<Rightarrow> user_response option \<Rightarrow> int option option" where
  "computeMaxNamespaces mode values initial =
     (if \<not> uv_limitEnabled values then
        (if mode = Edit then
           (case Option.bind initial us_max_namespaces of
              Some orig \<Rightarrow> if orig < 0 then Some (Some orig) else None
            | None \<Rightarrow> None)
         else None)
      else if uv_limitDisabled values then Some (Some 0)
      else Some (parseInt (uv_maxNamespaces values)))"

text \<open>The members of the request that depend on the mode are optional.\<close>

record user_payload =
  up_name :: jsstring
  up_username :: jsstring
  up_email :: jsstring
  up_admin :: bool
  up_max_namespaces :: "int option option"
  up_confirmed :: "bool option"
  up_password :: "jsstring option"

definition buildUserPayload :: "form_mode \<Rightarrow> user_values \<Rightarrow> user_response option \<Rightarrow> user_payload" where
  "buildUserPayload mode values initial = \<lparr>
     up_name = trim (uv_name values),
     up_username = trim (uv_username values),
     up_email = trim (uv_email values),
     up_admin = uv_admin values,
     up_max_namespaces = computeMaxNamespaces mode values initial,
     up_confirmed = (case mode of Create \<Rightarrow> None | Edit \<Rightarrow> Some (uv_confirmed values)),
     up_password = (case mode of
        Create \<Rightarrow> Some (uv_password values)
      | Edit \<Rightarrow> if uv_password values \<noteq> [] then Some (uv_password values) else None)\<rparr>"

section \<open>SAML settings\<close>

definition CERT_BEGIN :: jsstring where
  "CERT_BEGIN = js ''-----BEGIN CERTIFICATE-----''"

definition CERT_END :: jsstring where
  "CERT_END = js ''-----END CERTIFICATE-----''"

definition isCertValid :: "jsstring \<Rightarrow> bool" where
  "isCertValid s \<longleftrightarrow> contains s CERT_BEGIN \<and> contains s CERT_END"

definition normalizeCert :: "jsstring \<Rightarrow> jsstring" where
  "normalizeCert raw =
     (case (indexOf raw CERT_BEGIN, lastIndexOf raw CERT_END) of
        (Some i, Some j) \<Rightarrow>
          (let body = replace_runs is_space [] False (JsBase.slice (i + length CERT_BEGIN) j raw)
           in CERT_BEGIN @ [10] @ body @ [10] @ CERT_END)
      | _ \<Rightarrow> raw)"

record saml_values =
  sv_useMetadataUrl :: bool
  sv_metadataUrl :: jsstring
  sv_postUrl :: jsstring
  sv_redirectUrl :: jsstring
  sv_entityId :: jsstring
  sv_certificate :: jsstring
  sv_emailMapping :: jsstring
  sv_nameMapping :: jsstring
  sv_signRequests :: bool

definition samlSchema :: "(jsstring \<Rightarrow> bool) \<Rightarrow> saml_values \<Rightarrow> issue list" where
  "samlSchema isValidUrl values =
     (if sv_useMetadataUrl values then
        issue_if (sv_metadataUrl values = [] \<or> \<not> isValidUrl (sv_metadataUrl values))
          ''metadataUrl'' ''Must be a valid URL''
      else
        (if sv_postUrl values = [] \<and> sv_redirectUrl values = []
         then [(''postUrl'', js ''At least one Sign-On URL (POST or Redirect) is required'')]
         else issue_if (sv_postUrl values \<noteq> [] \<and> \<not> isValidUrl (sv_postUrl values))
                ''postUrl'' ''Must be a valid URL'' @
              issue_if (sv_redirectUrl values \<noteq> [] \<and> \<not> isValidUrl (sv_redirectUrl values))
                ''redirectUrl'' ''Must be a valid URL'') @
        issue_if (trim (sv_entityId values) = []) ''entityId'' ''Entity ID is required'' @
        (if trim (sv_certificate values) = []
         then [(''certificate'', js ''Certificate is required'')]
         else issue_if (\<not> isCertValid (sv_certificate values)) ''certificate''
                ''Must include BEGIN CERTIFICATE and END CERTIFICATE markers''))"

text \<open>The settings the server returns: \<open>?.\<close> and \<open>??\<close> of the source as options.\<close>

record saml_idp =
  idp_entity_id :: "jsstring option"
  idp_binding :: "(jsstring option \<times> jsstring option) option"
  idp_certificates :: "jsstring list option"
  idp_mappings :: "(jsstring option \<times> jsstring option) option"

record saml_settings =
  ss_enabled :: bool
  ss_idp :: "saml_idp option"
  ss_sign_requests :: "bool option"

definition buildSamlDefaults :: "saml_settings option \<Rightarrow> saml_values" where
  "buildSamlDefaults existingConfig =
     (case existingConfig of
        Some c \<Rightarrow>
          if ss_enabled c then
            \<lparr>sv_useMetadataUrl = False, sv_metadataUrl = [],
             sv_postUrl = or_else (Option.bind (Option.bind (ss_idp c) idp_binding) fst) [],
             sv_redirectUrl = or_else (Option.bind (Option.bind (ss_idp c) idp_binding) snd) [],
             sv_entityId = or_else (Option.bind (ss_idp c) idp_entity_id) [],
             sv_certificate = (case Option.bind (ss_idp c) idp_certificates of
                 Some (t # ts) \<Rightarrow> t | _ \<Rightarrow> []),
             sv_emailMapping = or_else (Option.bind (Option.bind (ss_idp c) idp_mappings) fst) [],
             sv_nameMapping = or_else (Option.bind (Option.bind (ss_idp c) idp_mappings) snd) [],
             sv_signRequests = or_else (ss_sign_requests c) False\<rparr>
          else \<lparr>sv_useMetadataUrl = False, sv_metadataUrl = [], sv_postUrl = [], sv_redirectUrl = [],
             sv_entityId = [], sv_certificate = [], sv_emailMapping = [], sv_nameMapping = [],
             sv_signRequests = False\<rparr>
      | None \<Rightarrow> \<lparr>sv_useMetadataUrl = False, sv_metadataUrl = [], sv_postUrl = [], sv_redirectUrl = [],
             sv_entityId = [], sv_certificate = [], sv_emailMapping = [], sv_nameMapping = [],
             sv_signRequests = False\<rparr>)"

datatype saml_body =
    MetadataBody (metadata_url: jsstring) (sign_requests: bool)
  | IdpBody (entity_id: jsstring) (binding_post: "jsstring option") (binding_redirect: "jsstring option")
      (certificate: jsstring) (mappings: "(jsstring option \<times> jsstring option) option")
      (sign_requests: bool)

definition present :: "jsstring \<Rightarrow> jsstring option" where
  "present s = (if s \<noteq> [] then Some s else None)"

definition buildSamlBody :: "saml_values \<Rightarrow> saml_body" where
  "buildSamlBody values =
     (if sv_useMetadataUrl values then MetadataBody (sv_metadataUrl values) (sv_signRequests values)
      else IdpBody (sv_entityId values) (present (sv_postUrl values)) (present (sv_redirectUrl values))
        (normalizeCert (sv_certificate values))
        (if sv_emailMapping values \<noteq> [] \<or> sv_nameMapping values \<noteq> []
         then Some (present (sv_emailMapping values), present (sv_nameMapping values)) else None)
        (sv_signRequests values))"

section \<open>Namespaces and announcements\<close>

text \<open>The members of a namespace that the form does not touch are kept as one JSON value.\<close>

record ns_settings =
  connection_announcement :: "jsstring option"
  session_record :: "bool option"
  ssh_access_mode :: "jsstring option"
  ssh_legacy_allowed :: "bool option"

record namespace =
  ns_name :: jsstring
  ns_max_devices :: "int option"
  ns_settings :: "ns_settings option"
  ns_rest :: json

record namespace_values =
  nv_name :: jsstring
  nv_maxDevices :: jsstring
  nv_sessionRecord :: bool

definition editNamespaceSchema :: "jsstring \<Rightarrow> namespace_values \<Rightarrow> issue list" where
  "editNamespaceSchema originalName values =
     (if nv_name values \<noteq> originalName then issue_of ''name'' (validateNamespaceName (nv_name values))
      else []) @
     issue_if (\<not> (case parseInt (nv_maxDevices values) of None \<Rightarrow> False | Some n \<Rightarrow> n \<ge> -1))
       ''maxDevices'' ''Max devices must be a number greater than or equal to -1''"

definition buildEditNamespaceDefaults :: "namespace option \<Rightarrow> namespace_values" where
  "buildEditNamespaceDefaults namespace = \<lparr>
     nv_name = (case namespace of None \<Rightarrow> [] | Some n \<Rightarrow> ns_name n),
     nv_maxDevices = int_text (or_else (Option.bind namespace ns_max_devices) (-1)),
     nv_sessionRecord = or_else (Option.bind (Option.bind namespace ns_settings) session_record) False\<rparr>"

definition buildEditNamespaceBody :: "namespace \<Rightarrow> namespace_values \<Rightarrow> namespace" where
  "buildEditNamespaceBody namespace values = namespace\<lparr>
     ns_name := trim (nv_name values),
     ns_max_devices := parseInt (nv_maxDevices values),
     ns_settings := Some \<lparr>
       connection_announcement =
         Some (or_else (Option.bind (ns_settings namespace) connection_announcement) []),
       session_record = Some (nv_sessionRecord values),
       ssh_access_mode =
         Some (or_else (Option.bind (ns_settings namespace) ssh_access_mode) (js ''legacy'')),
       ssh_legacy_allowed =
         Some (or_else (Option.bind (ns_settings namespace) ssh_legacy_allowed) False)\<rparr>\<rparr>"

definition formatMaxDevices :: "int \<Rightarrow> jsstring" where
  "formatMaxDevices value = (if value = -1 then js ''Unlimited'' else int_text value)"

definition ANNOUNCEMENT_TITLE_MAX :: nat where
  "ANNOUNCEMENT_TITLE_MAX = 90"

text \<open>Both refinements of the title run; only one of them can fail.\<close>

definition announcementSchema :: "jsstring \<Rightarrow> jsstring \<Rightarrow> issue list" where
  "announcementSchema title content =
     issue_if (\<not> length (trim title) > 0) ''title'' ''Title is required'' @
     issue_if (\<not> length (trim title) \<le> ANNOUNCEMENT_TITLE_MAX)
       ''title'' ''Title must be at most 90 characters'' @
     issue_if (\<not> length (trim content) > 0) ''content'' ''Content is required''"

definition buildAnnouncementBody :: "jsstring \<Rightarrow> jsstring \<Rightarrow> jsstring \<times> jsstring" where
  "buildAnnouncementBody title content = (trim title, trim content)"

section \<open>Members and API keys\<close>

datatype assignable_role = Administrator | Operator | Observer

definition role_name :: "assignable_role \<Rightarrow> jsstring" where
  "role_name r = (case r of
      Administrator \<Rightarrow> js ''administrator'' | Operator \<Rightarrow> js ''operator'' | Observer \<Rightarrow> js ''observer'')"

definition ROLES :: "assignable_role list" where
  "ROLES = [Administrator, Operator, Observer]"

text \<open>\<open>isAssignableRole\<close> narrows an unknown value: the role it is, if it is one.\<close>

definition isAssignableRole :: "json option \<Rightarrow> assignable_role option" where
  "isAssignableRole role = (case as_string role of
      None \<Rightarrow> None
    | Some s \<Rightarrow> find (\<lambda>r. role_name r = s) ROLES)"

definition isExpired :: "rat \<Rightarrow> rat \<Rightarrow> bool" where
  "isExpired now expiresIn = (if expiresIn \<le> 0 then False else now > expiresIn * 1000)"

definition addMemberSchema :: "jsstring \<Rightarrow> assignable_role \<Rightarrow> issue list" where
  "addMemberSchema email role =
     issue_if (\<not> email_regex (trim email)) ''email'' ''Enter a valid email address.''"

definition ADD_MEMBER_DEFAULTS :: "jsstring \<times> assignable_role" where
  "ADD_MEMBER_DEFAULTS = ([], Operator)"

definition buildAddMemberBody :: "jsstring \<times> assignable_role \<Rightarrow> jsstring \<times> assignable_role" where
  "buildAddMemberBody values = (case values of (email, role) \<Rightarrow> (trim email, role))"

definition assignableRoleOr :: "json option \<Rightarrow> assignable_role \<Rightarrow> assignable_role" where
  "assignableRoleOr role fallback =
     (case isAssignableRole role of Some r \<Rightarrow> r | None \<Rightarrow> fallback)"

text \<open>The member or key is \<open>None\<close> when there is none, else its role.\<close>

definition buildMemberRoleDefaults :: "json option \<Rightarrow> assignable_role" where
  "buildMemberRoleDefaults member_role = assignableRoleOr member_role Operator"

definition key_name_char :: "nat \<Rightarrow> bool" where
  "key_name_char c \<longleftrightarrow> is_lower c \<or> is_upper c \<or> is_digit c \<or> c = 95 \<or> c = 45"

definition generateKeySchema :: "jsstring \<Rightarrow> issue list" where
  "generateKeySchema value =
     (if length value < 3 then [(''name'', js ''Name must be at least 3 characters.'')]
      else if length value > 20 then [(''name'', js ''Name must be at most 20 characters.'')]
      else if \<not> (value \<noteq> [] \<and> list_all key_name_char value)
        then [(''name'', js ''Name can only contain letters, numbers, - and _.'')]
      else [])"

definition GENERATE_KEY_DEFAULTS :: "jsstring \<times> assignable_role \<times> jsstring" where
  "GENERATE_KEY_DEFAULTS = ([], Administrator, js ''30'')"

definition buildGenerateKeyBody ::
  "jsstring \<times> assignable_role \<times> jsstring \<Rightarrow> jsstring \<times> assignable_role \<times> jsnum" where
  "buildGenerateKeyBody values =
     (case values of (name, role, expiresIn) \<Rightarrow> (trim name, role, toNumber expiresIn))"

definition editKeySchema :: "jsstring \<times> assignable_role \<Rightarrow> issue list" where
  "editKeySchema values =
     issue_if (\<not> length (trim (fst values)) > 0) ''name'' ''Name is required.''"

record api_key =
  ak_name :: jsstring
  ak_role :: json

definition buildEditKeyDefaults :: "api_key option \<Rightarrow> jsstring \<times> assignable_role" where
  "buildEditKeyDefaults apiKey =
     ((case apiKey of None \<Rightarrow> [] | Some k \<Rightarrow> ak_name k),
      assignableRoleOr (map_option ak_role apiKey) Administrator)"

definition buildEditKeyBody :: "jsstring \<times> assignable_role \<Rightarrow> jsstring \<times> assignable_role" where
  "buildEditKeyBody values = (trim (fst values), snd values)"

section \<open>Vault keys\<close>

text \<open>
  \<open>validatePrivateKey\<close>: the outcome of the external parser is a parameter; it returns a
  key or throws, and the name of the error tells an encrypted key.
\<close>

datatype parse_outcome = ParsedKey | ParseThrew "jsstring option"

datatype key_validation = ValidKey bool | InvalidKey jsstring

definition validatePrivateKey :: "(jsstring \<Rightarrow> parse_outcome) \<Rightarrow> jsstring \<Rightarrow> key_validation" where
  "validatePrivateKey parsePrivateKey pem = (case parsePrivateKey pem of
      ParsedKey \<Rightarrow> ValidKey False
    | ParseThrew name \<Rightarrow>
        if name = Some (js ''KeyEncryptedError'') then ValidKey True
        else InvalidKey (js ''Invalid private key format.''))"

record vault_key_values =
  vv_name :: jsstring
  vv_data :: jsstring
  vv_encrypted :: bool
  vv_passphrase :: jsstring

definition vaultKeySchema :: "(jsstring \<Rightarrow> parse_outcome) \<Rightarrow> vault_key_values \<Rightarrow> issue list" where
  "vaultKeySchema parsePrivateKey values =
     issue_if (trim (vv_name values) = []) ''name'' ''Name is required'' @
     (let data = trim (vv_data values) in
      if data = [] then [(''data'', js ''Private key is required'')]
      else case validatePrivateKey parsePrivateKey data of
             InvalidKey e \<Rightarrow> [(''data'', e)]
           | ValidKey _ \<Rightarrow> []) @
     issue_if (vv_encrypted values \<and> trim (vv_passphrase values) = [])
       ''passphrase'' ''Passphrase is required''"

definition buildVaultKeyDefaults :: "vault_key option \<Rightarrow> vault_key_values" where
  "buildVaultKeyDefaults entry = (case entry of
      None \<Rightarrow> \<lparr>vv_name = [], vv_data = [], vv_encrypted = False, vv_passphrase = []\<rparr>
    | Some k \<Rightarrow> \<lparr>vv_name = key_name k, vv_data = key_data k, vv_encrypted = hasPassphrase k,
                vv_passphrase = []\<rparr>)"

record vault_key_payload =
  vp_name :: jsstring
  vp_data :: jsstring
  vp_hasPassphrase :: bool
  vp_fingerprint :: jsstring
  vp_algorithm :: jsstring

definition buildVaultKeyPayload ::
  "vault_key_values \<Rightarrow> jsstring \<Rightarrow> jsstring \<Rightarrow> vault_key_payload" where
  "buildVaultKeyPayload values fp alg = \<lparr>
     vp_name = trim (vv_name values), vp_data = trim (vv_data values),
     vp_hasPassphrase = vv_encrypted values, vp_fingerprint = fp, vp_algorithm = alg\<rparr>"

section \<open>Certificates\<close>

lemma replace_runs_delete: "replace_runs P [] b s = filter (\<lambda>c. \<not> P c) s"
  by (induction s arbitrary: b) auto

lemma indexOf_prefix: "p \<noteq> [] \<Longrightarrow> indexOf (p @ s) p = Some 0"
  by (cases p) (auto simp: startsWith_def)

lemma lastIndexOf_None: "p \<noteq> [] \<Longrightarrow> lastIndexOf s p = None \<longleftrightarrow> indexOf s p = None"
  by (induction s) (auto split: option.splits)

lemma lastIndexOf_short: "length s < length p \<Longrightarrow> lastIndexOf s p = None"
  by (induction s) (auto simp: startsWith_def split: option.splits dest: arg_cong [of _ _ length])

lemma lastIndexOf_self: "p \<noteq> [] \<Longrightarrow> lastIndexOf p p = Some 0"
  by (cases p) (auto simp: startsWith_def lastIndexOf_short)

lemma lastIndexOf_suffix: "p \<noteq> [] \<Longrightarrow> lastIndexOf (s @ p) p = Some (length s)"
  by (induction s) (auto simp: lastIndexOf_self)

lemma cert_markers: "CERT_BEGIN \<noteq> []" "CERT_END \<noteq> []"
  by (simp_all add: CERT_BEGIN_def CERT_END_def)

lemma normalizeCert_markers:
  "normalizeCert (CERT_BEGIN @ b @ CERT_END) =
     CERT_BEGIN @ [10] @ filter (\<lambda>c. \<not> is_space c) b @ [10] @ CERT_END"
  using indexOf_prefix [OF cert_markers(1), of "b @ CERT_END"]
    lastIndexOf_suffix [OF cert_markers(2), of "CERT_BEGIN @ b"]
  by (simp add: normalizeCert_def JsBase.slice_def replace_runs_delete)

lemma normalizeCert_form:
  assumes "isCertValid raw"
  obtains b where "normalizeCert raw = CERT_BEGIN @ b @ CERT_END"
    "b = [10] @ filter (\<lambda>c. \<not> is_space c) b @ [10]"
proof -
  obtain i where i: "indexOf raw CERT_BEGIN = Some i"
    using assms by (auto simp: isCertValid_def contains_def)
  obtain j where j: "lastIndexOf raw CERT_END = Some j"
    using assms lastIndexOf_None [OF cert_markers(2), of raw] by (auto simp: isCertValid_def contains_def)
  define c where "c = filter (\<lambda>c. \<not> is_space c) (JsBase.slice (i + length CERT_BEGIN) j raw)"
  have "normalizeCert raw = CERT_BEGIN @ ([10] @ c @ [10]) @ CERT_END"
    by (simp add: normalizeCert_def i j replace_runs_delete c_def)
  moreover have "filter (\<lambda>c. \<not> is_space c) ([10] @ c @ [10]) = c"
    by (simp add: c_def is_space_def)
  ultimately show thesis
    by (metis that)
qed

lemma isCertValid_markers: "isCertValid (CERT_BEGIN @ b @ CERT_END)"
  using indexOf_prefix [OF cert_markers(1), of "b @ CERT_END"]
    lastIndexOf_suffix [OF cert_markers(2), of "CERT_BEGIN @ b"]
    lastIndexOf_None [OF cert_markers(2), of "CERT_BEGIN @ b @ CERT_END"]
  by (auto simp: isCertValid_def contains_def)

lemma normalizeCert_idem: "normalizeCert (normalizeCert raw) = normalizeCert raw"
proof (cases "isCertValid raw")
  case True
  then obtain b where "normalizeCert raw = CERT_BEGIN @ b @ CERT_END"
    and b: "b = [10] @ filter (\<lambda>c. \<not> is_space c) b @ [10]"
    by (rule normalizeCert_form)
  then show ?thesis
    using normalizeCert_markers [of b] by (metis append.assoc)
next
  case False
  then have "normalizeCert raw = raw"
    using lastIndexOf_None [OF cert_markers(2), of raw]
    by (auto simp: isCertValid_def contains_def normalizeCert_def split: option.splits)
  then show ?thesis
    by simp
qed

text \<open>
  Normalising a certificate is idempotent and keeps it valid, and on a certificate with
  text between the markers it keeps exactly the text without its white space: how the lines were
  broken or padded does not matter.
\<close>

theorem normalizeCert_canonical:
  "normalizeCert (normalizeCert raw) = normalizeCert raw \<and>
   (isCertValid raw \<longrightarrow> isCertValid (normalizeCert raw)) \<and>
   normalizeCert (CERT_BEGIN @ b @ CERT_END) =
     CERT_BEGIN @ [10] @ filter (\<lambda>c. \<not> is_space c) b @ [10] @ CERT_END"
proof -
  have "isCertValid (normalizeCert raw)" if "isCertValid raw"
    by (rule normalizeCert_form [OF that]) (simp add: isCertValid_markers)
  then show ?thesis
    by (simp add: normalizeCert_idem normalizeCert_markers)
qed

theorem normalizeCert_canonical_witness:
  "isCertValid (normalizeCert (CERT_BEGIN @ js ''MII B'' @ CERT_END)) \<and>
   normalizeCert (CERT_BEGIN @ js ''MII B'' @ CERT_END) =
     CERT_BEGIN @ [10] @ js ''MIIB'' @ [10] @ CERT_END"
  using normalizeCert_canonical [of "CERT_BEGIN @ js ''MII B'' @ CERT_END" "js ''MII B''"]
    isCertValid_markers [of "js ''MII B''"]
  by (auto simp: js_def is_space_def)

section \<open>Saving an entity unchanged\<close>

text \<open>A stored user has the members the form requires, in their trimmed form.\<close>

definition stored_user :: "user_response \<Rightarrow> bool" where
  "stored_user u \<longleftrightarrow>
     (case us_name u of Some n \<Rightarrow> validateName n = None \<and> trim n = n | None \<Rightarrow> False) \<and>
     (case us_username u of Some n \<Rightarrow> validateUsername n = None \<and> trim n = n | None \<Rightarrow> False) \<and>
     (case us_email u of Some n \<Rightarrow> validateEmail n = None \<and> trim n = n | None \<Rightarrow> False)"

definition user_request_of :: "user_response \<Rightarrow> user_payload" where
  "user_request_of u = \<lparr>up_name = or_else (us_name u) [], up_username = or_else (us_username u) [],
     up_email = or_else (us_email u) [], up_admin = or_else (us_admin u) False,
     up_max_namespaces = map_option Some (us_max_namespaces u),
     up_confirmed = Some (us_status u = Some (js ''confirmed'')), up_password = None\<rparr>"

lemma computeMaxNamespaces_unchanged:
  "computeMaxNamespaces Edit (valuesFromUser u) (Some u) = map_option Some (us_max_namespaces u)"
  by (auto simp: computeMaxNamespaces_def valuesFromUser_def Let_def split: option.splits)

lemma max_namespaces_valid:
  "isMaxNamespacesValid (uv_limitEnabled (valuesFromUser u)) (uv_limitDisabled (valuesFromUser u))
     (uv_maxNamespaces (valuesFromUser u))"
  by (auto simp: isMaxNamespacesValid_def valuesFromUser_def Let_def split: option.splits)

lemma user_defaults_valid: "stored_user u \<Longrightarrow> userSchema Edit (valuesFromUser u) = []"
  using max_namespaces_valid [of u]
  by (simp add: userSchema_def) (auto simp: valuesFromUser_def Let_def stored_user_def issue_of_def
      or_else_def split: option.splits)

lemma user_body_defaults:
  "stored_user u \<Longrightarrow> buildUserPayload Edit (valuesFromUser u) (Some u) = user_request_of u"
  by (simp add: buildUserPayload_def computeMaxNamespaces_unchanged user_request_of_def)
    (auto simp: valuesFromUser_def Let_def stored_user_def or_else_def split: option.splits)

interpretation user: edit_form "\<lambda>u. buildUserDefaults (Some u)" "\<lambda>_. userSchema Edit"
    "\<lambda>u v. buildUserPayload Edit v (Some u)" stored_user user_request_of
  by unfold_locales (simp_all add: buildUserDefaults_def user_defaults_valid user_body_defaults)

definition stored_namespace :: "namespace \<Rightarrow> bool" where
  "stored_namespace n \<longleftrightarrow> trim (ns_name n) = ns_name n \<and>
     (case ns_max_devices n of None \<Rightarrow> False | Some m \<Rightarrow> m \<ge> -1)"

text \<open>Saving fills in the settings the server left out.\<close>

definition namespace_request_of :: "namespace \<Rightarrow> namespace" where
  "namespace_request_of n = n\<lparr>ns_settings := Some \<lparr>
     connection_announcement = Some (or_else (Option.bind (ns_settings n) connection_announcement) []),
     session_record = Some (or_else (Option.bind (ns_settings n) session_record) False),
     ssh_access_mode = Some (or_else (Option.bind (ns_settings n) ssh_access_mode) (js ''legacy'')),
     ssh_legacy_allowed = Some (or_else (Option.bind (ns_settings n) ssh_legacy_allowed) False)\<rparr>\<rparr>"

interpretation namespace: edit_form "\<lambda>n. buildEditNamespaceDefaults (Some n)"
    "\<lambda>n. editNamespaceSchema (ns_name n)" buildEditNamespaceBody stored_namespace namespace_request_of
  by unfold_locales (auto simp: editNamespaceSchema_def buildEditNamespaceDefaults_def
      stored_namespace_def issue_if_def or_else_def buildEditNamespaceBody_def namespace_request_of_def
      split: option.splits)

text \<open>The SAML settings a server has after an accepted form of the second kind.\<close>

definition stored_saml :: "(jsstring \<Rightarrow> bool) \<Rightarrow> saml_settings \<Rightarrow> bool" where
  "stored_saml isValidUrl c \<longleftrightarrow> ss_enabled c \<and>
     (case ss_idp c of None \<Rightarrow> False | Some p \<Rightarrow>
        (case idp_entity_id p of None \<Rightarrow> False | Some e \<Rightarrow> trim e \<noteq> []) \<and>
        (case idp_binding p of None \<Rightarrow> False | Some (post, redirect) \<Rightarrow>
           (post \<noteq> None \<or> redirect \<noteq> None) \<and>
           list_all (\<lambda>u. u \<noteq> [] \<and> isValidUrl u) (case post of None \<Rightarrow> [] | Some u \<Rightarrow> [u]) \<and>
           list_all (\<lambda>u. u \<noteq> [] \<and> isValidUrl u) (case redirect of None \<Rightarrow> [] | Some u \<Rightarrow> [u])) \<and>
        (case idp_certificates p of
           Some (cert # _) \<Rightarrow> isCertValid cert \<and> normalizeCert cert = cert
         | _ \<Rightarrow> False) \<and>
        (case idp_mappings p of None \<Rightarrow> True | Some (a, b) \<Rightarrow>
           a \<noteq> Some [] \<and> b \<noteq> Some [] \<and> (a \<noteq> None \<or> b \<noteq> None)))"

definition saml_request_of :: "saml_settings \<Rightarrow> saml_body" where
  "saml_request_of c = IdpBody
     (or_else (Option.bind (ss_idp c) idp_entity_id) [])
     (Option.bind (Option.bind (ss_idp c) idp_binding) fst)
     (Option.bind (Option.bind (ss_idp c) idp_binding) snd)
     (hd (or_else (Option.bind (ss_idp c) idp_certificates) []))
     (Option.bind (ss_idp c) idp_mappings)
     (or_else (ss_sign_requests c) False)"

lemma cert_not_blank: "isCertValid c \<Longrightarrow> trim c \<noteq> []"
proof
  assume c: "isCertValid c" and "trim c = []"
  then have blank: "\<forall>x\<in>set c. is_space x"
    by (simp add: trim_eq_Nil_iff)
  from c obtain i where "startsWith (drop i c) CERT_BEGIN"
    using indexOf_Some by (auto simp: isCertValid_def contains_def)
  then obtain r where "drop i c = CERT_BEGIN @ r"
    by (auto simp: startsWith_iff)
  then have "45 \<in> set (drop i c)"
    by (simp add: CERT_BEGIN_def js_def)
  then show False
    using blank by (auto dest!: in_set_dropD simp: is_space_def)
qed

lemma saml_defaults_valid:
  assumes "stored_saml ok c"
  shows "samlSchema ok (buildSamlDefaults (Some c)) = []"
  using assms cert_not_blank
  by (auto simp: stored_saml_def samlSchema_def buildSamlDefaults_def or_else_def issue_if_def
      split: option.splits list.splits prod.splits)

lemma saml_body_defaults:
  assumes "stored_saml ok c"
  shows "buildSamlBody (buildSamlDefaults (Some c)) = saml_request_of c"
  using assms
  by (auto simp: stored_saml_def buildSamlBody_def buildSamlDefaults_def or_else_def present_def
      saml_request_of_def split: option.splits list.splits prod.splits)

interpretation saml: edit_form "\<lambda>c. buildSamlDefaults (Some c)" "\<lambda>_. samlSchema ok"
    "\<lambda>_. buildSamlBody" "stored_saml ok" saml_request_of for ok
  by unfold_locales (rule saml_defaults_valid saml_body_defaults, assumption)+

text \<open>A vault key without a passphrase; an encrypted one needs its passphrase typed again.\<close>

definition stored_vault_key :: "(jsstring \<Rightarrow> parse_outcome) \<Rightarrow> vault_key \<Rightarrow> bool" where
  "stored_vault_key parse k \<longleftrightarrow> key_name k \<noteq> [] \<and> trim (key_name k) = key_name k \<and>
     key_data k \<noteq> [] \<and> trim (key_data k) = key_data k \<and> parse (key_data k) = ParsedKey \<and>
     \<not> hasPassphrase k"

interpretation vault_key: edit_form "\<lambda>k. buildVaultKeyDefaults (Some k)" "\<lambda>_. vaultKeySchema parse"
    "\<lambda>k v. buildVaultKeyPayload v (fingerprint k) (or_else (algorithm k) [])" "stored_vault_key parse"
    "\<lambda>k. \<lparr>vp_name = key_name k, vp_data = key_data k, vp_hasPassphrase = hasPassphrase k,
          vp_fingerprint = fingerprint k, vp_algorithm = or_else (algorithm k) []\<rparr>" for parse
  by unfold_locales (auto simp: vaultKeySchema_def buildVaultKeyDefaults_def stored_vault_key_def
      issue_if_def validatePrivateKey_def buildVaultKeyPayload_def)

definition stored_api_key :: "api_key \<Rightarrow> bool" where
  "stored_api_key k \<longleftrightarrow> ak_name k \<noteq> [] \<and> trim (ak_name k) = ak_name k \<and>
     isAssignableRole (Some (ak_role k)) \<noteq> None"

interpretation api_key: edit_form "\<lambda>k. buildEditKeyDefaults (Some k)" "\<lambda>_. editKeySchema"
    "\<lambda>_. buildEditKeyBody" stored_api_key
    "\<lambda>k. (ak_name k, the (isAssignableRole (Some (ak_role k))))"
  by unfold_locales (auto simp: editKeySchema_def buildEditKeyDefaults_def stored_api_key_def
      issue_if_def buildEditKeyBody_def assignableRoleOr_def)


definition sample_user :: user_response where
  "sample_user = \<lparr>us_name = Some (js ''Ada''), us_username = Some (js ''ada''),
     us_email = Some (js ''a@b.io''), us_status = Some (js ''confirmed''), us_admin = None,
     us_max_namespaces = Some (-1)\<rparr>"

definition sample_namespace :: namespace where
  "sample_namespace = \<lparr>ns_name = js ''lab'', ns_max_devices = Some 3, ns_settings = None,
     ns_rest = JObj [(js ''owner'', JStr (js ''ada''))]\<rparr>"

definition sample_saml :: saml_settings where
  "sample_saml = \<lparr>ss_enabled = True, ss_idp = Some \<lparr>idp_entity_id = Some (js ''idp''),
     idp_binding = Some (Some (js ''https://idp''), None),
     idp_certificates = Some [CERT_BEGIN @ ([10] @ js ''MIIB'' @ [10]) @ CERT_END],
     idp_mappings = None\<rparr>, ss_sign_requests = None\<rparr>"

definition sample_vault_key :: vault_key where
  "sample_vault_key = \<lparr>key_id = js ''1'', key_name = js ''work'', key_data = js ''PEM'', hasPassphrase = False,
     fingerprint = js ''aa'', algorithm = None, createdAt = [], updatedAt = []\<rparr>"

lemma sample_user_stored: "stored_user sample_user"
  by (simp add: stored_user_def sample_user_def validateName_def validateUsername_def validateEmail_def
      NAME_MAX_LENGTH_def trim_eval form_eval)

lemma sample_namespace_stored: "stored_namespace sample_namespace"
  by (simp add: stored_namespace_def sample_namespace_def trim_eval js_def)

lemma sample_saml_stored: "stored_saml (\<lambda>_. True) sample_saml"
  using isCertValid_markers [of "[10] @ js ''MIIB'' @ [10]"]
    normalizeCert_markers [of "[10] @ js ''MIIB'' @ [10]"]
  by (simp add: stored_saml_def sample_saml_def trim_eval js_def)

lemma sample_vault_key_stored: "stored_vault_key (\<lambda>_. ParsedKey) sample_vault_key"
  by (simp add: stored_vault_key_def sample_vault_key_def trim_eval js_def)

lemma sample_api_key_stored: "stored_api_key \<lparr>ak_name = js ''ci'', ak_role = JStr (js ''observer'')\<rparr>"
  by (simp add: stored_api_key_def isAssignableRole_def ROLES_def role_name_def trim_eval js_def)


text \<open>
  The certificate check only looks for the markers: with the end marker first, the form accepts the
  text and sends a certificate with an empty body.
\<close>

theorem reversed_markers_accepted:
  "isCertValid (CERT_END @ js ''MIIB'' @ CERT_BEGIN) \<and>
   normalizeCert (CERT_END @ js ''MIIB'' @ CERT_BEGIN) = CERT_BEGIN @ [10, 10] @ CERT_END"
  by (simp add: isCertValid_def contains_def normalizeCert_def CERT_BEGIN_def CERT_END_def js_def
      startsWith_def JsBase.slice_def)

end
