(* ===== verification/Stores.thy ===== *)
theory Stores
  imports JsBase
begin

text \<open>
  The contract of a store of the console. A store is a state with actions; \<open>enabled\<close> says what the caller
  guarantees of an action in a state (a fresh random id, say). The locale \<open>store\<close> gives the
  invariant of every state that actions reach, and \<open>store_refinement\<close> extends it: a store that
  implements an abstract one step by step implements it along every run.
\<close>

locale store =
  fixes step :: "'a \<Rightarrow> 's \<Rightarrow> 's"
    and enabled :: "'a \<Rightarrow> 's \<Rightarrow> bool"
    and inv :: "'s \<Rightarrow> bool"
  assumes preserved: "inv s \<Longrightarrow> enabled a s \<Longrightarrow> inv (step a s)"
begin

text \<open>A run: the actions in order, each enabled where it happens.\<close>

primrec run :: "'a list \<Rightarrow> 's \<Rightarrow> 's" where
  "run [] s = s"
| "run (a # as) s = run as (step a s)"

primrec enabled_run :: "'a list \<Rightarrow> 's \<Rightarrow> bool" where
  "enabled_run [] s = True"
| "enabled_run (a # as) s = (enabled a s \<and> enabled_run as (step a s))"

lemma run_inv: "inv s \<Longrightarrow> enabled_run as s \<Longrightarrow> inv (run as s)"
  by (induction as arbitrary: s) (auto intro: preserved)

lemma run_fold: "run as s = fold step as s"
  by (induction as arbitrary: s) auto

lemma run_append: "run (as @ bs) s = run bs (run as s)"
  by (induction as arbitrary: s) auto

text \<open>What every enabled action keeps, a run keeps.\<close>

lemma run_keeps:
  assumes "\<And>a s. inv s \<Longrightarrow> enabled a s \<Longrightarrow> P s \<Longrightarrow> P (step a s)"
  shows "inv s \<Longrightarrow> enabled_run as s \<Longrightarrow> P s \<Longrightarrow> P (run as s)"
  by (induction as arbitrary: s) (auto intro: preserved assms)

end

locale store_refinement = store step enabled inv
  for step :: "'a \<Rightarrow> 's \<Rightarrow> 's" and enabled :: "'a \<Rightarrow> 's \<Rightarrow> bool" and inv :: "'s \<Rightarrow> bool" +
  fixes abs :: "'s \<Rightarrow> 't"
    and astep :: "'a \<Rightarrow> 't \<Rightarrow> 't"
  assumes abs_step: "inv s \<Longrightarrow> enabled a s \<Longrightarrow> abs (step a s) = astep a (abs s)"
begin

lemma abs_run: "inv s \<Longrightarrow> enabled_run as s \<Longrightarrow> abs (run as s) = fold astep as (abs s)"
  by (induction as arbitrary: s) (auto simp: abs_step preserved)

end

end
