(* ===== verification/Terminal.thy ===== *)
theory Terminal
  imports Stores
begin

text \<open>
  The terminal store (\<open>stores/terminalStore.ts\<close>) and the store of recent devices
  (\<open>stores/recentDevicesStore.ts\<close>) that every new session writes to. The random id of a session
  and the time stamp are arguments; the active tenant is read from the session store. The
  abstract store keeps the order of the windows and the one that is visible.
\<close>

section \<open>Recent devices\<close>

record recent_device =
  rd_uid :: jsstring
  rd_name :: jsstring
  connectedAt :: jsstring

type_synonym by_tenant = "jsstring \<rightharpoonup> recent_device list"

definition STORE_CAP :: nat where
  "STORE_CAP = 10"

definition record_recent ::
  "jsstring option \<Rightarrow> jsstring \<Rightarrow> jsstring \<Rightarrow> jsstring \<Rightarrow> by_tenant \<Rightarrow> by_tenant" where
  "record_recent tenant now uid name m =
     (case tenant of
        None \<Rightarrow> m
      | Some t \<Rightarrow>
          if t = [] then m
          else
            let entry = \<lparr>rd_uid = uid, rd_name = name, connectedAt = now\<rparr>;
                existing = (case m t of None \<Rightarrow> [] | Some ds \<Rightarrow> ds);
                next = slice 0 STORE_CAP (entry # filter (\<lambda>d. rd_uid d \<noteq> uid) existing)
            in m(t \<mapsto> next))"

section \<open>Terminal sessions\<close>

datatype window_state = Docked | Minimized | Fullscreen
datatype connection_status = Connecting | Connected | Disconnected

text \<open>What a connect form passes to \<open>open\<close>. A browser key is a handle that cannot be exported.\<close>

record session_params =
  deviceUid :: jsstring
  deviceName :: jsstring
  username :: jsstring
  password :: jsstring
  key_fingerprint :: "jsstring option"
  privateKey :: "jsstring option"
  passphrase :: "jsstring option"
  browserKey :: "nat option"
  publicKeyLine :: "jsstring option"
  recording :: "bool option"

record terminal_session =
  session_id :: jsstring
  params :: session_params
  window :: window_state
  connectionStatus :: connection_status

record terminal_state =
  sessions :: "terminal_session list"
  reconnectTarget :: "(jsstring \<times> jsstring) option"
  byTenant :: by_tenant
  active_tenant :: "jsstring option"

definition initial_terminal :: "jsstring option \<Rightarrow> by_tenant \<Rightarrow> terminal_state" where
  "initial_terminal tenant m =
     \<lparr>sessions = [], reconnectTarget = None, byTenant = m, active_tenant = tenant\<rparr>"

definition demoteOthers :: "terminal_session list \<Rightarrow> jsstring \<Rightarrow> terminal_session list" where
  "demoteOthers ss targetId = map (\<lambda>s.
     if session_id s = targetId then s
     else if window s \<noteq> Minimized then s\<lparr>window := Minimized\<rparr>
     else s) ss"

definition open_session :: "jsstring \<Rightarrow> jsstring \<Rightarrow> session_params \<Rightarrow> terminal_state \<Rightarrow> terminal_state" where
  "open_session sid now p st =
     (let st1 = st\<lparr>byTenant := record_recent (active_tenant st) now (deviceUid p) (deviceName p) (byTenant st)\<rparr>
      in st1\<lparr>reconnectTarget := None,
             sessions := demoteOthers (sessions st1) sid @
               [\<lparr>session_id = sid, params = p, window = Docked, connectionStatus = Connecting\<rparr>]\<rparr>)"

definition minimize :: "jsstring \<Rightarrow> terminal_state \<Rightarrow> terminal_state" where
  "minimize sid st = st\<lparr>sessions := map (\<lambda>s.
     if session_id s = sid then s\<lparr>window := Minimized\<rparr> else s) (sessions st)\<rparr>"

definition minimizeAll :: "terminal_state \<Rightarrow> terminal_state" where
  "minimizeAll st = st\<lparr>sessions := map (\<lambda>s.
     if window s \<noteq> Minimized then s\<lparr>window := Minimized\<rparr> else s) (sessions st)\<rparr>"

definition restore :: "jsstring \<Rightarrow> terminal_state \<Rightarrow> terminal_state" where
  "restore sid st = st\<lparr>sessions := map (\<lambda>s.
     if session_id s = sid then s\<lparr>window := Docked\<rparr> else s) (demoteOthers (sessions st) sid)\<rparr>"

definition toggleFullscreen :: "jsstring \<Rightarrow> terminal_state \<Rightarrow> terminal_state" where
  "toggleFullscreen sid st = st\<lparr>sessions := map (\<lambda>s.
     if session_id s \<noteq> sid then s
     else s\<lparr>window := (if window s = Fullscreen then Docked else Fullscreen)\<rparr>)
     (demoteOthers (sessions st) sid)\<rparr>"

definition close :: "jsstring \<Rightarrow> terminal_state \<Rightarrow> terminal_state" where
  "close sid st = st\<lparr>sessions := filter (\<lambda>s. session_id s \<noteq> sid) (sessions st)\<rparr>"

definition closeAndReconnect :: "jsstring \<Rightarrow> terminal_state \<Rightarrow> terminal_state" where
  "closeAndReconnect sid st = (case find (\<lambda>s. session_id s = sid) (sessions st) of
      None \<Rightarrow> st
    | Some s \<Rightarrow> st\<lparr>sessions := filter (\<lambda>s. session_id s \<noteq> sid) (sessions st),
                  reconnectTarget := Some (deviceUid (params s), deviceName (params s))\<rparr>)"

definition requestConnect :: "jsstring \<Rightarrow> jsstring \<Rightarrow> terminal_state \<Rightarrow> terminal_state" where
  "requestConnect uid name st = st\<lparr>reconnectTarget := Some (uid, name)\<rparr>"

definition clearReconnect :: "terminal_state \<Rightarrow> terminal_state" where
  "clearReconnect st = st\<lparr>reconnectTarget := None\<rparr>"

definition setConnectionStatus :: "jsstring \<Rightarrow> connection_status \<Rightarrow> terminal_state \<Rightarrow> terminal_state" where
  "setConnectionStatus sid status st = st\<lparr>sessions := map (\<lambda>s.
     if session_id s = sid then s\<lparr>connectionStatus := status\<rparr> else s) (sessions st)\<rparr>"

definition clearSensitiveData :: "jsstring \<Rightarrow> terminal_state \<Rightarrow> terminal_state" where
  "clearSensitiveData sid st = st\<lparr>sessions := map (\<lambda>s.
     if session_id s = sid
     then s\<lparr>params := (params s)\<lparr>privateKey := None, passphrase := None, password := []\<rparr>\<rparr>
     else s) (sessions st)\<rparr>"

section \<open>The store as actions\<close>

datatype terminal_action =
    Open jsstring jsstring session_params
  | Minimize jsstring
  | MinimizeAll
  | Restore jsstring
  | ToggleFullscreen jsstring
  | Close jsstring
  | CloseAndReconnect jsstring
  | RequestConnect jsstring jsstring
  | ClearReconnect
  | SetConnectionStatus jsstring connection_status
  | ClearSensitiveData jsstring

fun terminal_step :: "terminal_action \<Rightarrow> terminal_state \<Rightarrow> terminal_state" where
  "terminal_step (Open sid now p) = open_session sid now p"
| "terminal_step (Minimize sid) = minimize sid"
| "terminal_step MinimizeAll = minimizeAll"
| "terminal_step (Restore sid) = restore sid"
| "terminal_step (ToggleFullscreen sid) = toggleFullscreen sid"
| "terminal_step (Close sid) = close sid"
| "terminal_step (CloseAndReconnect sid) = closeAndReconnect sid"
| "terminal_step (RequestConnect uid name) = requestConnect uid name"
| "terminal_step ClearReconnect = clearReconnect"
| "terminal_step (SetConnectionStatus sid c) = setConnectionStatus sid c"
| "terminal_step (ClearSensitiveData sid) = clearSensitiveData sid"

abbreviation ids :: "terminal_state \<Rightarrow> jsstring list" where
  "ids st \<equiv> map session_id (sessions st)"

text \<open>The random id of a new session is not in use.\<close>

fun fresh_action :: "terminal_action \<Rightarrow> terminal_state \<Rightarrow> bool" where
  "fresh_action (Open sid now p) st = (sid \<notin> set (ids st))"
| "fresh_action _ st = True"

definition visible :: "terminal_state \<Rightarrow> terminal_session list" where
  "visible st = filter (\<lambda>s. window s \<noteq> Minimized) (sessions st)"

definition recent_ok :: "by_tenant \<Rightarrow> bool" where
  "recent_ok m \<longleftrightarrow> (\<forall>t ds. m t = Some ds \<longrightarrow> distinct (map rd_uid ds) \<and> length ds \<le> STORE_CAP)"

definition terminal_inv :: "terminal_state \<Rightarrow> bool" where
  "terminal_inv st \<longleftrightarrow> distinct (ids st) \<and> length (visible st) \<le> 1 \<and> recent_ok (byTenant st)"

section \<open>The abstract store\<close>

text \<open>The windows in order, and the visible one with its mode.\<close>

type_synonym windows = "jsstring list \<times> (jsstring \<times> window_state) option"

definition abs_windows :: "terminal_state \<Rightarrow> windows" where
  "abs_windows st =
     (ids st, map_option (\<lambda>s. (session_id s, window s)) (find (\<lambda>s. window s \<noteq> Minimized) (sessions st)))"

definition hide :: "jsstring \<Rightarrow> (jsstring \<times> window_state) option \<Rightarrow> (jsstring \<times> window_state) option" where
  "hide sid v = (case v of Some (i, w) \<Rightarrow> if i = sid then None else v | None \<Rightarrow> None)"

fun windows_step :: "terminal_action \<Rightarrow> windows \<Rightarrow> windows" where
  "windows_step (Open sid now p) (is, v) = (is @ [sid], Some (sid, Docked))"
| "windows_step (Minimize sid) (is, v) = (is, hide sid v)"
| "windows_step MinimizeAll (is, v) = (is, None)"
| "windows_step (Restore sid) (is, v) = (is, if sid \<in> set is then Some (sid, Docked) else None)"
| "windows_step (ToggleFullscreen sid) (is, v) =
     (is, if sid \<in> set is
          then Some (sid, if v = Some (sid, Fullscreen) then Docked else Fullscreen) else None)"
| "windows_step (Close sid) (is, v) = (filter (\<lambda>i. i \<noteq> sid) is, hide sid v)"
| "windows_step (CloseAndReconnect sid) (is, v) = (filter (\<lambda>i. i \<noteq> sid) is, hide sid v)"
| "windows_step _ w = w"

section \<open>Facts\<close>

lemma recent_entry_ok:
  assumes "distinct (map rd_uid ds)"
  shows "distinct (map rd_uid (take n (e # filter (\<lambda>d. rd_uid d \<noteq> rd_uid e) ds)))"
proof -
  have "distinct (map rd_uid (e # filter (\<lambda>d. rd_uid d \<noteq> rd_uid e) ds))"
    using assms by (auto simp: distinct_map_filter)
  then show ?thesis
    by (metis distinct_take take_map)
qed

lemma recent_ok_record:
  assumes "recent_ok m"
  shows "recent_ok (record_recent t now uid name m)"
proof (cases "\<exists>k. t = Some k \<and> k \<noteq> []")
  case True
  then obtain k where k: "t = Some k" "k \<noteq> []"
    by blast
  define ds where "ds = (case m k of None \<Rightarrow> [] | Some ds \<Rightarrow> ds)"
  have "distinct (map rd_uid ds)"
    using assms by (auto simp: recent_ok_def ds_def split: option.splits)
  then have "distinct (map rd_uid (take STORE_CAP (e # filter (\<lambda>d. rd_uid d \<noteq> uid) ds)))"
    if "rd_uid e = uid" for e
    using recent_entry_ok that by blast
  then show ?thesis
    using assms k by (simp add: recent_ok_def record_recent_def Let_def slice_def ds_def)
next
  case False
  then show ?thesis
    using assms by (auto simp: record_recent_def split: option.splits)
qed

definition vis :: "terminal_session list \<Rightarrow> (jsstring \<times> window_state) option" where
  "vis ss = map_option (\<lambda>s. (session_id s, window s)) (find (\<lambda>s. window s \<noteq> Minimized) ss)"

lemma vis_simps [simp]:
  "vis [] = None"
  "vis (s # ss) = (if window s \<noteq> Minimized then Some (session_id s, window s) else vis ss)"
  by (simp_all add: vis_def)

lemma vis_None: "vis ss = None \<longleftrightarrow> (\<forall>s\<in>set ss. window s = Minimized)"
  by (induction ss) auto

lemma vis_append: "vis (ss @ ts) = (case vis ss of None \<Rightarrow> vis ts | Some v \<Rightarrow> Some v)"
  by (induction ss) auto

lemma none_visible: "filter (\<lambda>s. window s \<noteq> Minimized) ss = [] \<Longrightarrow> vis ss = None"
  by (simp add: vis_None filter_empty_conv)

lemma length_filter_map_le:
  "(\<And>x. P (f x) \<Longrightarrow> P x) \<Longrightarrow> length (filter P (map f xs)) \<le> length (filter P xs)"
  by (induction xs) (auto simp: le_Suc_eq)

text \<open>One session is focused, the others are minimised.\<close>

definition focused :: "jsstring \<Rightarrow> terminal_session list \<Rightarrow> bool" where
  "focused i ss \<longleftrightarrow> (\<forall>s\<in>set ss. session_id s \<noteq> i \<longrightarrow> window s = Minimized)"

lemma focused_at_most_one:
  "focused i ss \<Longrightarrow> distinct (map session_id ss) \<Longrightarrow>
     length (filter (\<lambda>s. window s \<noteq> Minimized) ss) \<le> 1"
proof (induction ss)
  case (Cons s ss)
  show ?case
  proof (cases "session_id s = i")
    case True
    then have "\<forall>t\<in>set ss. window t = Minimized"
      using Cons.prems by (auto simp: focused_def image_iff)
    then have "filter (\<lambda>s. window s \<noteq> Minimized) ss = []"
      by (simp add: filter_empty_conv)
    then show ?thesis
      by simp
  next
    case False
    then show ?thesis
      using Cons by (simp add: focused_def)
  qed
qed simp

lemma focused_vis:
  "focused i ss \<Longrightarrow> distinct (map session_id ss) \<Longrightarrow> s \<in> set ss \<Longrightarrow> session_id s = i \<Longrightarrow>
     window s \<noteq> Minimized \<Longrightarrow> vis ss = Some (i, window s)"
  by (induction ss) (auto simp: focused_def)

lemma focused_absent: "focused i ss \<Longrightarrow> i \<notin> session_id ` set ss \<Longrightarrow> vis ss = None"
  by (auto simp: focused_def vis_None)

lemma focused_demote:
  "focused i (map (\<lambda>s. if session_id s = i then s\<lparr>window := w s\<rparr> else s) (demoteOthers ss i))"
  by (auto simp: focused_def demoteOthers_def)

lemma ids_demote [simp]: "map session_id (demoteOthers ss i) = map session_id ss"
  by (simp add: demoteOthers_def)

lemma session_id_window [simp]: "session_id \<circ> (\<lambda>s. if P s then s\<lparr>window := w s\<rparr> else s) = session_id"
  by (rule ext) simp

text \<open>\<open>minimize\<close> and \<open>close\<close> hide a session.\<close>

lemma vis_minimize:
  "length (filter (\<lambda>s. window s \<noteq> Minimized) ss) \<le> 1 \<Longrightarrow>
     vis (map (\<lambda>s. if session_id s = i then s\<lparr>window := Minimized\<rparr> else s) ss) = hide i (vis ss)"
proof (induction ss)
  case (Cons s ss)
  show ?case
  proof (cases "window s = Minimized")
    case True
    then show ?thesis
      using Cons by auto
  next
    case False
    then have "vis ss = None"
      using Cons.prems by (intro none_visible) auto
    then have "vis (map (\<lambda>s. if session_id s = i then s\<lparr>window := Minimized\<rparr> else s) ss) = None"
      by (auto simp: vis_None)
    then show ?thesis
      using False by (auto simp: hide_def)
  qed
qed (simp add: hide_def)

lemma vis_remove:
  "length (filter (\<lambda>s. window s \<noteq> Minimized) ss) \<le> 1 \<Longrightarrow>
     vis (filter (\<lambda>s. session_id s \<noteq> i) ss) = hide i (vis ss)"
proof (induction ss)
  case (Cons s ss)
  show ?case
  proof (cases "window s = Minimized")
    case True
    then show ?thesis
      using Cons by auto
  next
    case False
    then have "vis ss = None"
      using Cons.prems by (intro none_visible) auto
    then have "vis (filter (\<lambda>s. session_id s \<noteq> i) ss) = None"
      by (auto simp: vis_None)
    then show ?thesis
      using False by (auto simp: hide_def)
  qed
qed (simp add: hide_def)

lemma abs_windows_vis: "abs_windows st = (ids st, vis (sessions st))"
  by (simp add: abs_windows_def vis_def)

lemma terminal_invD:
  assumes "terminal_inv st"
  shows "distinct (ids st)" "length (filter (\<lambda>s. window s \<noteq> Minimized) (sessions st)) \<le> 1"
    "recent_ok (byTenant st)"
  using assms by (auto simp: terminal_inv_def visible_def)

lemma terminal_invI:
  "distinct (ids st) \<Longrightarrow> length (filter (\<lambda>s. window s \<noteq> Minimized) (sessions st)) \<le> 1 \<Longrightarrow>
     recent_ok (byTenant st) \<Longrightarrow> terminal_inv st"
  by (simp add: terminal_inv_def visible_def)

text \<open>The sessions after \<open>restore\<close> and \<open>toggleFullscreen\<close>: the focus goes to \<open>i\<close>.\<close>

definition focus :: "jsstring \<Rightarrow> (terminal_session \<Rightarrow> window_state) \<Rightarrow> terminal_session list \<Rightarrow> terminal_session list" where
  "focus i w ss = map (\<lambda>s. if session_id s = i then s\<lparr>window := w s\<rparr> else s) (demoteOthers ss i)"

lemma restore_focus: "sessions (restore i st) = focus i (\<lambda>_. Docked) (sessions st)"
  by (simp add: restore_def focus_def)

lemma toggle_focus:
  "sessions (toggleFullscreen i st) =
     focus i (\<lambda>s. if window s = Fullscreen then Docked else Fullscreen) (sessions st)"
  by (auto simp: toggleFullscreen_def focus_def)

lemma focus_facts:
  assumes "distinct (map session_id ss)" "\<And>s. w s \<noteq> Minimized"
  shows "map session_id (focus i w ss) = map session_id ss"
    and "length (filter (\<lambda>s. window s \<noteq> Minimized) (focus i w ss)) \<le> 1"
    and "s \<in> set ss \<Longrightarrow> session_id s = i \<Longrightarrow> vis (focus i w ss) = Some (i, w s)"
    and "i \<notin> session_id ` set ss \<Longrightarrow> vis (focus i w ss) = None"
proof -
  show ids: "map session_id (focus i w ss) = map session_id ss"
    by (simp add: focus_def)
  have foc: "focused i (focus i w ss)"
    unfolding focus_def by (rule focused_demote)
  then show "length (filter (\<lambda>s. window s \<noteq> Minimized) (focus i w ss)) \<le> 1"
    using assms(1) ids by (intro focused_at_most_one) simp_all
  show "s \<in> set ss \<Longrightarrow> session_id s = i \<Longrightarrow> vis (focus i w ss) = Some (i, w s)"
  proof -
    assume s: "s \<in> set ss" "session_id s = i"
    then have "s\<lparr>window := w s\<rparr> \<in> set (focus i w ss)"
      by (force simp: focus_def demoteOthers_def)
    from focused_vis [OF foc _ this] show ?thesis
      using s assms ids by simp
  qed
  show "i \<notin> session_id ` set ss \<Longrightarrow> vis (focus i w ss) = None"
    using foc ids by (metis focused_absent list.set_map)
qed

lemma vis_Some_in: "vis ss = Some (i, w) \<Longrightarrow> i \<in> session_id ` set ss"
  by (induction ss) (auto split: if_splits)

lemma vis_in:
  assumes "distinct (map session_id ss)" "length (filter (\<lambda>s. window s \<noteq> Minimized) ss) \<le> 1" "s \<in> set ss"
  shows "vis ss = Some (session_id s, Fullscreen) \<longleftrightarrow> window s = Fullscreen"
  using assms
proof (induction ss)
  case (Cons t ss)
  show ?case
  proof (cases "window t = Minimized")
    case True
    then show ?thesis
      using Cons vis_Some_in [of ss "session_id t"] by auto
  next
    case False
    then have "\<forall>u\<in>set ss. window u = Minimized"
      using Cons.prems(2) by (auto simp: filter_empty_conv)
    then show ?thesis
      using False Cons.prems by (auto simp: image_iff)
  qed
qed simp

lemma minimised_map_le:
  "length (filter (\<lambda>s. window s \<noteq> Minimized) (map (\<lambda>s. if P s then s\<lparr>window := Minimized\<rparr> else s) ss))
     \<le> length (filter (\<lambda>s. window s \<noteq> Minimized) ss)"
  by (rule length_filter_map_le) (auto split: if_splits)

lemma same_window_map:
  assumes "\<And>s. session_id (f s) = session_id s \<and> window (f s) = window s"
  shows "map session_id (map f ss) = map session_id ss" "vis (map f ss) = vis ss"
    "length (filter (\<lambda>s. window s \<noteq> Minimized) (map f ss)) = length (filter (\<lambda>s. window s \<noteq> Minimized) ss)"
  by (induction ss) (auto simp: assms)

lemma demote_fresh: "i \<notin> session_id ` set ss \<Longrightarrow> s \<in> set (demoteOthers ss i) \<Longrightarrow> window s = Minimized"
  by (auto simp: demoteOthers_def)

lemma open_facts:
  assumes "sid \<notin> set (ids st)"
  shows "ids (open_session sid now p st) = ids st @ [sid]"
    "vis (sessions (open_session sid now p st)) = Some (sid, Docked)"
    "length (filter (\<lambda>s. window s \<noteq> Minimized) (sessions (open_session sid now p st))) = 1"
    "byTenant (open_session sid now p st) =
       record_recent (active_tenant st) now (deviceUid p) (deviceName p) (byTenant st)"
proof -
  have min: "s \<in> set (demoteOthers (sessions st) sid) \<Longrightarrow> window s = Minimized" for s
    using assms by (intro demote_fresh) auto
  then have "vis (demoteOthers (sessions st) sid) = None"
    "filter (\<lambda>s. window s \<noteq> Minimized) (demoteOthers (sessions st) sid) = []"
    by (auto simp: vis_None filter_empty_conv)
  then show "ids (open_session sid now p st) = ids st @ [sid]"
    "vis (sessions (open_session sid now p st)) = Some (sid, Docked)"
    "length (filter (\<lambda>s. window s \<noteq> Minimized) (sessions (open_session sid now p st))) = 1"
    "byTenant (open_session sid now p st) =
       record_recent (active_tenant st) now (deviceUid p) (deviceName p) (byTenant st)"
    by (simp_all add: open_session_def Let_def vis_append)
qed

lemma close_sessions:
  "sessions (close i st) = filter (\<lambda>s. session_id s \<noteq> i) (sessions st)"
  "sessions (closeAndReconnect i st) = filter (\<lambda>s. session_id s \<noteq> i) (sessions st)"
proof -
  have "filter (\<lambda>s. session_id s \<noteq> i) ss = ss" if "find (\<lambda>s. session_id s = i) ss = None"
    for ss :: "terminal_session list"
    using that by (auto simp: find_None_iff filter_id_conv)
  then show "sessions (closeAndReconnect i st) = filter (\<lambda>s. session_id s \<noteq> i) (sessions st)"
    by (auto simp: closeAndReconnect_def split: option.splits)
qed (simp add: close_def)

lemma length_filter_filter_le: "length (filter P (filter Q xs)) \<le> length (filter P xs)"
  by (induction xs) auto

lemma close_inv:
  assumes "terminal_inv st" "sessions st' = filter (\<lambda>s. session_id s \<noteq> i) (sessions st)"
    "byTenant st' = byTenant st"
  shows "terminal_inv st'"
proof (rule terminal_invI)
  show "length (filter (\<lambda>s. window s \<noteq> Minimized) (sessions st')) \<le> 1"
    using terminal_invD(2) [OF assms(1)] length_filter_filter_le order_trans unfolding assms(2) by blast
qed (use terminal_invD [OF assms(1)] assms(2,3) in \<open>auto simp: distinct_map_filter\<close>)

lemma byTenant_kept [simp]:
  "byTenant (minimize i st) = byTenant st" "byTenant (minimizeAll st) = byTenant st"
  "byTenant (restore i st) = byTenant st" "byTenant (toggleFullscreen i st) = byTenant st"
  "byTenant (close i st) = byTenant st" "byTenant (closeAndReconnect i st) = byTenant st"
  "byTenant (setConnectionStatus i c st) = byTenant st" "byTenant (clearSensitiveData i st) = byTenant st"
  "byTenant (requestConnect u n st) = byTenant st" "byTenant (clearReconnect st) = byTenant st"
  by (simp_all add: minimize_def minimizeAll_def restore_def toggleFullscreen_def close_def
      closeAndReconnect_def setConnectionStatus_def clearSensitiveData_def requestConnect_def
      clearReconnect_def split: option.splits)

lemma minimize_sessions:
  "sessions (minimize i st) = map (\<lambda>s. if session_id s = i then s\<lparr>window := Minimized\<rparr> else s) (sessions st)"
  "sessions (minimizeAll st) = map (\<lambda>s. if window s \<noteq> Minimized then s\<lparr>window := Minimized\<rparr> else s) (sessions st)"
  by (simp_all add: minimize_def minimizeAll_def)

lemma terminal_preserved:
  assumes inv: "terminal_inv st" and fresh: "fresh_action a st"
  shows "terminal_inv (terminal_step a st)"
proof -
  note D = terminal_invD [OF inv]
  have mapped: "terminal_inv st'" if "sessions st' = map (\<lambda>s. if P s then s\<lparr>window := Minimized\<rparr> else s) (sessions st)"
    "byTenant st' = byTenant st" for P st'
    using D minimised_map_le [of P "sessions st"] that by (intro terminal_invI) auto
  have focused: "terminal_inv st'" if "sessions st' = focus i w (sessions st)"
    "byTenant st' = byTenant st" "\<And>s. w s \<noteq> Minimized" for i w st'
    using D focus_facts(1,2) [OF D(1) that(3)] that(1,2) by (intro terminal_invI) simp_all
  have same: "terminal_inv st'" if "sessions st' = map f (sessions st)" "byTenant st' = byTenant st"
    "\<And>s. session_id (f s) = session_id s \<and> window (f s) = window s" for f st'
    by (rule terminal_invI) (use D that(2) in \<open>simp_all add: that(1,3) same_window_map [OF that(3), unfolded filter_map length_map] filter_map o_def\<close>)
  show ?thesis
  proof (cases a)
    case (Open i now p)
    then show ?thesis
      using D open_facts [of i st now p] fresh recent_ok_record by (intro terminal_invI) auto
  next
    case (Minimize i)
    then show ?thesis
      by (simp add: mapped [where P = "\<lambda>s. session_id s = i"] minimize_sessions)
  next
    case MinimizeAll
    then show ?thesis
      by (simp add: mapped [where P = "\<lambda>s. window s \<noteq> Minimized"] minimize_sessions)
  next
    case (Restore i)
    then show ?thesis
      using focused [OF restore_focus, of i] by simp
  next
    case (ToggleFullscreen i)
    then show ?thesis
      using focused [OF toggle_focus, of i] by simp
  next
    case (Close i)
    then show ?thesis
      using close_inv [OF inv close_sessions(1)] by simp
  next
    case (CloseAndReconnect i)
    then show ?thesis
      using close_inv [OF inv close_sessions(2)] by simp
  next
    case (SetConnectionStatus i c)
    then show ?thesis
      by (simp add: setConnectionStatus_def)
        (rule same [where f = "\<lambda>s. if session_id s = i then s\<lparr>connectionStatus := c\<rparr> else s"], simp_all)
  next
    case (ClearSensitiveData i)
    then show ?thesis
      by (simp add: clearSensitiveData_def)
        (rule same [where f = "\<lambda>s. if session_id s = i
           then s\<lparr>params := (params s)\<lparr>privateKey := None, passphrase := None, password := []\<rparr>\<rparr> else s"],
         simp_all)
  qed (use inv in \<open>simp_all add: requestConnect_def clearReconnect_def terminal_inv_def visible_def\<close>)
qed

lemma terminal_abs_step:
  assumes inv: "terminal_inv st" and fresh: "fresh_action a st"
  shows "abs_windows (terminal_step a st) = windows_step a (abs_windows st)"
proof -
  note D = terminal_invD [OF inv]
  show ?thesis
  proof (cases a)
    case (Open i now p)
    then show ?thesis
      using open_facts [of i st now p] fresh by (simp add: abs_windows_vis)
  next
    case (Restore i)
    then show ?thesis
      using focus_facts [OF D(1), where w = "\<lambda>_. Docked" and i = i]
      by (auto simp: abs_windows_vis restore_focus)
  next
    case (ToggleFullscreen i)
    let ?w = "\<lambda>s. if window s = Fullscreen then Docked else Fullscreen"
    show ?thesis
    proof (cases "i \<in> set (ids st)")
      case True
      then obtain s where s: "s \<in> set (sessions st)" "session_id s = i"
        by auto
      then show ?thesis
        using focus_facts [OF D(1), where w = ?w and i = i] vis_in [OF D(1,2) s(1)] True ToggleFullscreen
        by (auto simp: abs_windows_vis toggle_focus)
    next
      case False
      then show ?thesis
        using focus_facts [OF D(1), where w = ?w and i = i] ToggleFullscreen
        by (auto simp: abs_windows_vis toggle_focus)
    qed
  next
    case (SetConnectionStatus i c)
    then show ?thesis
      using same_window_map [where f = "\<lambda>s. if session_id s = i then s\<lparr>connectionStatus := c\<rparr> else s"]
      by (simp add: abs_windows_vis setConnectionStatus_def)
  next
    case (ClearSensitiveData i)
    then show ?thesis
      using same_window_map [where f = "\<lambda>s. if session_id s = i
           then s\<lparr>params := (params s)\<lparr>privateKey := None, passphrase := None, password := []\<rparr>\<rparr> else s"]
      by (simp add: abs_windows_vis clearSensitiveData_def)
  next
    case MinimizeAll
    then show ?thesis
      by (auto simp: abs_windows_vis minimize_sessions vis_None)
  qed (simp_all add: abs_windows_vis minimize_sessions close_sessions filter_map o_def vis_minimize [OF D(2)]
      vis_remove [OF D(2)] requestConnect_def clearReconnect_def)
qed

interpretation terminal: store_refinement terminal_step fresh_action terminal_inv abs_windows windows_step
  by unfold_locales (rule terminal_preserved terminal_abs_step, assumption+)+

section \<open>Properties\<close>

text \<open>
  C15: Along every sequence of store actions the windows behave like the abstract window list: the
  order is the order of opening, a window that is opened, restored or made full screen
  becomes the only visible one, and closing or minimising it leaves none. At most one session is
  visible and ids are distinct.
\<close>

theorem terminal_refines_windows:
  assumes "terminal.enabled_run as (initial_terminal t Map.empty)"
  shows "abs_windows (fold terminal_step as (initial_terminal t Map.empty)) = fold windows_step as ([], None) \<and>
    length (visible (fold terminal_step as (initial_terminal t Map.empty))) \<le> 1 \<and>
    distinct (ids (fold terminal_step as (initial_terminal t Map.empty)))"
proof -
  have inv: "terminal_inv (initial_terminal t Map.empty)"
    by (simp add: terminal_inv_def initial_terminal_def visible_def recent_ok_def)
  have abs: "abs_windows (initial_terminal t Map.empty) = ([], None)"
    by (simp add: abs_windows_vis initial_terminal_def)
  show ?thesis
    using terminal.abs_run [OF inv assms] terminal.run_inv [OF inv assms]
    by (simp add: abs terminal.run_fold [symmetric] terminal_inv_def)
qed

definition sample_params :: session_params where
  "sample_params = \<lparr>deviceUid = js ''d1'', deviceName = js ''pi'', username = js ''root'',
     password = js ''pw'', key_fingerprint = None, privateKey = Some (js ''PEM''), passphrase = None,
     browserKey = None, publicKeyLine = None, recording = None\<rparr>"

definition sample_actions :: "terminal_action list" where
  "sample_actions = [Open [1] [] sample_params, Open [2] [] sample_params, ToggleFullscreen [1]]"

lemma sample_actions_enabled: "terminal.enabled_run sample_actions (initial_terminal None Map.empty)"
  by (simp add: sample_actions_def initial_terminal_def open_session_def record_recent_def demoteOthers_def)

theorem terminal_refines_windows_witness:
  "abs_windows (fold terminal_step sample_actions (initial_terminal None Map.empty)) =
     ([[1], [2]], Some ([1], Fullscreen))"
  using terminal_refines_windows [OF sample_actions_enabled] by (simp add: sample_actions_def)

definition no_secrets :: "terminal_session \<Rightarrow> bool" where
  "no_secrets s \<longleftrightarrow> privateKey (params s) = None \<and> passphrase (params s) = None \<and> password (params s) = []"

definition cleared :: "jsstring \<Rightarrow> terminal_state \<Rightarrow> bool" where
  "cleared i st \<longleftrightarrow> list_all (\<lambda>s. session_id s = i \<longrightarrow> no_secrets s) (sessions st)"

fun opens :: "jsstring \<Rightarrow> terminal_action \<Rightarrow> bool" where
  "opens i (Open j now p) = (i = j)"
| "opens i _ = False"

lemma no_secrets_window [simp]:
  "no_secrets (s\<lparr>window := w\<rparr>) = no_secrets s" "no_secrets (s\<lparr>connectionStatus := c\<rparr>) = no_secrets s"
  "no_secrets (s\<lparr>params := (params s)\<lparr>privateKey := None, passphrase := None, password := []\<rparr>\<rparr>)"
  by (simp_all add: no_secrets_def)

lemma list_all_mapI: "(\<And>x. P x \<Longrightarrow> P (f x)) \<Longrightarrow> list_all P xs \<Longrightarrow> list_all P (map f xs)"
  by (induction xs) auto

lemma list_all_filterI: "list_all P xs \<Longrightarrow> list_all P (filter Q xs)"
  by (induction xs) auto

lemma cleared_clear: "cleared i (clearSensitiveData i st)"
proof -
  have "list_all (\<lambda>s. session_id s = i \<longrightarrow> no_secrets s) (map (\<lambda>s. if session_id s = i
     then s\<lparr>params := (params s)\<lparr>privateKey := None, passphrase := None, password := []\<rparr>\<rparr> else s) ss)" for ss
    by (induction ss) simp_all
  then show ?thesis
    by (simp add: cleared_def clearSensitiveData_def)
qed

lemma cleared_step:
  assumes "cleared i st" "\<not> opens i a"
  shows "cleared i (terminal_step a st)"
proof -
  note c = assms(1) [unfolded cleared_def]
  show ?thesis
  proof (cases a)
    case (Open j now p)
    then show ?thesis
      using assms(2) c by (auto simp: cleared_def open_session_def Let_def demoteOthers_def
          intro!: list_all_mapI split: if_splits)
  qed (use c in \<open>auto simp: cleared_def minimize_def minimizeAll_def restore_def toggleFullscreen_def
      demoteOthers_def setConnectionStatus_def clearSensitiveData_def close_sessions requestConnect_def
      clearReconnect_def simp del: map_map intro!: list_all_mapI list_all_filterI
      split: if_splits\<close>)
qed

lemma cleared_run: "cleared i st \<Longrightarrow> \<forall>a\<in>set as. \<not> opens i a \<Longrightarrow> cleared i (fold terminal_step as st)"
  by (induction as arbitrary: st) (auto simp: cleared_step)

text \<open>
  Once the sensitive data of a session is cleared it never comes back: after any further
  actions, as long as no new session gets the same id, the session holds no private key, no passphrase
  and no password.
\<close>

theorem cleared_secrets_stay_cleared:
  assumes "\<forall>a\<in>set as. \<not> opens i a"
    "s \<in> set (sessions (fold terminal_step (ClearSensitiveData i # as) st))" "session_id s = i"
  shows "privateKey (params s) = None \<and> passphrase (params s) = None \<and> password (params s) = []"
  using cleared_run [OF cleared_clear assms(1), of st] assms(2,3)
  by (simp add: cleared_def no_secrets_def list_all_iff)

theorem cleared_secrets_stay_cleared_witness:
  "\<exists>s. s \<in> set (sessions (fold terminal_step (ClearSensitiveData [1] # [Restore [1]])
          (open_session [1] [] sample_params (initial_terminal None Map.empty)))) \<and>
       password (params s) = []"
proof -
  let ?st = "open_session [1] [] sample_params (initial_terminal None Map.empty)"
  obtain s where "s \<in> set (sessions (fold terminal_step (ClearSensitiveData [1] # [Restore [1]]) ?st))"
    "session_id s = [1]"
    by (simp add: open_session_def initial_terminal_def demoteOthers_def clearSensitiveData_def restore_def)
  then show ?thesis
    using cleared_secrets_stay_cleared [of "[Restore [1]]" "[1]" s ?st] by auto
qed

text \<open>
  Recording a connection puts the device first in the list of the active tenant with the new
  time stamp, keeps the other devices of the list in order up to the cap, without a second entry for
  the device, and does not change the list of any other tenant.
\<close>

theorem record_recent_mru:
  assumes "t \<noteq> []" "recent_ok m"
  shows "record_recent (Some t) now uid name m t =
        Some (\<lparr>rd_uid = uid, rd_name = name, connectedAt = now\<rparr> #
          take 9 (filter (\<lambda>d. rd_uid d \<noteq> uid) (case m t of None \<Rightarrow> [] | Some ds \<Rightarrow> ds))) \<and>
      recent_ok (record_recent (Some t) now uid name m) \<and>
      (\<forall>t'. t' \<noteq> t \<longrightarrow> record_recent (Some t) now uid name m t' = m t')"
proof -
  have "record_recent (Some t) now uid name m = m(t \<mapsto>
      \<lparr>rd_uid = uid, rd_name = name, connectedAt = now\<rparr> #
        take 9 (filter (\<lambda>d. rd_uid d \<noteq> uid) (case m t of None \<Rightarrow> [] | Some ds \<Rightarrow> ds)))"
    using assms(1) by (simp add: record_recent_def slice_def STORE_CAP_def numeral_eq_Suc)
  then show ?thesis
    using recent_ok_record [OF assms(2), of "Some t" now uid name] by simp
qed

theorem record_recent_mru_witness:
  "record_recent (Some [1]) [9] [2] [3] (Map.empty([5] \<mapsto> [])) [5] = Some []"
proof -
  have ok: "recent_ok (Map.empty([5] \<mapsto> []))"
    by (simp add: recent_ok_def)
  have "[1::nat] \<noteq> []"
    by simp
  from record_recent_mru [OF this ok, of "[9]" "[2]" "[3]", THEN conjunct2, THEN conjunct2, THEN spec, of "[5]"]
  show ?thesis
    by simp
qed

end
