(* ===== verification/Connectivity.thy ===== *)
theory Connectivity
  imports JsBase
begin

text \<open>
  Whether the API is reachable: the connectivity store (\<open>stores/connectivityStore.ts\<close>) and the
  part of the fetch interceptors (\<open>api/fetchInterceptors.ts\<close>) that feeds it. Timers are kept with the time
  they are due; a request that the code awaits is in flight until it settles with a status or a
  network failure, and every settled request passes the interceptors first. The relation
  \<open>nstep\<close> lets requests settle and timers fire in any order; \<open>lastUp\<close> is not a variable of
  the code, it records when the API last answered.
\<close>

section \<open>State and operations\<close>

record net =
  apiReachable :: bool
  initialCheckDone :: bool
  initialGatePassed :: bool
  polling :: bool
  pollTimers :: "rat list"
  pollsInFlight :: nat
  checksInFlight :: nat
  downTimer :: "rat option"
  clock_ms :: rat
  lastUp :: rat

definition POLL_MS :: rat where
  "POLL_MS = 5000"

definition GRACE_PERIOD_MS :: rat where
  "GRACE_PERIOD_MS = 5000"

definition initial_net :: "rat \<Rightarrow> net" where
  "initial_net now = \<lparr>apiReachable = True, initialCheckDone = False, initialGatePassed = False,
     polling = False, pollTimers = [], pollsInFlight = 0, checksInFlight = 0, downTimer = None,
     clock_ms = now, lastUp = now\<rparr>"

definition startPolling :: "net \<Rightarrow> net" where
  "startPolling s =
     (if polling s then s
      else s\<lparr>polling := True, pollTimers := pollTimers s @ [clock_ms s + POLL_MS]\<rparr>)"

definition markDown :: "net \<Rightarrow> net" where
  "markDown s = startPolling (s\<lparr>apiReachable := False\<rparr>)"

definition markUp :: "net \<Rightarrow> net" where
  "markUp s = s\<lparr>apiReachable := True, initialGatePassed := True\<rparr>"

definition scheduleMarkDown :: "net \<Rightarrow> net" where
  "scheduleMarkDown s =
     (if downTimer s \<noteq> None then s else s\<lparr>downTimer := Some (clock_ms s + GRACE_PERIOD_MS)\<rparr>)"

definition cancelMarkDown :: "net \<Rightarrow> net" where
  "cancelMarkDown s = (if downTimer s \<noteq> None then s\<lparr>downTimer := None\<rparr> else s)"

definition isApiDown :: "nat \<Rightarrow> bool" where
  "isApiDown status \<longleftrightarrow> status = 502 \<or> status = 503 \<or> status = 504"

text \<open>The response interceptor, without what a 401 does to the session.\<close>

definition on_response :: "nat \<Rightarrow> net \<Rightarrow> net" where
  "on_response status s0 =
     (let s = (if \<not> isApiDown status then
                 (let s1 = cancelMarkDown s0 in if \<not> apiReachable s1 then markUp s1 else s1)
               else s0)
      in if status = 401 then s else if isApiDown status then scheduleMarkDown s else s)"

text \<open>The error interceptor without a response.\<close>

definition on_network_error :: "net \<Rightarrow> net" where
  "on_network_error s = scheduleMarkDown s"

datatype outcome = Answer nat | NetworkError

definition http_ok :: "nat \<Rightarrow> bool" where
  "http_ok status \<longleftrightarrow> 200 \<le> status \<and> status < 300"

fun succeeds :: "outcome \<Rightarrow> bool" where
  "succeeds (Answer status) = http_ok status"
| "succeeds NetworkError = False"

text \<open>What the interceptors do when a request settles; the last answer is noted.\<close>

fun settle :: "outcome \<Rightarrow> net \<Rightarrow> net" where
  "settle (Answer status) s =
     on_response status (if isApiDown status then s else s\<lparr>lastUp := clock_ms s\<rparr>)"
| "settle NetworkError s = on_network_error s"

definition checkInitial_done :: "outcome \<Rightarrow> net \<Rightarrow> net" where
  "checkInitial_done out s0 =
     (let s = settle out (s0\<lparr>checksInFlight := checksInFlight s0 - 1\<rparr>) in
      if succeeds out
      then s\<lparr>apiReachable := True, initialCheckDone := True, initialGatePassed := True\<rparr>
      else startPolling (s\<lparr>apiReachable := False, initialCheckDone := True\<rparr>))"

definition poll_done :: "outcome \<Rightarrow> net \<Rightarrow> net" where
  "poll_done out s0 =
     (let s = settle out (s0\<lparr>pollsInFlight := pollsInFlight s0 - 1\<rparr>) in
      if succeeds out then (markUp s)\<lparr>polling := False\<rparr>
      else s\<lparr>pollTimers := pollTimers s @ [clock_ms s + POLL_MS]\<rparr>)"

inductive nstep :: "net \<Rightarrow> net \<Rightarrow> bool" where
  tick: "clock_ms s \<le> now \<Longrightarrow> nstep s (s\<lparr>clock_ms := now\<rparr>)"
| request: "nstep s (settle out s)"
| check: "nstep s (s\<lparr>checksInFlight := checksInFlight s + 1\<rparr>)"
| check_done: "0 < checksInFlight s \<Longrightarrow> nstep s (checkInitial_done out s)"
| poll_fires: "due \<in> set (pollTimers s) \<Longrightarrow> due \<le> clock_ms s \<Longrightarrow>
    nstep s (s\<lparr>pollTimers := remove1 due (pollTimers s), pollsInFlight := pollsInFlight s + 1\<rparr>)"
| poll_done: "0 < pollsInFlight s \<Longrightarrow> nstep s (poll_done out s)"
| down_fires: "downTimer s = Some due \<Longrightarrow> due \<le> clock_ms s \<Longrightarrow>
    nstep s (markDown (s\<lparr>downTimer := None\<rparr>))"

inductive nreach :: "net \<Rightarrow> bool" where
  initial: "nreach (initial_net now)"
| step: "nreach s \<Longrightarrow> nstep s s' \<Longrightarrow> nreach s'"

inductive_cases nstepE: "nstep s s'"

section \<open>Invariant\<close>

text \<open>
  A poll loop is alive exactly while \<open>polling\<close> is set, it is one loop, and it is alive whenever
  the API is marked down. A pending down timer was armed after the last answer.
\<close>

definition net_inv :: "net \<Rightarrow> bool" where
  "net_inv s \<longleftrightarrow>
     (\<not> apiReachable s \<longrightarrow> polling s) \<and>
     length (pollTimers s) + pollsInFlight s = (if polling s then 1 else 0) \<and>
     (\<forall>due\<in>set (pollTimers s). due \<le> clock_ms s + POLL_MS) \<and>
     (\<forall>due. downTimer s = Some due \<longrightarrow> due \<le> clock_ms s + GRACE_PERIOD_MS \<and> lastUp s + GRACE_PERIOD_MS \<le> due) \<and>
     lastUp s \<le> clock_ms s"

lemmas net_defs = startPolling_def markDown_def markUp_def scheduleMarkDown_def cancelMarkDown_def
  on_response_def on_network_error_def

lemma settle_inv: "net_inv s \<Longrightarrow> net_inv (settle out s)"
  by (cases out) (auto simp: net_inv_def net_defs Let_def isApiDown_def)

lemma settle_poll [simp]:
  "polling (settle out s) = polling s" "pollTimers (settle out s) = pollTimers s"
  "pollsInFlight (settle out s) = pollsInFlight s" "clock_ms (settle out s) = clock_ms s"
  "checksInFlight (settle out s) = checksInFlight s"
  by (cases out; simp add: net_defs Let_def)+

lemma settle_success: "succeeds out \<Longrightarrow> apiReachable (settle out s) \<and> downTimer (settle out s) = None"
  by (cases out) (auto simp: net_defs Let_def isApiDown_def http_ok_def)

lemma startPolling_inv:
  "net_inv (s\<lparr>apiReachable := True\<rparr>) \<Longrightarrow> net_inv (startPolling (s\<lparr>apiReachable := False, initialCheckDone := d\<rparr>))"
  "net_inv (s\<lparr>apiReachable := True\<rparr>) \<Longrightarrow> net_inv (startPolling (s\<lparr>apiReachable := False\<rparr>))"
  by (auto simp: net_inv_def startPolling_def)

lemma net_inv_reachable: "net_inv s \<Longrightarrow> net_inv (s\<lparr>apiReachable := True\<rparr>)"
  by (simp add: net_inv_def)

lemma poll_done_inv:
  assumes "net_inv s" "0 < pollsInFlight s"
  shows "net_inv (poll_done out s)"
proof -
  have p: "polling s" "pollTimers s = []" "pollsInFlight s = 1"
    using assms by (cases "pollTimers s"; auto simp: net_inv_def split: if_splits)+
  define s1 where "s1 = settle out (s\<lparr>pollsInFlight := pollsInFlight s - 1\<rparr>)"
  have "net_inv (settle out (s\<lparr>pollsInFlight := 0, pollTimers := [clock_ms s]\<rparr>))"
    using assms(1) p by (intro settle_inv) (auto simp: net_inv_def POLL_MS_def)
  moreover have "settle out (s\<lparr>pollsInFlight := 0, pollTimers := [clock_ms s]\<rparr>) =
      s1\<lparr>pollTimers := [clock_ms s]\<rparr>"
    unfolding s1_def by (cases out) (simp_all add: p net_defs Let_def)
  ultimately have inv: "net_inv (s1\<lparr>pollTimers := [clock_ms s]\<rparr>)"
    by simp
  have "polling s1" "pollTimers s1 = []" "pollsInFlight s1 = 0" "clock_ms s1 = clock_ms s"
    by (simp_all add: s1_def p)
  moreover have "poll_done out s = (if succeeds out then (markUp s1)\<lparr>polling := False\<rparr>
      else s1\<lparr>pollTimers := pollTimers s1 @ [clock_ms s1 + POLL_MS]\<rparr>)"
    unfolding poll_done_def s1_def Let_def ..
  ultimately show ?thesis
    using inv by (auto simp: net_inv_def markUp_def POLL_MS_def)
qed

lemma nstep_inv:
  assumes "nstep s s'" "net_inv s"
  shows "net_inv s'"
  using assms
proof (induction rule: nstep.induct)
  case (tick s now)
  then show ?case
    by (auto simp: net_inv_def intro: order_trans add_right_mono)
next
  case (request s out)
  then show ?case
    by (simp add: settle_inv)
next
  case (check_done s out)
  then have "net_inv (settle out (s\<lparr>checksInFlight := checksInFlight s - 1\<rparr>))"
    by (intro settle_inv) (simp add: net_inv_def)
  then show ?case
    using startPolling_inv(1) [OF net_inv_reachable]
    by (auto simp: checkInitial_done_def Let_def) (simp add: net_inv_def)
next
  case (poll_fires due s)
  then have "pollTimers s = [due]" "pollsInFlight s = 0" "polling s"
    by (cases "pollTimers s"; auto simp: net_inv_def split: if_splits)+
  then show ?case
    using poll_fires.prems by (simp add: net_inv_def)
next
  case (poll_done s out)
  then show ?case
    by (simp add: poll_done_inv)
next
  case (down_fires s due)
  then have "net_inv ((s\<lparr>downTimer := None\<rparr>)\<lparr>apiReachable := True\<rparr>)"
    by (simp add: net_inv_def)
  then show ?case
    unfolding markDown_def by (rule startPolling_inv(2))
qed (simp_all add: net_inv_def)

lemma nreach_inv: "nreach s \<Longrightarrow> net_inv s"
proof (induction rule: nreach.induct)
  case (step s s')
  then show ?case
    by (simp add: nstep_inv)
qed (simp add: net_inv_def initial_net_def)

section \<open>Properties\<close>

text \<open>The poll that is under way when it succeeds.\<close>

lemma poll_recovers:
  assumes "0 < pollsInFlight s" "http_ok status"
  shows "nstep s (poll_done (Answer status) s) \<and> apiReachable (poll_done (Answer status) s) \<and>
     initialGatePassed (poll_done (Answer status) s) \<and> \<not> polling (poll_done (Answer status) s) \<and> clock_ms (poll_done (Answer status) s) = clock_ms s"
  using assms nstep.poll_done [of s "Answer status"]
  by (simp add: poll_done_def Let_def markUp_def del: settle.simps)


lemma gate_monotone:
  assumes "nstep s s'" "initialGatePassed s"
  shows "initialGatePassed s'"
proof -
  have set: "initialGatePassed (settle out t)" if "initialGatePassed t" for out t
    using that by (cases out) (auto simp: net_defs Let_def)
  show ?thesis
    using assms
    by (induction rule: nstep.induct)
      (auto simp: set checkInitial_done_def poll_done_def Let_def net_defs simp del: settle.simps)
qed

lemma settle_keeps_reachable: "apiReachable s \<Longrightarrow> apiReachable (settle out s)"
  by (cases out) (auto simp: net_defs Let_def)

text \<open>
  A single failed request does not bring the banner up: outside the initial check the API is
  marked down only when it has not answered for at least the grace period of five seconds. And
  once the startup gate is open no step closes it.
\<close>

theorem mark_down_after_grace:
  assumes "nreach s" "nstep s s'"
  shows "(apiReachable s \<and> \<not> apiReachable s' \<longrightarrow>
       lastUp s + GRACE_PERIOD_MS \<le> clock_ms s \<or> 0 < checksInFlight s) \<and>
    (initialGatePassed s \<longrightarrow> initialGatePassed s')"
proof (intro conjI impI)
  assume down: "apiReachable s \<and> \<not> apiReachable s'"
  have "net_inv s"
    by (rule nreach_inv [OF assms(1)])
  with assms(2) down show "lastUp s + GRACE_PERIOD_MS \<le> clock_ms s \<or> 0 < checksInFlight s"
  proof (induction rule: nstep.induct)
    case (poll_done s out)
    then show ?case
      by (auto simp: poll_done_def Let_def markUp_def settle_keeps_reachable simp del: settle.simps
          split: if_splits)
  next
    case (down_fires s due)
    then show ?case
      by (auto simp: net_inv_def)
  qed (auto simp: settle_keeps_reachable simp del: settle.simps)
qed (rule gate_monotone [OF assms(2)])

section \<open>Witnesses\<close>

text \<open>A page whose API stops answering: a 503, five seconds, and the timer fires.\<close>

definition waiting_net :: net where
  "waiting_net = (settle (Answer 503) (initial_net 0))\<lparr>clock_ms := 5000\<rparr>"

definition down_net :: net where
  "down_net = markDown (waiting_net\<lparr>downTimer := None\<rparr>)"

lemma waiting_eval:
  "waiting_net = (initial_net 0)\<lparr>downTimer := Some 5000, clock_ms := 5000\<rparr>"
  by (simp add: waiting_net_def initial_net_def net_defs isApiDown_def GRACE_PERIOD_MS_def)

lemma waiting_reach: "nreach waiting_net"
proof -
  have "nreach (settle (Answer 503) (initial_net 0))"
    by (rule nreach.step [OF nreach.initial nstep.request])
  moreover have "clock_ms (settle (Answer 503) (initial_net 0)) \<le> 5000"
    by (simp add: initial_net_def del: settle.simps)
  ultimately show ?thesis
    unfolding waiting_net_def by (rule nreach.step [OF _ nstep.tick])
qed

lemma down_step: "nstep waiting_net down_net"
  unfolding down_net_def by (rule nstep.down_fires [of _ 5000]) (simp_all add: waiting_eval)

lemma down_reach: "nreach down_net"
  by (rule nreach.step [OF waiting_reach down_step])

lemma down_state: "\<not> apiReachable down_net"
  by (simp add: down_net_def markDown_def startPolling_def)


theorem mark_down_after_grace_witness:
  "apiReachable waiting_net \<and> \<not> apiReachable down_net \<and>
   lastUp waiting_net + GRACE_PERIOD_MS \<le> clock_ms waiting_net"
  using mark_down_after_grace [OF waiting_reach down_step] down_state
  by (simp add: waiting_eval initial_net_def)

end
