(* ===== verification/Chatwoot.thy ===== *)
theory Chatwoot
  imports JsBase
begin

text \<open>
  The life cycle of the support widget (\<open>hooks/chatwootRuntime.ts\<close>): the module variables, the timers,
  and what of the page the module touches (the script element, the globals and the nodes of the
  SDK). \<open>cstep\<close> lets the page's events come in any order the browser allows: a script that was
  inserted loads or fails later, even after its element was removed from the document, and an SDK that
  was started may report ready.
\<close>

section \<open>State and operations\<close>

text \<open>
  \<open>loadsPending\<close> counts the inserted scripts whose load event is still to come; \<open>sdkRuns\<close> counts the
  runs of the SDK that have not reported ready.
\<close>

record chat =
  scriptInjected :: bool
  bootstrapFailed :: bool
  bootstrapTimer :: "nat option"
  readyListener :: bool
  ctimers :: "(nat \<times> rat) list"
  nextCtimer :: nat
  scriptsInDom :: nat
  sdkNodes :: bool
  widget :: bool
  sdkGlobal :: bool
  settingsGlobal :: bool
  loadsPending :: nat
  sdkRuns :: nat
  cclock :: rat

definition BOOTSTRAP_TIMEOUT_MS :: rat where
  "BOOTSTRAP_TIMEOUT_MS = 15000"

definition initial_chat :: "rat \<Rightarrow> chat" where
  "initial_chat now = \<lparr>scriptInjected = False, bootstrapFailed = False, bootstrapTimer = None,
     readyListener = False, ctimers = [], nextCtimer = 0, scriptsInDom = 0, sdkNodes = False,
     widget = False, sdkGlobal = False, settingsGlobal = False, loadsPending = 0, sdkRuns = 0,
     cclock = now\<rparr>"

definition clearWatchdog :: "chat \<Rightarrow> chat" where
  "clearWatchdog c = (case bootstrapTimer c of
      None \<Rightarrow> c
    | Some i \<Rightarrow> c\<lparr>ctimers := filter (\<lambda>t. fst t \<noteq> i) (ctimers c), bootstrapTimer := None\<rparr>)"

definition detachReadyListener :: "chat \<Rightarrow> chat" where
  "detachReadyListener c = c\<lparr>readyListener := False\<rparr>"

definition getWidgetReadySnapshot :: "chat \<Rightarrow> bool" where
  "getWidgetReadySnapshot c = widget c"

datatype tear_down_reason = ByLogout | BootstrapTimeout

definition tearDownChatwoot :: "tear_down_reason \<Rightarrow> chat \<Rightarrow> chat" where
  "tearDownChatwoot reason c =
     (detachReadyListener (clearWatchdog c))\<lparr>scriptsInDom := 0, sdkNodes := False, widget := False,
        sdkGlobal := False, settingsGlobal := False, scriptInjected := False,
        bootstrapFailed := (reason = BootstrapTimeout)\<rparr>"

definition injectChatwootScript :: "chat \<Rightarrow> chat" where
  "injectChatwootScript c0 =
     (if getWidgetReadySnapshot c0 then c0
      else
        let c = (if scriptInjected c0 \<and> scriptsInDom c0 = 0 then c0\<lparr>scriptInjected := False\<rparr> else c0)
        in if scriptInjected c \<or> 0 < scriptsInDom c then c
           else (detachReadyListener (c\<lparr>bootstrapFailed := False, scriptInjected := True,
                    settingsGlobal := True\<rparr>))
                \<lparr>readyListener := True, scriptsInDom := scriptsInDom c + 1,
                 loadsPending := loadsPending c + 1\<rparr>)"

text \<open>The listener of the ready event.\<close>

definition onReady :: "chat \<Rightarrow> chat" where
  "onReady c = detachReadyListener ((clearWatchdog c)\<lparr>bootstrapFailed := False\<rparr>)"

text \<open>
  The load handler: the SDK did not attach its global, running it throws, or it runs and the
  watchdog is armed.
\<close>

datatype load_result = NoSdk | RunThrows | RunOk

definition onScriptLoad :: "load_result \<Rightarrow> chat \<Rightarrow> chat" where
  "onScriptLoad r c0 =
     (let c = c0\<lparr>sdkGlobal := (r \<noteq> NoSdk)\<rparr> in
      case r of
        NoSdk \<Rightarrow> tearDownChatwoot BootstrapTimeout c
      | RunThrows \<Rightarrow> tearDownChatwoot BootstrapTimeout c
      | RunOk \<Rightarrow> c\<lparr>sdkRuns := sdkRuns c + 1, bootstrapTimer := Some (nextCtimer c),
                  ctimers := ctimers c @ [(nextCtimer c, cclock c + BOOTSTRAP_TIMEOUT_MS)],
                  nextCtimer := Suc (nextCtimer c)\<rparr>)"

definition onScriptError :: "chat \<Rightarrow> chat" where
  "onScriptError c = tearDownChatwoot BootstrapTimeout c"

text \<open>The callback of the watchdog.\<close>

definition onWatchdog :: "chat \<Rightarrow> chat" where
  "onWatchdog c0 =
     (let c = c0\<lparr>bootstrapTimer := None\<rparr>
      in if \<not> getWidgetReadySnapshot c then tearDownChatwoot BootstrapTimeout c else c)"

inductive cstep :: "chat \<Rightarrow> chat \<Rightarrow> bool" where
  pass: "cclock c \<le> now \<Longrightarrow> cstep c (c\<lparr>cclock := now\<rparr>)"
| inject: "cstep c (injectChatwootScript c)"
| loaded: "0 < loadsPending c \<Longrightarrow> cstep c (onScriptLoad r (c\<lparr>loadsPending := loadsPending c - 1\<rparr>))"
| errored: "0 < loadsPending c \<Longrightarrow> cstep c (onScriptError (c\<lparr>loadsPending := loadsPending c - 1\<rparr>))"
| ready: "0 < sdkRuns c \<Longrightarrow>
    cstep c (let c' = c\<lparr>sdkRuns := sdkRuns c - 1, widget := True, sdkNodes := True\<rparr>
             in if readyListener c' then onReady c' else c')"
| watchdog: "(i, due) \<in> set (ctimers c) \<Longrightarrow> due \<le> cclock c \<Longrightarrow>
    cstep c (onWatchdog (c\<lparr>ctimers := filter (\<lambda>t. fst t \<noteq> i) (ctimers c)\<rparr>))"
| logout: "cstep c (tearDownChatwoot ByLogout c)"
| page_cleanup: "cstep c (c\<lparr>scriptsInDom := 0\<rparr>)"

inductive creach :: "chat \<Rightarrow> bool" where
  initial: "creach (initial_chat now)"
| step: "creach c \<Longrightarrow> cstep c c' \<Longrightarrow> creach c'"

section \<open>Invariant\<close>

text \<open>
  An attempt that has neither succeeded nor failed is being watched: a script is still loading or a timer is
  pending. There is never more than one script element.
\<close>

definition chat_inv :: "chat \<Rightarrow> bool" where
  "chat_inv c \<longleftrightarrow>
     scriptsInDom c \<le> 1 \<and>
     (scriptInjected c \<and> \<not> widget c \<longrightarrow> 0 < loadsPending c \<or> ctimers c \<noteq> []) \<and>
     (\<forall>t\<in>set (ctimers c). fst t < nextCtimer c \<and> snd t \<le> cclock c + BOOTSTRAP_TIMEOUT_MS) \<and>
     distinct (map fst (ctimers c))"

lemma clearWatchdog_simps [simp]:
  "scriptsInDom (clearWatchdog c) = scriptsInDom c" "widget (clearWatchdog c) = widget c"
  "scriptInjected (clearWatchdog c) = scriptInjected c" "loadsPending (clearWatchdog c) = loadsPending c"
  "nextCtimer (clearWatchdog c) = nextCtimer c" "cclock (clearWatchdog c) = cclock c"
  "bootstrapTimer (clearWatchdog c) = None" "sdkRuns (clearWatchdog c) = sdkRuns c"
  by (auto simp: clearWatchdog_def split: option.splits)

lemma clearWatchdog_timers:
  assumes "chat_inv c"
  shows "set (ctimers (clearWatchdog c)) \<subseteq> set (ctimers c)" "distinct (map fst (ctimers (clearWatchdog c)))"
  using assms by (auto simp: chat_inv_def clearWatchdog_def distinct_map_filter split: option.splits)

lemma tearDown_inv: "chat_inv c \<Longrightarrow> chat_inv (tearDownChatwoot r c)"
  using clearWatchdog_timers [of c]
  by (auto simp: chat_inv_def tearDownChatwoot_def detachReadyListener_def)

lemma onReady_inv: "chat_inv c \<Longrightarrow> widget c \<Longrightarrow> chat_inv (onReady c)"
  using clearWatchdog_timers [of c]
  by (auto simp: chat_inv_def onReady_def detachReadyListener_def)

text \<open>The invariant without the watched attempt, which the handlers establish again.\<close>

definition timers_ok :: "chat \<Rightarrow> bool" where
  "timers_ok c \<longleftrightarrow> chat_inv (c\<lparr>scriptInjected := False\<rparr>)"

lemma tearDown_ok: "timers_ok c \<Longrightarrow> chat_inv (tearDownChatwoot r c)"
proof -
  assume "timers_ok c"
  then have "chat_inv (tearDownChatwoot r (c\<lparr>scriptInjected := False\<rparr>))"
    by (simp add: timers_ok_def tearDown_inv)
  moreover have "tearDownChatwoot r (c\<lparr>scriptInjected := False\<rparr>) = tearDownChatwoot r c"
    by (simp add: tearDownChatwoot_def detachReadyListener_def clearWatchdog_def split: option.splits)
  ultimately show ?thesis
    by simp
qed

lemma chat_inv_ok: "chat_inv c \<Longrightarrow> timers_ok (c\<lparr>loadsPending := n\<rparr>)"
  by (simp add: chat_inv_def timers_ok_def)

lemma onScriptLoad_inv:
  assumes "timers_ok c"
  shows "chat_inv (onScriptLoad r c)"
proof (cases r)
  case RunOk
  then show ?thesis
    using assms by (auto simp: onScriptLoad_def timers_ok_def chat_inv_def less_Suc_eq)
next
  case NoSdk
  then show ?thesis
    using assms by (simp add: onScriptLoad_def) (rule tearDown_ok, simp add: timers_ok_def chat_inv_def)
next
  case RunThrows
  then show ?thesis
    using assms by (simp add: onScriptLoad_def) (rule tearDown_ok, simp add: timers_ok_def chat_inv_def)
qed

lemma onWatchdog_inv:
  assumes "chat_inv c"
  shows "chat_inv (onWatchdog (c\<lparr>ctimers := filter P (ctimers c)\<rparr>))"
proof (cases "widget c")
  case True
  then show ?thesis
    using assms by (auto simp: onWatchdog_def getWidgetReadySnapshot_def chat_inv_def distinct_map_filter)
next
  case False
  have "timers_ok (c\<lparr>ctimers := filter P (ctimers c), bootstrapTimer := None\<rparr>)"
    using assms by (auto simp: timers_ok_def chat_inv_def distinct_map_filter)
  then show ?thesis
    using False tearDown_ok by (simp add: onWatchdog_def getWidgetReadySnapshot_def)
qed

lemma cstep_inv:
  assumes "cstep c c'" "chat_inv c"
  shows "chat_inv c'"
  using assms
proof (induction rule: cstep.induct)
  case (pass c now)
  then show ?case
    by (auto simp: chat_inv_def)
next
  case (inject c)
  then show ?case
    by (auto simp: chat_inv_def injectChatwootScript_def Let_def getWidgetReadySnapshot_def
        detachReadyListener_def)
next
  case (loaded c r)
  then show ?case
    by (simp add: onScriptLoad_inv chat_inv_ok)
next
  case (errored c)
  then show ?case
    by (simp add: onScriptError_def tearDown_ok chat_inv_ok)
next
  case (ready c)
  then have "chat_inv (c\<lparr>sdkRuns := sdkRuns c - 1, widget := True, sdkNodes := True\<rparr>)"
    by (simp add: chat_inv_def)
  then show ?case
    using onReady_inv by (simp add: Let_def)
next
  case (watchdog i due c)
  then show ?case
    by (simp add: onWatchdog_inv)
next
  case (logout c)
  then show ?case
    by (simp add: tearDown_inv)
qed (simp add: chat_inv_def)

lemma creach_inv: "creach c \<Longrightarrow> chat_inv c"
proof (induction rule: creach.induct)
  case (step c c')
  then show ?case
    by (simp add: cstep_inv)
qed (simp add: chat_inv_def initial_chat_def)

section \<open>Properties\<close>

text \<open>
  The support widget never spins forever: in every reachable state with an attempt under way the script is
  still loading or a watchdog is pending that is due within fifteen seconds; when a watchdog fires,
  the widget is ready or the attempt is marked failed and can be retried; and there is at most one
  script element.
\<close>

theorem chatwoot_attempt_is_watched:
  assumes "creach c"
  shows "scriptsInDom c \<le> 1 \<and>
    (scriptInjected c \<and> \<not> getWidgetReadySnapshot c \<longrightarrow>
       0 < loadsPending c \<or> (\<exists>t\<in>set (ctimers c). snd t \<le> cclock c + BOOTSTRAP_TIMEOUT_MS)) \<and>
    (getWidgetReadySnapshot (onWatchdog c) \<or> bootstrapFailed (onWatchdog c) \<and> \<not> scriptInjected (onWatchdog c))"
proof -
  have inv: "chat_inv c"
    by (rule creach_inv [OF assms])
  have "getWidgetReadySnapshot (onWatchdog c) \<or> bootstrapFailed (onWatchdog c) \<and> \<not> scriptInjected (onWatchdog c)"
    by (simp add: onWatchdog_def getWidgetReadySnapshot_def tearDownChatwoot_def Let_def)
  moreover have "\<exists>t\<in>set (ctimers c). snd t \<le> cclock c + BOOTSTRAP_TIMEOUT_MS" if "ctimers c \<noteq> []"
    using inv hd_in_set [OF that] unfolding chat_inv_def by blast
  ultimately show ?thesis
    using inv unfolding chat_inv_def getWidgetReadySnapshot_def by blast
qed

definition loading_chat :: chat where
  "loading_chat = injectChatwootScript (initial_chat 0)"

lemma loading_reach: "creach loading_chat"
  unfolding loading_chat_def by (rule creach.step [OF creach.initial cstep.inject])

lemma loading_eval:
  "loading_chat = (initial_chat 0)\<lparr>scriptInjected := True, settingsGlobal := True, readyListener := True,
     scriptsInDom := 1, loadsPending := 1\<rparr>"
  by (simp add: loading_chat_def injectChatwootScript_def initial_chat_def getWidgetReadySnapshot_def
      detachReadyListener_def)

theorem chatwoot_attempt_is_watched_witness:
  "scriptsInDom loading_chat \<le> 1 \<and> scriptInjected loading_chat \<and> bootstrapFailed (onWatchdog loading_chat)"
  using chatwoot_attempt_is_watched [OF loading_reach]
  by (simp add: loading_eval initial_chat_def onWatchdog_def getWidgetReadySnapshot_def tearDownChatwoot_def)

text \<open>
  Logging out while the script is loading removes its element but not its load handler: when
  the load event comes after the logout, the SDK runs and its widget appears on the page.
\<close>

theorem widget_appears_after_logout:
  "\<exists>c c'. creach c \<and> scriptInjected c \<and> cstep\<^sup>*\<^sup>* (tearDownChatwoot ByLogout c) c' \<and>
     widget c' \<and> sdkNodes c' \<and> \<not> scriptInjected c'"
proof -
  define c1 where "c1 = tearDownChatwoot ByLogout loading_chat"
  define c2 where "c2 = onScriptLoad RunOk (c1\<lparr>loadsPending := loadsPending c1 - 1\<rparr>)"
  define c3 where "c3 = c2\<lparr>sdkRuns := sdkRuns c2 - 1, widget := True, sdkNodes := True\<rparr>"
  have c1: "c1 = (initial_chat 0)\<lparr>loadsPending := 1\<rparr>"
    by (simp add: c1_def loading_eval tearDownChatwoot_def clearWatchdog_def detachReadyListener_def
        initial_chat_def)
  have "cstep c1 c2"
    unfolding c2_def by (rule cstep.loaded) (simp add: c1)
  moreover have "sdkRuns c2 = 1" "\<not> readyListener c2" "\<not> scriptInjected c2"
    by (simp_all add: c2_def onScriptLoad_def c1 initial_chat_def)
  then have "cstep c2 c3"
    using cstep.ready [of c2] by (simp add: c3_def)
  ultimately have "cstep\<^sup>*\<^sup>* c1 c3"
    by auto
  moreover have "scriptInjected loading_chat"
    by (simp add: loading_eval)
  moreover have "widget c3" "sdkNodes c3" "\<not> scriptInjected c3"
    using \<open>\<not> scriptInjected c2\<close> by (simp_all add: c3_def)
  ultimately show ?thesis
    using loading_reach unfolding c1_def by blast
qed

end
