(* ===== verification/Auth.thy ===== *)
theory Auth
  imports VaultSession Terminal Connectivity Chatwoot
begin

text \<open>
  Signing in and out: the session store (\<open>stores/authStore.ts\<close>), what it persists, and the fetch
  interceptors (\<open>api/fetchInterceptors.ts\<close>) that attach the token and end the session. The state
  joins the stores the sign-out reaches: the vault, the terminals, the support widget, the cache of queries
  and the scope of the local recordings. The server is a parameter: \<open>answer\<close> gives the response to a
  request with or without a token, \<open>None\<close> for a network failure. The generated client
  runs the request interceptor, the transport, the response interceptor and, unless the status is
  a success, the error interceptor before it throws.
\<close>

section \<open>State\<close>

record auth_state =
  a_token :: "jsstring option"
  a_user :: "jsstring option"
  a_userId :: "jsstring option"
  a_email :: "jsstring option"
  a_username :: "jsstring option"
  a_origin :: "jsstring option"
  a_recoveryEmail :: "jsstring option"
  a_tenant :: "jsstring option"
  a_role :: "jsstring option"
  a_isAdmin :: bool
  a_name :: "jsstring option"
  a_loading :: bool
  a_error :: "jsstring option"
  a_mfaEnabled :: bool
  a_mfaToken :: "jsstring option"
  a_mfaRecoveryExpiry :: "int option"

definition initialState :: auth_state where
  "initialState = \<lparr>a_token = None, a_user = None, a_userId = None, a_email = None, a_username = None,
     a_origin = None, a_recoveryEmail = None, a_tenant = None, a_role = None, a_isAdmin = False,
     a_name = None, a_loading = False, a_error = None, a_mfaEnabled = False, a_mfaToken = None,
     a_mfaRecoveryExpiry = None\<rparr>"

text \<open>What is written to the browser's storage under \<open>shellhub-session\<close>.\<close>

record persisted_session =
  p_token :: "jsstring option"
  p_user :: "jsstring option"
  p_userId :: "jsstring option"
  p_email :: "jsstring option"
  p_origin :: "jsstring option"
  p_tenant :: "jsstring option"
  p_role :: "jsstring option"
  p_isAdmin :: bool
  p_name :: "jsstring option"
  p_mfaEnabled :: bool

definition partialize :: "auth_state \<Rightarrow> persisted_session" where
  "partialize s = \<lparr>p_token = a_token s, p_user = a_user s, p_userId = a_userId s, p_email = a_email s,
     p_origin = a_origin s, p_tenant = a_tenant s, p_role = a_role s, p_isAdmin = a_isAdmin s,
     p_name = a_name s, p_mfaEnabled = a_mfaEnabled s\<rparr>"

record ('s, 'k) app =
  auth :: auth_state
  stored_session :: "persisted_session option"
  recordings_scope :: "jsstring option"
  vault_store :: "('s, 'k) vault"
  terminals :: terminal_state
  chatwoot :: chat
  query_cache :: "jsstring list"
  net_state :: net
  location :: "jsstring option"

text \<open>
  \<open>set\<close> of the store: the state changes, the subscriber moves the recordings scope when the user
  id changed, and the persist middleware writes the session. The vault and the terminal store
  read user and tenant from here.
\<close>

definition set_auth :: "(auth_state \<Rightarrow> auth_state) \<Rightarrow> ('s, 'k) app \<Rightarrow> ('s, 'k) app" where
  "set_auth f w =
     (let old = auth w; new = f old in
      w\<lparr>auth := new,
        recordings_scope := (if a_userId new \<noteq> a_userId old then a_userId new else recordings_scope w),
        vault_store := (vault_store w)\<lparr>user := a_user new, tenant := a_tenant new\<rparr>,
        terminals := (terminals w)\<lparr>active_tenant := a_tenant new\<rparr>,
        stored_session := Some (partialize new)\<rparr>)"

text \<open>The start of the page: the persisted session comes back, everything else is initial.\<close>

definition rehydrate :: "persisted_session option \<Rightarrow> auth_state" where
  "rehydrate p = (case p of
      None \<Rightarrow> initialState
    | Some s \<Rightarrow> initialState\<lparr>a_token := p_token s, a_user := p_user s, a_userId := p_userId s,
        a_email := p_email s, a_origin := p_origin s, a_tenant := p_tenant s, a_role := p_role s,
        a_isAdmin := p_isAdmin s, a_name := p_name s, a_mfaEnabled := p_mfaEnabled s\<rparr>)"

section \<open>Signing out\<close>

definition close_all :: "terminal_state \<Rightarrow> terminal_state" where
  "close_all t = fold (\<lambda>s. close (session_id s)) (sessions t) t"

definition logout :: "('s, 'k) app \<Rightarrow> ('s, 'k) app" where
  "logout w0 =
     (let w1 = w0\<lparr>chatwoot := tearDownChatwoot ByLogout (chatwoot w0)\<rparr>;
          w2 = w1\<lparr>vault_store := lock (vault_store w1)\<rparr>;
          w3 = w2\<lparr>terminals := close_all (terminals w2)\<rparr>;
          w4 = set_auth (\<lambda>_. initialState) w3;
          w5 = w4\<lparr>stored_session := None\<rparr>
      in w5\<lparr>query_cache := []\<rparr>)"

section \<open>The interceptors\<close>

text \<open>
  \<open>isTokenExpired\<close>: the second part of the token is decoded with \<open>atob\<close> and parsed; a failure
  of either counts as expired. A token without a dot has no second part, which \<open>atob\<close> reads as
  the text \<open>undefined\<close>.
\<close>

definition isTokenExpired :: "rat \<Rightarrow> jsstring \<Rightarrow> bool" where
  "isTokenExpired now_ms token =
     (let part = (case split_on 46 token of _ # p # _ \<Rightarrow> p | _ \<Rightarrow> js ''undefined'') in
      case Option.bind (atob part) JSON_parse of
        None \<Rightarrow> True
      | Some payload \<Rightarrow>
          (case getp payload (js ''exp'') of
             None \<Rightarrow> False
           | Some e \<Rightarrow> (case as_number (Some e) of None \<Rightarrow> False | Some x \<Rightarrow> x * 1000 < now_ms)))"

record user_data =
  d_token :: jsstring
  d_user :: jsstring
  d_id :: jsstring
  d_email :: jsstring
  d_tenant :: jsstring
  d_name :: jsstring
  d_admin :: "bool option"
  d_mfa :: "bool option"
  d_origin :: "jsstring option"
  d_recovery_email :: "jsstring option"

datatype api_request =
    LoginReq jsstring jsstring
  | UserInfoReq
  | UpdateProfileReq "jsstring option" "jsstring option" "jsstring option" "jsstring option"
  | UpdatePasswordReq jsstring jsstring
  | DeleteUserReq
  | MfaReq jsstring jsstring
  | RecoverReq jsstring jsstring
  | RequestResetMfaReq jsstring
  | ResetMfaReq jsstring jsstring jsstring

record api_response =
  r_status :: nat
  r_mfa_token :: "jsstring option"
  r_expires_at :: "jsstring option"
  r_url :: jsstring
  r_data :: user_data

text \<open>
  The environment of a call: the server's answers, the time, and whether the page's address has a
  \<open>token\<close> parameter.
\<close>

record auth_env =
  answer :: "api_request \<Rightarrow> jsstring option \<Rightarrow> api_response option"
  now_of :: rat
  isTokenLogin :: bool

definition request_interceptor :: "auth_env \<Rightarrow> (('s, 'k) app, jsstring option) io" where
  "request_interceptor env = bind (gets (\<lambda>w. a_token (auth w))) (\<lambda>token.
     case token of
       None \<Rightarrow> ret None
     | Some t \<Rightarrow>
         if t = [] then ret None
         else if isTokenExpired (now_of env) t then
           seq (if \<not> isTokenLogin env
                then modify (\<lambda>w. (logout w)\<lparr>location := Some (js ''/login'')\<rparr>) else ret ())
             (throw (JsError (js ''Token expired'')))
         else ret (Some t))"

definition setMfaToken :: "jsstring \<Rightarrow> ('s, 'k) app \<Rightarrow> ('s, 'k) app" where
  "setMfaToken token = set_auth (\<lambda>s. s\<lparr>a_mfaToken := Some token\<rparr>)"

definition truthy_text :: "jsstring option \<Rightarrow> bool" where
  "truthy_text t \<longleftrightarrow> t \<noteq> None \<and> t \<noteq> Some []"

definition response_interceptor :: "auth_env \<Rightarrow> api_response \<Rightarrow> ('s, 'k) app \<Rightarrow> ('s, 'k) app" where
  "response_interceptor env r w0 =
     (let w = w0\<lparr>net_state := settle (Answer (r_status r)) (net_state w0)\<rparr> in
      if r_status r = 401 then
        (case r_mfa_token r of
           Some t \<Rightarrow>
             if t \<noteq> [] then setMfaToken t w
             else if \<not> contains (r_url r) (js ''/api/login'') \<and> \<not> isTokenLogin env
               then (logout w)\<lparr>location := Some (js ''/login'')\<rparr> else w
         | None \<Rightarrow>
             if \<not> contains (r_url r) (js ''/api/login'') \<and> \<not> isTokenLogin env
             then (logout w)\<lparr>location := Some (js ''/login'')\<rparr> else w)
      else w)"

text \<open>A call of the client with \<open>throwOnError\<close>: the thrown error body is not an \<open>Error\<close>.\<close>

definition sdk :: "auth_env \<Rightarrow> api_request \<Rightarrow> (('s, 'k) app, api_response) io" where
  "sdk env req = bind (request_interceptor env) (\<lambda>token.
     case answer env req token of
       None \<Rightarrow> seq (modify (\<lambda>w. w\<lparr>net_state := settle NetworkError (net_state w)\<rparr>))
                 (throw (JsError (js ''Failed to fetch'')))
     | Some r \<Rightarrow> seq (modify (response_interceptor env r))
                 (if http_ok (r_status r) then ret r else throw (OtherThrow (js ''[object Object]''))))"

section \<open>Actions\<close>

definition set_io :: "(auth_state \<Rightarrow> auth_state) \<Rightarrow> (('s, 'k) app, unit) io" where
  "set_io f = modify (set_auth f)"

definition login :: "auth_env \<Rightarrow> jsstring \<Rightarrow> jsstring \<Rightarrow> (('s, 'k) app, unit) io" where
  "login env uname pw =
     seq (set_io (\<lambda>s. s\<lparr>a_loading := True, a_mfaToken := None\<rparr>))
     (catch
       (bind (sdk env (LoginReq uname pw)) (\<lambda>r.
          if truthy_text (r_mfa_token r)
          then set_io (\<lambda>s. s\<lparr>a_mfaToken := r_mfa_token r, a_mfaEnabled := True, a_user := Some uname,
                 a_loading := False\<rparr>)
          else set_io (\<lambda>s. s\<lparr>a_token := Some (d_token (r_data r)), a_user := Some (d_user (r_data r)),
                 a_userId := Some (d_id (r_data r)), a_email := Some (d_email (r_data r)),
                 a_tenant := Some (d_tenant (r_data r)), a_name := Some (d_name (r_data r)),
                 a_isAdmin := (d_admin (r_data r) = Some True), a_mfaEnabled := (d_mfa (r_data r) = Some True),
                 a_loading := False\<rparr>)))
       (\<lambda>err. bind (gets (\<lambda>w. a_mfaToken (auth w))) (\<lambda>mfaToken.
          if truthy_text mfaToken
          then set_io (\<lambda>s. s\<lparr>a_loading := False, a_user := Some uname, a_mfaEnabled := True\<rparr>)
          else seq (set_io (\<lambda>s. s\<lparr>a_loading := False\<rparr>)) (throw err))))"

definition loginWithToken :: "auth_env \<Rightarrow> jsstring \<Rightarrow> (('s, 'k) app, unit) io" where
  "loginWithToken env token =
     seq (set_io (\<lambda>s. s\<lparr>a_loading := True, a_token := Some token\<rparr>))
     (catch
       (bind (sdk env UserInfoReq) (\<lambda>r.
          set_io (\<lambda>s. s\<lparr>a_user := Some (d_user (r_data r)), a_userId := Some (d_id (r_data r)),
             a_email := Some (d_email (r_data r)), a_origin := d_origin (r_data r),
             a_tenant := Some (d_tenant (r_data r)), a_name := Some (d_name (r_data r)),
             a_isAdmin := (d_admin (r_data r) = Some True), a_mfaEnabled := (d_mfa (r_data r) = Some True),
             a_loading := False\<rparr>)))
       (\<lambda>_. seq (modify (\<lambda>w. w\<lparr>chatwoot := tearDownChatwoot ByLogout (chatwoot w)\<rparr>))
            (seq (set_io (\<lambda>_. initialState))
              (throw (JsError (js ''Token login failed''))))))"

definition fetchUser :: "auth_env \<Rightarrow> (('s, 'k) app, unit) io" where
  "fetchUser env =
     catch
       (bind (sdk env UserInfoReq) (\<lambda>r.
          set_io (\<lambda>s. s\<lparr>a_user := Some (d_user (r_data r)), a_username := Some (d_user (r_data r)),
             a_userId := Some (d_id (r_data r)), a_email := Some (d_email (r_data r)),
             a_origin := d_origin (r_data r), a_recoveryEmail := d_recovery_email (r_data r),
             a_name := Some (d_name (r_data r)), a_tenant := Some (d_tenant (r_data r)),
             a_isAdmin := (d_admin (r_data r) = Some True), a_mfaEnabled := (d_mfa (r_data r) = Some True)\<rparr>)))
       (\<lambda>_. set_io (\<lambda>s. s\<lparr>a_isAdmin := False\<rparr>))"

definition setSession :: "jsstring \<Rightarrow> jsstring \<Rightarrow> jsstring option \<Rightarrow> (('s, 'k) app, unit) io" where
  "setSession token tid role =
     set_io (\<lambda>s. s\<lparr>a_token := Some token, a_tenant := Some tid,
        a_role := (case role of Some r \<Rightarrow> Some r | None \<Rightarrow> a_role s)\<rparr>)"

definition updateProfile ::
  "auth_env \<Rightarrow> jsstring option \<Rightarrow> jsstring option \<Rightarrow> jsstring option \<Rightarrow> jsstring option \<Rightarrow> (('s, 'k) app, unit) io" where
  "updateProfile env name uname email recovery =
     bind (sdk env (UpdateProfileReq name uname email recovery)) (\<lambda>_. fetchUser env)"

definition updatePassword :: "auth_env \<Rightarrow> jsstring \<Rightarrow> jsstring \<Rightarrow> (('s, 'k) app, unit) io" where
  "updatePassword env currentPassword newPassword =
     bind (sdk env (UpdatePasswordReq currentPassword newPassword)) (\<lambda>_. ret ())"

definition deleteUser :: "auth_env \<Rightarrow> (('s, 'k) app, unit) io" where
  "deleteUser env =
     bind (sdk env DeleteUserReq) (\<lambda>_.
       modify (\<lambda>w. (logout w)\<lparr>location := Some (js ''/login'')\<rparr>))"

definition loginWithMfa :: "auth_env \<Rightarrow> jsstring \<Rightarrow> (('s, 'k) app, unit) io" where
  "loginWithMfa env code = bind (gets (\<lambda>w. a_mfaToken (auth w))) (\<lambda>mfaToken.
     if \<not> truthy_text mfaToken then throw (JsError (js ''No MFA token available''))
     else seq (set_io (\<lambda>s. s\<lparr>a_loading := True, a_error := None\<rparr>))
       (catch
         (bind (sdk env (MfaReq (the mfaToken) code)) (\<lambda>r.
            set_io (\<lambda>s. s\<lparr>a_token := Some (d_token (r_data r)), a_user := Some (d_user (r_data r)),
               a_userId := Some (d_id (r_data r)), a_email := Some (d_email (r_data r)),
               a_tenant := Some (d_tenant (r_data r)), a_name := Some (d_name (r_data r)),
               a_isAdmin := (d_admin (r_data r) = Some True), a_mfaToken := None, a_mfaEnabled := True,
               a_loading := False\<rparr>)))
         (\<lambda>_. seq (set_io (\<lambda>s. s\<lparr>a_loading := False, a_error := Some (js ''Invalid verification code'')\<rparr>))
              (throw (JsError (js ''Invalid verification code''))))))"

definition first_truthy :: "jsstring option list \<Rightarrow> jsstring option" where
  "first_truthy ts = (case filter truthy_text ts of [] \<Rightarrow> None | t # _ \<Rightarrow> t)"

definition recoverWithCode :: "auth_env \<Rightarrow> jsstring \<Rightarrow> jsstring option \<Rightarrow> (('s, 'k) app, unit) io" where
  "recoverWithCode env code identifier =
     bind (gets (\<lambda>w. first_truthy [identifier, a_user (auth w), a_username (auth w)])) (\<lambda>uname.
     case uname of
       None \<Rightarrow> seq (set_io (\<lambda>s. s\<lparr>a_error := Some (js ''Username or email is required'')\<rparr>))
                 (throw (JsError (js ''Username or email is required'')))
     | Some u \<Rightarrow>
         seq (set_io (\<lambda>s. s\<lparr>a_loading := True, a_error := None\<rparr>))
         (catch
           (bind (sdk env (RecoverReq u code)) (\<lambda>r.
              set_io (\<lambda>s. s\<lparr>a_token := Some (d_token (r_data r)), a_user := Some (d_user (r_data r)),
                 a_userId := Some (d_id (r_data r)), a_email := Some (d_email (r_data r)),
                 a_tenant := Some (d_tenant (r_data r)), a_name := Some (d_name (r_data r)),
                 a_isAdmin := (d_admin (r_data r) = Some True), a_mfaEnabled := True, a_mfaToken := None,
                 a_mfaRecoveryExpiry := (if truthy_text (r_expires_at r) then parseInt (the (r_expires_at r)) else None),
                 a_loading := False\<rparr>)))
           (\<lambda>_. seq (set_io (\<lambda>s. s\<lparr>a_loading := False, a_error := Some (js ''Invalid recovery code or username'')\<rparr>))
                (throw (JsError (js ''Invalid recovery code or username''))))))"

definition updateMfaStatus :: "bool \<Rightarrow> (('s, 'k) app, unit) io" where
  "updateMfaStatus enabled = set_io (\<lambda>s. s\<lparr>a_mfaEnabled := enabled\<rparr>)"

section \<open>What every action keeps\<close>

text \<open>\<open>safe P m\<close>: the computation keeps the predicate \<open>P\<close>, whether it throws or not.\<close>

definition safe :: "('w \<Rightarrow> bool) \<Rightarrow> ('w, 'a) io \<Rightarrow> bool" where
  "safe P m \<longleftrightarrow> (\<forall>w. P w \<longrightarrow> P (snd (m w)))"

lemma safe_basic [simp]: "safe P (ret x)" "safe P (throw e)" "safe P (gets g)"
  by (simp_all add: safe_def io_simps)

lemma safe_modify: "(\<And>w. P w \<Longrightarrow> P (f w)) \<Longrightarrow> safe P (modify f)"
  by (simp add: safe_def modify_def)

lemma safe_bind: "safe P m \<Longrightarrow> (\<And>x. safe P (k x)) \<Longrightarrow> safe P (bind m k)"
  by (auto simp: safe_def bind_def split: prod.splits sum.splits)

lemma safe_seq: "safe P m \<Longrightarrow> safe P k \<Longrightarrow> safe P (seq m k)"
  unfolding seq_def by (rule safe_bind)

lemma safe_catch: "safe P m \<Longrightarrow> (\<And>e. safe P (h e)) \<Longrightarrow> safe P (catch m h)"
  by (auto simp: safe_def catch_def split: prod.splits sum.splits)

lemma safe_if: "safe P m \<Longrightarrow> safe P k \<Longrightarrow> safe P (if b then m else k)"
  by simp

lemma safe_option: "safe P m \<Longrightarrow> (\<And>x. safe P (k x)) \<Longrightarrow> safe P (case y of None \<Rightarrow> m | Some x \<Rightarrow> k x)"
  by (cases y) simp_all

lemmas safe_rules = safe_bind safe_seq safe_catch safe_if safe_option safe_modify safe_basic

text \<open>
  The stores that follow the session agree with it, and the persisted session is the one in memory,
  or there is none and the state is the initial one.
\<close>

definition mirrors :: "('s, 'k) app \<Rightarrow> bool" where
  "mirrors w \<longleftrightarrow>
     recordings_scope w = a_userId (auth w) \<and>
     user (vault_store w) = a_user (auth w) \<and> tenant (vault_store w) = a_tenant (auth w) \<and>
     active_tenant (terminals w) = a_tenant (auth w)"

definition session_inv :: "('s, 'k) app \<Rightarrow> bool" where
  "session_inv w \<longleftrightarrow> mirrors w \<and>
     (stored_session w = Some (partialize (auth w)) \<or> stored_session w = None \<and> auth w = initialState)"

lemma set_auth_inv: "session_inv w \<Longrightarrow> session_inv (set_auth f w)"
  by (simp add: session_inv_def mirrors_def set_auth_def Let_def)

lemma active_tenant_close: "active_tenant (close i t) = active_tenant t"
  by (simp add: close_def)

lemma active_tenant_fold: "active_tenant (fold (\<lambda>s. close (session_id s)) ss t) = active_tenant t"
  by (induction ss arbitrary: t) (simp_all add: active_tenant_close)

lemma close_all_empty: "sessions (close_all t) = []"
proof -
  have "sessions (fold (\<lambda>s. close (session_id s)) ss t) =
      filter (\<lambda>s. session_id s \<notin> session_id ` set ss) (sessions t)" for ss :: "terminal_session list"
    by (induction ss arbitrary: t) (auto simp: close_sessions intro!: filter_cong)
  from this [of "sessions t"] show ?thesis
    unfolding close_all_def by (simp add: filter_empty_conv)
qed

lemma logout_auth [simp]:
  "auth (logout w) = initialState" "stored_session (logout w) = None" "query_cache (logout w) = []"
  "net_state (logout w) = net_state w"
  by (simp_all add: logout_def set_auth_def Let_def)

lemma lock_fields [simp]: "user (lock v) = user v" "tenant (lock v) = tenant v"
  by (simp_all add: lock_def)

lemma logout_mirrors: "mirrors w \<Longrightarrow> mirrors (logout w)"
  by (simp add: mirrors_def logout_def set_auth_def Let_def initialState_def)

lemma logout_inv: "session_inv w \<Longrightarrow> session_inv (logout w)"
  by (simp add: session_inv_def logout_mirrors)

lemma session_inv_other [simp]:
  "session_inv (w\<lparr>location := l\<rparr>) = session_inv w" "session_inv (w\<lparr>net_state := n\<rparr>) = session_inv w"
  "session_inv (w\<lparr>chatwoot := c\<rparr>) = session_inv w"
  by (simp_all add: session_inv_def mirrors_def)

lemma set_io_safe [simp]: "safe session_inv (set_io f)"
  unfolding set_io_def by (rule safe_modify) (rule set_auth_inv)

lemma response_interceptor_inv: "session_inv w \<Longrightarrow> session_inv (response_interceptor env r w)"
  by (auto simp: response_interceptor_def Let_def setMfaToken_def set_auth_inv logout_inv
      simp del: settle.simps split: option.splits)

lemma request_interceptor_safe: "safe session_inv (request_interceptor env)"
  unfolding request_interceptor_def
  by (intro safe_rules) (simp add: logout_inv)

lemma sdk_safe: "safe session_inv (sdk env req)"
  unfolding sdk_def
  by (intro safe_rules request_interceptor_safe) (simp_all add: response_interceptor_inv del: settle.simps)

datatype auth_action =
    Login jsstring jsstring
  | LoginWithToken jsstring
  | Logout
  | FetchUser
  | SetSession jsstring jsstring "jsstring option"
  | UpdateProfile "jsstring option" "jsstring option" "jsstring option" "jsstring option"
  | UpdatePassword jsstring jsstring
  | DeleteUser
  | LoginWithMfa jsstring
  | RecoverWithCode jsstring "jsstring option"
  | UpdateMfaStatus bool

fun auth_step :: "auth_env \<Rightarrow> auth_action \<Rightarrow> (('s, 'k) app, unit) io" where
  "auth_step env (Login u p) = login env u p"
| "auth_step env (LoginWithToken t) = loginWithToken env t"
| "auth_step env Logout = modify logout"
| "auth_step env FetchUser = fetchUser env"
| "auth_step env (SetSession t n r) = setSession t n r"
| "auth_step env (UpdateProfile a b c d) = updateProfile env a b c d"
| "auth_step env (UpdatePassword a b) = updatePassword env a b"
| "auth_step env DeleteUser = deleteUser env"
| "auth_step env (LoginWithMfa c) = loginWithMfa env c"
| "auth_step env (RecoverWithCode c i) = recoverWithCode env c i"
| "auth_step env (UpdateMfaStatus b) = updateMfaStatus b"

lemma fetchUser_safe: "safe session_inv (fetchUser env)"
  unfolding fetchUser_def by (intro safe_catch safe_bind sdk_safe set_io_safe)

lemma auth_step_safe: "safe session_inv (auth_step env a)"
  by (cases a) (simp_all add: login_def loginWithToken_def setSession_def updateProfile_def
      updatePassword_def deleteUser_def loginWithMfa_def recoverWithCode_def updateMfaStatus_def logout_inv
      safe_rules sdk_safe fetchUser_safe)

section \<open>Tokens\<close>

text \<open>The token is the one before, or there is none.\<close>

definition tok :: "jsstring option \<Rightarrow> ('s, 'k) app \<Rightarrow> bool" where
  "tok T w \<longleftrightarrow> a_token (auth w) = T \<or> a_token (auth w) = None"

lemma tok_set: "(\<And>s. a_token (f s) = a_token s) \<Longrightarrow> tok T w \<Longrightarrow> tok T (set_auth f w)"
  by (simp add: tok_def set_auth_def Let_def)

lemma tok_logout [simp]: "tok T (logout w)"
  by (simp add: tok_def initialState_def)

lemma tok_other [simp]:
  "tok T (w\<lparr>location := l\<rparr>) = tok T w" "tok T (w\<lparr>net_state := n\<rparr>) = tok T w"
  "tok T (w\<lparr>chatwoot := c\<rparr>) = tok T w"
  by (simp_all add: tok_def)

lemma tok_set_io: "(\<And>s. a_token (f s) = a_token s) \<Longrightarrow> safe (tok T) (set_io f)"
  unfolding set_io_def by (intro safe_modify tok_set)

lemma tok_sdk: "safe (tok T) (sdk env req)"
proof -
  have "tok T (response_interceptor env r w)" if "tok T w" for r w
    using that by (auto simp: response_interceptor_def Let_def setMfaToken_def tok_set
        simp del: settle.simps split: option.splits)
  moreover have "safe (tok T) (request_interceptor env)"
    unfolding request_interceptor_def by (intro safe_rules) simp
  ultimately show ?thesis
    unfolding sdk_def by (intro safe_rules) (simp_all del: settle.simps)
qed

lemma tok_fetchUser: "safe (tok T) (fetchUser env)"
  unfolding fetchUser_def by (intro safe_rules tok_sdk tok_set_io) simp_all

text \<open>A computation that keeps \<open>P\<close> at least when it throws.\<close>

definition safe_throw :: "('w \<Rightarrow> bool) \<Rightarrow> ('w, 'a) io \<Rightarrow> bool" where
  "safe_throw P m \<longleftrightarrow> (\<forall>w e w'. P w \<longrightarrow> m w = (Inl e, w') \<longrightarrow> P w')"

lemma safe_throw_safe: "safe P m \<Longrightarrow> safe_throw P m"
  by (auto simp: safe_def safe_throw_def)

lemma safe_throwD: "safe_throw P m \<Longrightarrow> P w \<Longrightarrow> m w = (Inl e, w') \<Longrightarrow> P w'"
  by (simp add: safe_throw_def)

lemma safe_throw_set_io: "safe_throw P (set_io f)"
  by (simp add: safe_throw_def set_io_def modify_def)

lemma safe_throw_bind: "safe P m \<Longrightarrow> (\<And>x. safe_throw P (k x)) \<Longrightarrow> safe_throw P (bind m k)"
  unfolding safe_def safe_throw_def bind_def
  by (auto split: prod.splits sum.splits)

lemma safe_throw_seq: "safe P m \<Longrightarrow> safe_throw P k \<Longrightarrow> safe_throw P (seq m k)"
  unfolding seq_def by (rule safe_throw_bind)

lemma catch_Inl:
  "catch m h w = (Inl e, w') \<longleftrightarrow> (\<exists>d v. m w = (Inl d, v) \<and> h d v = (Inl e, w'))"
  by (simp add: catch_def split: prod.splits sum.splits)

lemma safe_throw_catch:
  "safe_throw P m \<Longrightarrow> (\<And>e. safe_throw P (h e)) \<Longrightarrow> safe_throw P (catch m h)"
  unfolding safe_throw_def catch_Inl by blast

lemma safe_throw_if: "safe_throw P m \<Longrightarrow> safe_throw P k \<Longrightarrow> safe_throw P (if b then m else k)"
  by simp

lemma safe_throw_option:
  "safe_throw P m \<Longrightarrow> (\<And>x. safe_throw P (k x)) \<Longrightarrow> safe_throw P (case y of None \<Rightarrow> m | Some x \<Rightarrow> k x)"
  by (cases y) simp_all

lemma safe_throw_throw: "safe_throw P (throw e)"
  by (rule safe_throw_safe) simp

lemmas safe_throw_rules = safe_throw_bind safe_throw_seq safe_throw_catch safe_throw_if
  safe_throw_option safe_throw_set_io safe_throw_throw

lemma login_tok: "safe_throw (tok T) (login env u p)"
  unfolding login_def by (intro safe_throw_rules tok_sdk tok_set_io safe_basic) simp_all

lemma loginWithMfa_tok: "safe_throw (tok T) (loginWithMfa env c)"
  unfolding loginWithMfa_def by (intro safe_throw_rules tok_sdk tok_set_io safe_basic) simp_all

lemma recoverWithCode_tok: "safe_throw (tok T) (recoverWithCode env c i)"
  unfolding recoverWithCode_def by (intro safe_throw_rules tok_sdk tok_set_io safe_basic) simp_all

lemma updateProfile_tok: "safe_throw (tok T) (updateProfile env a b c d)"
  unfolding updateProfile_def by (intro safe_throw_bind tok_sdk safe_throw_safe tok_fetchUser)

lemma updatePassword_tok: "safe_throw (tok T) (updatePassword env a b)"
  unfolding updatePassword_def by (intro safe_throw_bind tok_sdk safe_throw_safe safe_basic)

lemma deleteUser_tok: "safe_throw (tok T) (deleteUser env)"
  unfolding deleteUser_def
  by (intro safe_throw_bind tok_sdk safe_throw_safe safe_modify) simp

lemma seq_set_io: "seq (set_io f) m w = m (set_auth f w)"
  by (simp add: io_simps set_io_def)

lemma seq_modify: "seq (modify f) m w = m (f w)"
  by (simp add: io_simps)

lemma auth_set_auth [simp]: "auth (set_auth f w) = f (auth w)"
  by (simp add: set_auth_def Let_def)

lemma loginWithToken_failed: "loginWithToken env t w = (Inl e, w') \<Longrightarrow> auth w' = initialState"
  by (auto simp: loginWithToken_def seq_set_io seq_modify catch_Inl throw_def)

section \<open>The session store as a store\<close>

interpretation session_store: store "\<lambda>(env, a) w. snd (auth_step env a w)" "\<lambda>_ _. True" session_inv
  using auth_step_safe by unfold_locales (auto simp: safe_def)

text \<open>A page that has just loaded: the session comes from the storage.\<close>

definition loaded_page :: "('s, 'k) vault \<Rightarrow> persisted_session option \<Rightarrow> ('s, 'k) app" where
  "loaded_page v p = (let s = rehydrate p in
     \<lparr>auth = s, stored_session = p, recordings_scope = a_userId s,
      vault_store = v\<lparr>user := a_user s, tenant := a_tenant s\<rparr>,
      terminals = initial_terminal (a_tenant s) Map.empty, chatwoot = initial_chat 0, query_cache = [],
      net_state = initial_net 0, location = None\<rparr>)"

lemma loaded_inv: "session_inv (loaded_page v p)"
  by (cases p) (simp_all add: session_inv_def mirrors_def loaded_page_def Let_def rehydrate_def
      partialize_def initialState_def initial_terminal_def)

lemma reload_session:
  assumes "session_inv w"
  shows "partialize (rehydrate (stored_session w)) = partialize (auth w)"
    "a_mfaToken (rehydrate (stored_session w)) = None"
    "a_mfaRecoveryExpiry (rehydrate (stored_session w)) = None"
  using assms by (auto simp: session_inv_def rehydrate_def partialize_def initialState_def)




text \<open>
  C26: An action of the session store that fails never signs anybody in: after a throw the token is the one
  from before, or there is none.
\<close>

theorem failed_action_grants_no_token:
  assumes "auth_step env a w = (Inl e, w')"
  shows "a_token (auth w') = a_token (auth w) \<or> a_token (auth w') = None"
proof -
  have t: "tok (a_token (auth w)) w"
    by (simp add: tok_def)
  have use: ?thesis if "safe_throw (tok (a_token (auth w))) m" "m w = (Inl e, w')" for m
    using safe_throwD [OF that(1) t that(2)] by (simp add: tok_def)
  show ?thesis
  proof (cases a)
    case (LoginWithToken x)
    then show ?thesis
      using loginWithToken_failed [of env x w e w'] assms by (simp add: initialState_def)
  next
    case FetchUser
    then show ?thesis
      using assms use [OF safe_throw_safe [OF tok_fetchUser]] by simp
  qed (use assms use [OF login_tok] use [OF updateProfile_tok] use [OF updatePassword_tok]
      use [OF deleteUser_tok] use [OF loginWithMfa_tok] use [OF recoverWithCode_tok] in
      \<open>simp_all add: setSession_def updateMfaStatus_def set_io_def modify_def\<close>)
qed

definition refusing_env :: auth_env where
  "refusing_env = \<lparr>answer = (\<lambda>_ _. None), now_of = 0, isTokenLogin = False\<rparr>"

lemma refused_login:
  "login refusing_env [1] [2] (loaded_page toy_vault None) =
     (Inl (JsError (js ''Failed to fetch'')),
      snd (login refusing_env [1] [2] (loaded_page toy_vault None)))"
  by (simp add: login_def refusing_env_def sdk_def request_interceptor_def io_simps set_io_def
      set_auth_def loaded_page_def rehydrate_def initialState_def truthy_text_def Let_def del: settle.simps)

theorem failed_action_grants_no_token_witness:
  "a_token (auth (snd (login refusing_env [1] [2] (loaded_page toy_vault None)))) = None"
proof -
  have "auth_step refusing_env (Login [1] [2]) (loaded_page toy_vault None) =
     (Inl (JsError (js ''Failed to fetch'')),
      snd (login refusing_env [1] [2] (loaded_page toy_vault None)))"
    unfolding auth_step.simps by (rule refused_login)
  from failed_action_grants_no_token [OF this] show ?thesis
    by (simp add: loaded_page_def rehydrate_def initialState_def)
qed


text \<open>A token without a dot does not decode.\<close>

definition dotless_page :: "(vault_response option, byte list) app" where
  "dotless_page = set_auth (\<lambda>s. s\<lparr>a_token := Some (js ''x'')\<rparr>) (loaded_page toy_vault None)"

lemma dotless_expired: "isTokenExpired 0 (js ''x'')"
  by (simp add: isTokenExpired_def js_def atob_def ascii_space_def)


text \<open>
  Tokens are written in the URL-safe alphabet of base64, but \<open>atob\<close> reads the plain one: a token whose
  claims need one of the two characters that differ is taken for expired at any time, whatever
  its claims say. The claims of the example have no expiry at all.
\<close>

lemma collect_None: "None \<in> set xs \<Longrightarrow> collect xs = None"
  by (induction xs) (auto split: option.splits)

lemma strip_padding_keeps: "c \<in> set t \<Longrightarrow> c \<noteq> 61 \<Longrightarrow> c \<in> set (strip_padding t)"
proof -
  assume c: "c \<in> set t" "c \<noteq> 61"
  have "set t = set (take n t) \<union> set (drop n t)" for n
    by (metis append_take_drop_id set_append)
  then have cut: "c \<in> set (take n t)" if "set (drop n t) \<subseteq> {61}" for n
    using c that by blast
  show ?thesis
    using c(1) cut [of "length t - 2"] cut [of "length t - 1"]
    by (simp add: strip_padding_def endsWith_def numeral_2_eq_2)
qed

lemma atob_url_safe:
  assumes "c \<in> {45, 95}" "c \<in> set s"
  shows "atob s = None"
proof -
  define t where "t = filter (\<lambda>c. \<not> ascii_space c) s"
  define u where "u = (if length t mod 4 = 0 then strip_padding t else t)"
  have "c \<in> set t"
    using assms by (auto simp: t_def ascii_space_def)
  then have "c \<in> set (strip_padding t)"
    using assms(1) by (intro strip_padding_keeps) auto
  with \<open>c \<in> set t\<close> have "c \<in> set u"
    by (simp add: u_def)
  moreover have "b64_val c = None"
    using assms(1) by (auto simp: b64_val_def char_class_defs)
  ultimately have "None \<in> set (map b64_val u)"
    by (metis image_eqI list.set_map)
  then show ?thesis
    by (simp add: atob_def t_def [symmetric] u_def [symmetric] Let_def collect_None)
qed

theorem base64url_token_taken_for_expired:
  "(c \<in> {45, 95} \<longrightarrow> c \<in> set part \<longrightarrow> 46 \<notin> set part \<longrightarrow> 46 \<notin> set hdr \<longrightarrow>
      isTokenExpired tm (hdr @ [46] @ part @ [46] @ sig)) \<and>
   45 \<in> set (url_safe (b64_unpadded (js ''{\"nnn\":\"~\"}'')))"
proof (intro conjI impI)
  assume c: "c \<in> {45, 95}" "c \<in> set part" and dots: "46 \<notin> set part" "46 \<notin> set hdr"
  have "split_on 46 (hdr @ 46 # part @ 46 # sig) = hdr # part # split_on 46 sig"
    using dots by (simp add: split_on_append)
  then show "isTokenExpired tm (hdr @ [46] @ part @ [46] @ sig)"
    using atob_url_safe [OF c] by (simp add: isTokenExpired_def)
next
  show "45 \<in> set (url_safe (b64_unpadded (js ''{\"nnn\":\"~\"}'')))"
    by (simp add: js_def b64_unpadded_def b64_char_def url_safe_def)
qed

end
