(* ===== verification/Recordings.thy ===== *)
theory Recordings
  imports Codec Stores
begin

text \<open>
  Local session recordings: \<open>utils/recordings.ts\<close> and \<open>stores/recordingsStore.ts\<close>. The origin private file
  system is a directory per user id, a list of named files in the order the iterator returns them; a file
  is its text, its size the length of the UTF-8 bytes. What a stream writes becomes the
  file when it is closed. The disk is a parameter: \<open>disk\<close> says whether a stream can grow to a text.
  The formatted date in a file name is an argument.
\<close>

section \<open>Files\<close>

type_synonym dir = "(jsstring \<times> jsstring) list"

definition dir_get :: "dir \<Rightarrow> jsstring \<Rightarrow> jsstring option" where
  "dir_get d n = map_of d n"

fun dir_put :: "jsstring \<Rightarrow> jsstring \<Rightarrow> dir \<Rightarrow> dir" where
  "dir_put n t [] = [(n, t)]"
| "dir_put n t ((m, u) # d) = (if m = n then (n, t) # d else (m, u) # dir_put n t d)"

definition dir_remove :: "jsstring \<Rightarrow> dir \<Rightarrow> dir" where
  "dir_remove n d = filter (\<lambda>f. fst f \<noteq> n) d"

text \<open>\<open>getFileHandle(n, {create: true})\<close> creates an empty file when there is none.\<close>

definition dir_create :: "jsstring \<Rightarrow> dir \<Rightarrow> dir" where
  "dir_create n d = (if dir_get d n = None then dir_put n [] d else d)"

record opfs =
  dirs :: "jsstring \<Rightarrow> dir"
  userScope :: "jsstring option"
  supported :: bool
  now_date :: rat

definition setRecordingsScope :: "jsstring option \<Rightarrow> opfs \<Rightarrow> opfs" where
  "setRecordingsScope userId w = w\<lparr>userScope := userId\<rparr>"

definition isRecordingSupported :: "opfs \<Rightarrow> bool" where
  "isRecordingSupported w = supported w"

text \<open>The directory of the signed-in user, by the user id.\<close>

definition recordingsDir :: "opfs \<Rightarrow> exn + jsstring" where
  "recordingsDir w = (case userScope w of
      Some u \<Rightarrow> if u = [] then Inl (JsError (js ''session recording: no user scope set'')) else Inr u
    | None \<Rightarrow> Inl (JsError (js ''session recording: no user scope set'')))"

definition change_dir :: "jsstring \<Rightarrow> (dir \<Rightarrow> dir) \<Rightarrow> opfs \<Rightarrow> opfs" where
  "change_dir u f w = w\<lparr>dirs := (dirs w)(u := f (dirs w u))\<rparr>"

definition cast_name :: "jsstring \<Rightarrow> jsstring" where
  "cast_name i = i @ js ''.cast''"

definition json_name :: "jsstring \<Rightarrow> jsstring" where
  "json_name i = i @ js ''.json''"

section \<open>The recording format\<close>

record recording_meta =
  rm_id :: jsstring
  rm_filename :: jsstring
  rm_deviceName :: jsstring
  rm_deviceUid :: jsstring
  rm_username :: jsstring
  rm_sessionUid :: "jsstring option"
  rm_width :: int
  rm_height :: int
  rm_durationSec :: rat
  rm_createdAt :: rat
  rm_size :: nat

definition headerLine :: "rat \<Rightarrow> int \<Rightarrow> int \<Rightarrow> jsstring" where
  "headerLine now cols rows = stringify (JObj
     [(js ''version'', JNum 2), (js ''width'', JNum (of_int cols)), (js ''height'', JNum (of_int rows)),
      (js ''timestamp'', JNum (of_int \<lfloor>now / 1000\<rfloor>))]) @ [10]"

definition outputLine :: "rat \<Rightarrow> jsstring \<Rightarrow> jsstring" where
  "outputLine elapsed text = stringify (JArr [JNum elapsed, JStr (js ''o''), JStr text]) @ [10]"

definition resizeLine :: "rat \<Rightarrow> int \<Rightarrow> int \<Rightarrow> jsstring" where
  "resizeLine elapsed cols rows =
     stringify (JArr [JNum elapsed, JStr (js ''r''), JStr (int_text cols @ js ''x'' @ int_text rows)]) @ [10]"

definition strip_ends :: "nat \<Rightarrow> jsstring \<Rightarrow> jsstring" where
  "strip_ends c s = rev (dropWhile (\<lambda>x. x = c) (rev (dropWhile (\<lambda>x. x = c) s)))"

definition castFilename :: "jsstring \<Rightarrow> jsstring \<Rightarrow> jsstring" where
  "castFilename stamp deviceName =
     (let slug = strip_ends 45 (replace_runs (\<lambda>c. \<not> (is_lower c \<or> is_digit c)) [45] False
                   (toLower (if deviceName = [] then js ''session'' else deviceName)))
      in js ''shellhub-'' @ (if slug = [] then js ''session'' else slug) @ js ''-'' @ stamp @ js ''.cast'')"

section \<open>The recorder\<close>

text \<open>
  \<open>queue\<close> holds the lines of the promise chain that are not yet written; \<open>buffer\<close> is what the open
  stream has taken, \<open>None\<close> once a write failed.
\<close>

record recorder =
  rc_id :: jsstring
  rc_dir :: jsstring
  rc_deviceName :: jsstring
  rc_deviceUid :: jsstring
  rc_username :: jsstring
  rc_sessionUid :: "jsstring option"
  startMs :: rat
  started :: bool
  event_count :: nat
  failed :: bool
  rc_cols :: int
  rc_rows :: int
  lastElapsed :: rat
  queue :: "jsstring list"
  buffer :: "jsstring option"

definition create_recorder ::
  "jsstring \<Rightarrow> jsstring \<Rightarrow> jsstring \<Rightarrow> jsstring \<Rightarrow> jsstring option \<Rightarrow> (opfs, recorder) io" where
  "create_recorder rid deviceName deviceUid username sessionUid = (\<lambda>w.
     case recordingsDir w of
       Inl e \<Rightarrow> (Inl e, w)
     | Inr u \<Rightarrow> (Inr \<lparr>rc_id = rid, rc_dir = u, rc_deviceName = deviceName, rc_deviceUid = deviceUid,
          rc_username = username, rc_sessionUid = sessionUid, startMs = 0, started = False, event_count = 0,
          failed = False, rc_cols = 80, rc_rows = 24, lastElapsed = 0, queue = [], buffer = Some []\<rparr>,
          change_dir u (dir_create (cast_name rid)) w))"

definition setSessionUid :: "jsstring \<Rightarrow> recorder \<Rightarrow> recorder" where
  "setSessionUid uid r = r\<lparr>rc_sessionUid := Some uid\<rparr>"

definition write_line :: "jsstring \<Rightarrow> recorder \<Rightarrow> recorder" where
  "write_line line r = r\<lparr>queue := queue r @ [line]\<rparr>"

text \<open>One link of the chain: the write succeeds, or it fails and so do all later ones.\<close>

definition flush_one :: "(jsstring \<Rightarrow> bool) \<Rightarrow> recorder \<Rightarrow> recorder" where
  "flush_one disk r = (case queue r of
      [] \<Rightarrow> r
    | line # rest \<Rightarrow>
        (case buffer r of
           Some b \<Rightarrow> if disk (b @ line) then r\<lparr>queue := rest, buffer := Some (b @ line)\<rparr>
                     else r\<lparr>queue := rest, buffer := None, failed := True\<rparr>
         | None \<Rightarrow> r\<lparr>queue := rest, failed := True\<rparr>))"

fun flush_all :: "(jsstring \<Rightarrow> bool) \<Rightarrow> nat \<Rightarrow> recorder \<Rightarrow> recorder" where
  "flush_all disk 0 r = r"
| "flush_all disk (Suc n) r = flush_all disk n (flush_one disk r)"

definition start_recorder :: "rat \<Rightarrow> int \<Rightarrow> int \<Rightarrow> recorder \<Rightarrow> recorder" where
  "start_recorder now cols rows r =
     (if started r then r
      else write_line (headerLine now cols rows)
             (r\<lparr>started := True, startMs := now, rc_cols := cols, rc_rows := rows\<rparr>))"

definition elapsed :: "rat \<Rightarrow> recorder \<Rightarrow> rat" where
  "elapsed now r = (now - startMs r) / 1000"

definition recordOutput :: "rat \<Rightarrow> jsstring \<Rightarrow> recorder \<Rightarrow> recorder" where
  "recordOutput now text r =
     (if \<not> started r \<or> failed r then r
      else let r1 = r\<lparr>event_count := event_count r + 1, lastElapsed := elapsed now r\<rparr>
           in write_line (outputLine (lastElapsed r1) text) r1)"

definition recordResize :: "rat \<Rightarrow> int \<Rightarrow> int \<Rightarrow> recorder \<Rightarrow> recorder" where
  "recordResize now cols rows r =
     (if \<not> started r \<or> failed r then r
      else let r1 = r\<lparr>event_count := event_count r + 1, lastElapsed := elapsed now r\<rparr>
           in write_line (resizeLine (lastElapsed r1) cols rows) r1)"

definition removeFiles :: "recorder \<Rightarrow> opfs \<Rightarrow> opfs" where
  "removeFiles r = change_dir (rc_dir r) (\<lambda>d. dir_remove (json_name (rc_id r)) (dir_remove (cast_name (rc_id r)) d))"

definition meta_of :: "jsstring \<Rightarrow> recorder \<Rightarrow> recording_meta" where
  "meta_of stamp r = \<lparr>rm_id = rc_id r, rm_filename = castFilename stamp (rc_deviceName r),
     rm_deviceName = rc_deviceName r, rm_deviceUid = rc_deviceUid r, rm_username = rc_username r,
     rm_sessionUid = rc_sessionUid r, rm_width = rc_cols r, rm_height = rc_rows r,
     rm_durationSec = lastElapsed r, rm_createdAt = startMs r, rm_size = 0\<rparr>"

definition recording_json :: "recording_meta \<Rightarrow> json" where
  "recording_json m = JObj
     ([(js ''id'', JStr (rm_id m)), (js ''filename'', JStr (rm_filename m)),
       (js ''deviceName'', JStr (rm_deviceName m)), (js ''deviceUid'', JStr (rm_deviceUid m)),
       (js ''username'', JStr (rm_username m))] @
      (case rm_sessionUid m of None \<Rightarrow> [] | Some s \<Rightarrow> [(js ''sessionUid'', JStr s)]) @
      [(js ''width'', JNum (of_int (rm_width m))), (js ''height'', JNum (of_int (rm_height m))),
       (js ''durationSec'', JNum (rm_durationSec m)), (js ''createdAt'', JNum (rm_createdAt m)),
       (js ''size'', JNum (of_nat (rm_size m)))])"

text \<open>
  \<open>finish\<close>: the chain runs to its end, the stream is closed, and the sidecar is written, which is
  allowed to fail (\<open>side_ok\<close>).
\<close>

definition finish ::
  "(jsstring \<Rightarrow> bool) \<Rightarrow> bool \<Rightarrow> jsstring \<Rightarrow> recorder \<Rightarrow> opfs \<Rightarrow> recording_meta option \<times> opfs" where
  "finish disk side_ok stamp r0 w0 =
     (let r = flush_all disk (length (queue r0)) r0 in
      case buffer r of
        None \<Rightarrow> (None, w0)
      | Some text \<Rightarrow>
          let w = change_dir (rc_dir r) (dir_put (cast_name (rc_id r)) text) w0 in
          if event_count r = 0 then (None, removeFiles r w)
          else
            let m = meta_of stamp r in
            (Some m,
             if side_ok
             then change_dir (rc_dir r) (dir_put (json_name (rc_id r)) (stringify (recording_json m))) w
             else w))"

text \<open>The stream is aborted: what was written is lost.\<close>

definition discard :: "recorder \<Rightarrow> opfs \<Rightarrow> recorder \<times> opfs" where
  "discard r w = (r\<lparr>failed := True, buffer := None\<rparr>, removeFiles r w)"

section \<open>The stored recordings\<close>

text \<open>
  Reading a sidecar. Only \<open>finish\<close> writes them; a text that does not parse, or without the
  members, is an entry the list skips.
\<close>

definition int_of_num :: "rat option \<Rightarrow> int option" where
  "int_of_num q = map_option floor q"

definition meta_of_json :: "json \<Rightarrow> recording_meta option" where
  "meta_of_json v =
     (case (as_string (getp v (js ''id'')), as_string (getp v (js ''filename'')),
            as_string (getp v (js ''deviceName'')), as_string (getp v (js ''deviceUid'')),
            as_string (getp v (js ''username'')), int_of_num (as_number (getp v (js ''width''))),
            int_of_num (as_number (getp v (js ''height''))), as_number (getp v (js ''durationSec'')),
            as_number (getp v (js ''createdAt''))) of
        (Some i, Some f, Some n, Some u, Some un, Some wd, Some ht, Some du, Some cr) \<Rightarrow>
          Some \<lparr>rm_id = i, rm_filename = f, rm_deviceName = n, rm_deviceUid = u, rm_username = un,
                rm_sessionUid = as_string (getp v (js ''sessionUid'')), rm_width = wd, rm_height = ht,
                rm_durationSec = du, rm_createdAt = cr, rm_size = 0\<rparr>
      | _ \<Rightarrow> None)"

definition byte_size :: "jsstring \<Rightarrow> nat" where
  "byte_size t = length (utf8_encode t)"

definition entry_meta :: "dir \<Rightarrow> jsstring \<times> jsstring \<Rightarrow> recording_meta list" where
  "entry_meta d f =
     (if \<not> endsWith (fst f) (js ''.json'') then []
      else case Option.bind (JSON_parse (snd f)) meta_of_json of
        None \<Rightarrow> []
      | Some m \<Rightarrow> (case dir_get d (cast_name (rm_id m)) of
          None \<Rightarrow> []
        | Some text \<Rightarrow> [m\<lparr>rm_size := byte_size text\<rparr>]))"

definition list_dir :: "dir \<Rightarrow> recording_meta list" where
  "list_dir d = sort_key (\<lambda>m. - rm_createdAt m) (concat (map (entry_meta d) d))"

definition has_scope :: "opfs \<Rightarrow> bool" where
  "has_scope w \<longleftrightarrow> userScope w \<noteq> None \<and> userScope w \<noteq> Some []"

definition listRecordings :: "opfs \<Rightarrow> recording_meta list" where
  "listRecordings w =
     (if \<not> isRecordingSupported w \<or> \<not> has_scope w then []
      else list_dir (dirs w (the (userScope w))))"

definition readRecording :: "recording_meta \<Rightarrow> (opfs, jsstring) io" where
  "readRecording m = (\<lambda>w. case recordingsDir w of
      Inl e \<Rightarrow> (Inl e, w)
    | Inr u \<Rightarrow> (case dir_get (dirs w u) (cast_name (rm_id m)) of
        Some t \<Rightarrow> (Inr t, w)
      | None \<Rightarrow> (Inl (OtherThrow (js ''NotFoundError'')), w)))"

text \<open>The blob and the file name of the browser's download.\<close>

definition downloadRecording :: "recording_meta \<Rightarrow> (opfs, jsstring \<times> jsstring) io" where
  "downloadRecording m = bind (readRecording m) (\<lambda>t. ret (t, rm_filename m))"

definition deleteRecording :: "jsstring \<Rightarrow> (opfs, unit) io" where
  "deleteRecording rid = (\<lambda>w. case recordingsDir w of
      Inl e \<Rightarrow> (Inl e, w)
    | Inr u \<Rightarrow> (Inr (), change_dir u (\<lambda>d. dir_remove (json_name rid) (dir_remove (cast_name rid) d)) w))"

definition clearRecordings :: "opfs \<Rightarrow> opfs" where
  "clearRecordings w =
     (if \<not> isRecordingSupported w \<or> \<not> has_scope w then w
      else change_dir (the (userScope w)) (\<lambda>d. fold dir_remove (map fst d) d) w)"

definition pruneRecordings :: "rat \<Rightarrow> opfs \<Rightarrow> opfs" where
  "pruneRecordings maxAgeDays w =
     (if \<not> isRecordingSupported w \<or> \<not> has_scope w \<or> maxAgeDays \<le> 0 then w
      else
        let cutoff = now_date w - maxAgeDays * 86400000;
            metas = listRecordings w
        in fold (\<lambda>m w. snd (deleteRecording (rm_id m) w)) (filter (\<lambda>m. rm_createdAt m < cutoff) metas) w)"

section \<open>The store\<close>

record recordings_state =
  rs_recordings :: "recording_meta list"
  rs_loading :: bool
  rs_retentionDays :: "rat option"
  rs_notice :: "recording_meta option"
  rs_retentionItem :: "jsstring option"
  rs_fs :: opfs

text \<open>A retention that is not a positive finite number means none.\<close>

definition loadRetention :: "jsstring option \<Rightarrow> rat option" where
  "loadRetention raw = (case raw of
      None \<Rightarrow> None
    | Some t \<Rightarrow> if t = [] then None
                else case toNumber t of Fin q \<Rightarrow> if q > 0 then Some q else None | _ \<Rightarrow> None)"

definition refresh :: "recordings_state \<Rightarrow> recordings_state" where
  "refresh s0 =
     (let s = s0\<lparr>rs_loading := True\<rparr>;
          fs = (case rs_retentionDays s of
                  Some d \<Rightarrow> if d \<noteq> 0 then pruneRecordings d (rs_fs s) else rs_fs s
                | None \<Rightarrow> rs_fs s)
      in s\<lparr>rs_fs := fs, rs_recordings := listRecordings fs, rs_loading := False\<rparr>)"

definition remove_recording :: "jsstring \<Rightarrow> (recordings_state, unit) io" where
  "remove_recording rid = (\<lambda>s. case deleteRecording rid (rs_fs s) of
      (Inl e, w) \<Rightarrow> (Inl e, s\<lparr>rs_fs := w\<rparr>)
    | (Inr _, w) \<Rightarrow> (Inr (), s\<lparr>rs_fs := w,
                       rs_recordings := filter (\<lambda>m. rm_id m \<noteq> rid) (rs_recordings s)\<rparr>))"

definition clearAll :: "recordings_state \<Rightarrow> recordings_state" where
  "clearAll s = s\<lparr>rs_fs := clearRecordings (rs_fs s), rs_recordings := []\<rparr>"

definition setRetentionDays :: "rat option \<Rightarrow> recordings_state \<Rightarrow> recordings_state" where
  "setRetentionDays days s =
     (let kept = (case days of Some d \<Rightarrow> if d > 0 then Some d else None | None \<Rightarrow> None)
      in refresh (s\<lparr>rs_retentionItem := map_option num_text kept, rs_retentionDays := kept\<rparr>))"

definition notify :: "recording_meta \<Rightarrow> recordings_state \<Rightarrow> recordings_state" where
  "notify m s = refresh (s\<lparr>rs_notice := Some m\<rparr>)"

definition clearNotice :: "recordings_state \<Rightarrow> recordings_state" where
  "clearNotice s = s\<lparr>rs_notice := None\<rparr>"

section \<open>One JSON value per line\<close>

lemma unicode_escape_no_newline: "10 \<notin> set (unicode_escape c)"
  by (auto simp: unicode_escape_def hex_char_def)

lemma quote_char_no_newline: "10 \<notin> set (quote_char c)"
  using unicode_escape_no_newline by (auto simp: quote_char_def)

lemma quote_no_newline: "10 \<notin> set (quote s)"
proof -
  have "10 \<notin> set (quote_chars s)"
    using quote_char_no_newline
    by (induction s rule: quote_chars.induct) (auto simp: high_surrogate_def low_surrogate_def)
  then show ?thesis
    by (simp add: quote_def)
qed

lemma nat_text_no_newline: "10 \<notin> set (nat_text n)"
  using nat_text_digit [of 10 n] by (auto simp: is_digit_def)

lemma num_text_no_newline: "10 \<notin> set (num_text q)"
  by (simp add: num_text_def Let_def int_text_def nat_text_no_newline pad_zeros_def)

lemma stringify_no_newline:
  "10 \<notin> set (stringify v)" "10 \<notin> set (stringify_list vs)" "10 \<notin> set (stringify_members ms)"
  by (induction v and vs and ms rule: stringify_stringify_list_stringify_members.induct)
    (simp_all add: js_def num_text_no_newline quote_no_newline)

definition json_lines :: "json list \<Rightarrow> jsstring" where
  "json_lines vs = concat (map (\<lambda>v. stringify v @ [10]) vs)"

lemma json_lines_simps [simp]:
  "json_lines [] = []" "json_lines (v # vs) = stringify v @ 10 # json_lines vs"
  "json_lines (us @ vs) = json_lines us @ json_lines vs"
  by (simp_all add: json_lines_def)

lemma split_json_lines: "split_on 10 (json_lines vs) = map stringify vs @ [[]]"
  by (induction vs) (simp_all add: split_on_append stringify_no_newline)

section \<open>A run of the recorder\<close>

datatype rec_event = EStart int int int | EOutput int jsstring | EResize int int int | EFlush

fun rec_step :: "(jsstring \<Rightarrow> bool) \<Rightarrow> rec_event \<Rightarrow> recorder \<Rightarrow> recorder" where
  "rec_step disk (EStart now cols rows) = start_recorder (of_int now) cols rows"
| "rec_step disk (EOutput now text) = recordOutput (of_int now) text"
| "rec_step disk (EResize now cols rows) = recordResize (of_int now) cols rows"
| "rec_step disk EFlush = flush_one disk"

text \<open>
  What a recording should contain: the header of the first start, and after it the output and resize
  events with their time since the start.
\<close>

fun cast_lines :: "rat option \<Rightarrow> rec_event list \<Rightarrow> json list" where
  "cast_lines t0 [] = []"
| "cast_lines None (EStart now cols rows # es) =
     JObj [(js ''version'', JNum 2), (js ''width'', JNum (of_int cols)), (js ''height'', JNum (of_int rows)),
           (js ''timestamp'', JNum (of_int \<lfloor>of_int now / 1000 :: rat\<rfloor>))] # cast_lines (Some (of_int now)) es"
| "cast_lines None (_ # es) = cast_lines None es"
| "cast_lines (Some t) (EOutput now text # es) =
     JArr [JNum ((of_int now - t) / 1000), JStr (js ''o''), JStr text] # cast_lines (Some t) es"
| "cast_lines (Some t) (EResize now cols rows # es) =
     JArr [JNum ((of_int now - t) / 1000), JStr (js ''r''), JStr (int_text cols @ js ''x'' @ int_text rows)]
       # cast_lines (Some t) es"
| "cast_lines (Some t) (_ # es) = cast_lines (Some t) es"

text \<open>What the stream has and what is still queued.\<close>

definition pending :: "recorder \<Rightarrow> jsstring option" where
  "pending r = map_option (\<lambda>b. b @ concat (queue r)) (buffer r)"

definition recording :: "recorder \<Rightarrow> bool" where
  "recording r \<longleftrightarrow> \<not> failed r \<and> buffer r \<noteq> None"

abbreviation roomy :: "jsstring \<Rightarrow> bool" where
  "roomy \<equiv> \<lambda>_. True"

lemma flush_pending:
  assumes "recording r"
  shows "recording (flush_one roomy r)" "pending (flush_one roomy r) = pending r"
    "started (flush_one roomy r) = started r" "startMs (flush_one roomy r) = startMs r"
    "event_count (flush_one roomy r) = event_count r" "length (queue (flush_one roomy r)) = length (queue r) - 1"
    "lastElapsed (flush_one roomy r) = lastElapsed r"
  using assms by (auto simp: flush_one_def recording_def pending_def split: list.splits)

lemma run_pending:
  assumes "recording r" "pending r = Some t"
  shows "recording (fold (rec_step roomy) es r) \<and>
    pending (fold (rec_step roomy) es r) =
      Some (t @ json_lines (cast_lines (if started r then Some (startMs r) else None) es))"
  using assms
proof (induction es arbitrary: r t)
  case (Cons e es)
  show ?case
  proof (cases e)
    case (EStart now cols rows)
    show ?thesis
    proof (cases "started r")
      case True
      then show ?thesis
        using Cons by (simp add: EStart start_recorder_def)
    next
      case False
      have "recording (start_recorder (of_int now) cols rows r)"
        "pending (start_recorder (of_int now) cols rows r) = Some (t @ headerLine (of_int now) cols rows)"
        using False Cons.prems by (auto simp: start_recorder_def write_line_def recording_def pending_def)
      from Cons.IH [OF this] show ?thesis
        using False by (simp add: EStart start_recorder_def write_line_def headerLine_def)
    qed
  next
    case (EOutput now txt0)
    show ?thesis
    proof (cases "started r")
      case True
      have "recording (recordOutput (of_int now) txt0 r)"
        "pending (recordOutput (of_int now) txt0 r) = Some (t @ outputLine (elapsed (of_int now) r) txt0)"
        using True Cons.prems by (auto simp: recordOutput_def Let_def write_line_def recording_def pending_def elapsed_def)
      from Cons.IH [OF this] show ?thesis
        using True Cons.prems(1)
        by (simp add: EOutput recordOutput_def Let_def write_line_def outputLine_def elapsed_def recording_def)
    next
      case False
      then show ?thesis
        using Cons by (simp add: EOutput recordOutput_def)
    qed
  next
    case (EResize now cols rows)
    show ?thesis
    proof (cases "started r")
      case True
      have "recording (recordResize (of_int now) cols rows r)"
        "pending (recordResize (of_int now) cols rows r) = Some (t @ resizeLine (elapsed (of_int now) r) cols rows)"
        using True Cons.prems by (auto simp: recordResize_def Let_def write_line_def recording_def pending_def elapsed_def)
      from Cons.IH [OF this] show ?thesis
        using True Cons.prems(1)
        by (simp add: EResize recordResize_def Let_def write_line_def resizeLine_def elapsed_def recording_def)
    next
      case False
      then show ?thesis
        using Cons by (simp add: EResize recordResize_def)
    qed
  next
    case EFlush
    have "recording (flush_one roomy r)" "pending (flush_one roomy r) = Some t"
      using flush_pending [OF Cons.prems(1)] Cons.prems(2) by simp_all
    from Cons.IH [OF this] show ?thesis
      using flush_pending(3,4) [OF Cons.prems(1)] by (cases "started r") (simp_all add: EFlush)
  qed
qed simp

lemma flush_all_pending:
  assumes "recording r" "length (queue r) \<le> n"
  shows "buffer (flush_all roomy n r) = pending r" "rc_id (flush_all roomy n r) = rc_id r"
    "event_count (flush_all roomy n r) = event_count r" "rc_dir (flush_all roomy n r) = rc_dir r"
proof -
  have "buffer (flush_all roomy n r) = pending r"
    using assms
  proof (induction n arbitrary: r)
    case 0
    then show ?case
      by (cases "buffer r") (auto simp: pending_def)
  next
    case (Suc n)
    then show ?case
      using flush_pending [OF Suc.prems(1)] Suc.IH [of "flush_one roomy r"] by simp
  qed
  moreover have "rc_id (flush_one d x) = rc_id x \<and> event_count (flush_one d x) = event_count x \<and>
      rc_dir (flush_one d x) = rc_dir x" for d x
    by (simp add: flush_one_def split: list.splits option.splits)
  then have "rc_id (flush_all d n x) = rc_id x \<and> event_count (flush_all d n x) = event_count x \<and>
      rc_dir (flush_all d n x) = rc_dir x" for d x
    by (induction n arbitrary: x) simp_all
  ultimately show "buffer (flush_all roomy n r) = pending r" "rc_id (flush_all roomy n r) = rc_id r"
    "event_count (flush_all roomy n r) = event_count r" "rc_dir (flush_all roomy n r) = rc_dir r"
    by simp_all
qed

definition clock_ok :: "recorder \<Rightarrow> bool" where
  "clock_ok r \<longleftrightarrow> startMs r \<in> \<int> \<and> decimal (lastElapsed r) \<and> (\<not> started r \<longrightarrow> event_count r = 0)"

lemma decimal_millis: "x \<in> \<int> \<Longrightarrow> decimal (x / 1000)"
proof -
  assume "x \<in> \<int>"
  then obtain n where n: "x = of_int n" by (auto elim: Ints_cases)
  have "x / 1000 * 10 ^ 17 = of_int (n * 10 ^ 14)"
    by (simp add: n)
  then show ?thesis
    unfolding decimal_def by (metis floor_of_int)
qed

text \<open>Facts of a step that leaves the recorder alone up to the clock and the queue.\<close>

lemma recorder_step_keeps:
  "clock_ok r \<Longrightarrow> clock_ok (rec_step disk e r)"
  "rc_id (rec_step disk e r) = rc_id r" "rc_dir (rec_step disk e r) = rc_dir r"
  "rc_deviceName (rec_step disk e r) = rc_deviceName r" "rc_deviceUid (rec_step disk e r) = rc_deviceUid r"
  "rc_username (rec_step disk e r) = rc_username r" "rc_sessionUid (rec_step disk e r) = rc_sessionUid r"
  by (cases e; auto simp: clock_ok_def start_recorder_def recordOutput_def recordResize_def write_line_def
      Let_def elapsed_def flush_one_def decimal_millis split: list.splits option.splits)+

lemma recorder_run_keeps:
  "clock_ok r \<Longrightarrow> clock_ok (fold (rec_step disk) es r)"
  "rc_id (fold (rec_step disk) es r) = rc_id r" "rc_dir (fold (rec_step disk) es r) = rc_dir r"
  "rc_deviceName (fold (rec_step disk) es r) = rc_deviceName r"
  "rc_deviceUid (fold (rec_step disk) es r) = rc_deviceUid r"
  "rc_username (fold (rec_step disk) es r) = rc_username r"
  "rc_sessionUid (fold (rec_step disk) es r) = rc_sessionUid r"
  by (induction es arbitrary: r) (simp_all add: recorder_step_keeps)

lemma run_count:
  assumes "recording r"
  shows "event_count (fold (rec_step roomy) es r) + of_bool (started (fold (rec_step roomy) es r)) =
    event_count r + of_bool (started r) +
      length (cast_lines (if started r then Some (startMs r) else None) es)"
  using assms
proof (induction es arbitrary: r)
  case (Cons e es)
  have "recording (rec_step roomy e r)"
    using Cons.prems flush_pending(1) [OF Cons.prems]
    by (cases e) (auto simp: start_recorder_def recordOutput_def recordResize_def write_line_def Let_def recording_def)
  from Cons.IH [OF this] show ?case
    using Cons.prems flush_pending(3,4,5) [OF Cons.prems]
    by (cases e; cases "started r")
      (simp_all add: start_recorder_def recordOutput_def recordResize_def write_line_def Let_def recording_def)
qed simp

section \<open>What the listing shows of a finished recording\<close>

lemma dir_get_put [simp]: "dir_get (dir_put n t d) m = (if m = n then Some t else dir_get d m)"
  by (induction n t d rule: dir_put.induct) (auto simp: dir_get_def)

lemma dir_put_member: "(n, t) \<in> set (dir_put n t d)"
  by (induction n t d rule: dir_put.induct) auto

lemma names_differ [simp]: "json_name i \<noteq> cast_name j" "cast_name j \<noteq> json_name i"
proof -
  have "last (json_name i) \<noteq> last (cast_name j)"
    by (simp add: json_name_def cast_name_def js_def)
  then show "json_name i \<noteq> cast_name j" "cast_name j \<noteq> json_name i"
    by auto
qed

lemma json_name_ends [simp]: "endsWith (json_name i) (js ''.json'')"
  by (simp add: json_name_def endsWith_def)

lemma code_units_append [simp]: "code_units (s @ t) \<longleftrightarrow> code_units s \<and> code_units t"
  by (simp add: code_units_def)

lemma code_units_subset: "set s \<subseteq> set t \<Longrightarrow> code_units t \<Longrightarrow> code_units s"
  by (auto simp: code_units_def list_all_iff)

lemma castFilename_code_units: "code_units stamp \<Longrightarrow> code_units (castFilename stamp n)"
proof -
  assume stamp: "code_units stamp"
  have r: "code_units (replace_runs (\<lambda>c. \<not> (is_lower c \<or> is_digit c)) [45] b s)" for b s
    by (induction s arbitrary: b) (auto simp: code_units_def is_lower_def is_digit_def)
  have "set (strip_ends c s) \<subseteq> set s" for c s
    unfolding strip_ends_def by (metis set_dropWhileD set_rev subset_iff)
  then have "code_units (strip_ends 45 (replace_runs (\<lambda>c. \<not> (is_lower c \<or> is_digit c)) [45] b s))" for b s
    using code_units_subset r by blast
  then show ?thesis
    using stamp by (simp add: castFilename_def Let_def)
qed

definition meta_wf :: "recording_meta \<Rightarrow> bool" where
  "meta_wf m \<longleftrightarrow> code_units (rm_id m) \<and> code_units (rm_filename m) \<and> code_units (rm_deviceName m) \<and>
     code_units (rm_deviceUid m) \<and> code_units (rm_username m) \<and> pred_option code_units (rm_sessionUid m) \<and>
     decimal (rm_durationSec m) \<and> decimal (rm_createdAt m)"

lemma recording_json_wf: "meta_wf m \<Longrightarrow> wf_json (recording_json m)"
  by (auto simp: meta_wf_def recording_json_def split: option.splits)

lemma meta_of_recording_json:
  "rm_size m = 0 \<Longrightarrow> meta_of_json (recording_json m) = Some m"
  by (cases "rm_sessionUid m")
    (simp_all add: meta_of_json_def recording_json_def js_def int_of_num_def)

lemma sidecar_listed:
  assumes "meta_wf m" "rm_size m = 0" "dir_get d (cast_name (rm_id m)) = Some t"
    "(json_name (rm_id m), stringify (recording_json m)) \<in> set d"
  shows "m\<lparr>rm_size := byte_size t\<rparr> \<in> set (list_dir d)"
proof -
  have "m\<lparr>rm_size := byte_size t\<rparr> \<in> set (entry_meta d (json_name (rm_id m), stringify (recording_json m)))"
    using assms(1-3) by (simp add: entry_meta_def recording_json_wf meta_of_recording_json)
  then show ?thesis
    using assms(4) by (auto simp: list_dir_def)
qed

lemma recordingsDir_scope: "recordingsDir w = Inr u \<Longrightarrow> userScope w = Some u \<and> u \<noteq> []"
  by (auto simp: recordingsDir_def split: option.splits if_splits)

lemma fresh_recorder:
  assumes "create_recorder rid n du un su w = (Inr r, w1)"
  shows "recording r" "pending r = Some []" "clock_ok r" "\<not> started r" "event_count r = 0" "rc_id r = rid"
    "userScope w = Some (rc_dir r)" "rc_dir r \<noteq> []" "rc_deviceName r = n" "rc_deviceUid r = du"
    "rc_username r = un" "rc_sessionUid r = su"
  using assms recordingsDir_scope [of w]
  by (auto simp: create_recorder_def recording_def pending_def clock_ok_def split: sum.splits)

lemma flush_all_keeps:
  "meta_of stamp (flush_all disk n r) = meta_of stamp r"
proof -
  have "meta_of stamp (flush_one disk x) = meta_of stamp x" for x
    by (simp add: meta_of_def flush_one_def split: list.splits option.splits)
  then show ?thesis
    by (induction n arbitrary: r) simp_all
qed

lemma finish_run:
  assumes "create_recorder rid n du un su w = (Inr r0, w1)"
    and r_def: "r = fold (rec_step roomy) es r0" and t_def: "t = json_lines (cast_lines None es)"
  shows "finish roomy True stamp r w2 =
    (let w' = change_dir (rc_dir r0) (dir_put (cast_name rid) t) w2 in
     if length (cast_lines None es) \<le> 1
     then (None, change_dir (rc_dir r0) (\<lambda>d. dir_remove (json_name rid) (dir_remove (cast_name rid) d)) w')
     else (Some (meta_of stamp r),
           change_dir (rc_dir r0) (dir_put (json_name rid) (stringify (recording_json (meta_of stamp r)))) w'))"
proof -
  note fresh = fresh_recorder [OF assms(1)]
  have run: "recording r" "pending r = Some t"
    using run_pending [OF fresh(1,2), of es] fresh(4) by (simp_all add: r_def t_def)
  have "event_count r + of_bool (started r) = length (cast_lines None es)"
    using run_count [OF fresh(1), of es] fresh(4,5) by (simp add: r_def)
  moreover have "\<not> started r \<longrightarrow> event_count r = 0"
    using recorder_run_keeps(1) [OF fresh(3)] by (auto simp: r_def clock_ok_def)
  ultimately have none: "event_count r = 0 \<longleftrightarrow> length (cast_lines None es) \<le> 1"
    by (cases "started r") auto
  have "rc_id r = rid" "rc_dir r = rc_dir r0"
    using recorder_run_keeps(2,3) fresh(6) by (simp_all add: r_def)
  then show ?thesis
    using flush_all_pending [OF run(1) order_refl] run(2) none flush_all_keeps
    by (simp add: finish_def Let_def removeFiles_def)
qed

lemma int_text_code_units [simp]: "code_units (int_text k)"
  using nat_text_digit by (fastforce simp: int_text_def code_units_def list_all_iff is_digit_def)

definition event_ok :: "rec_event \<Rightarrow> bool" where
  "event_ok e = (case e of EOutput _ t \<Rightarrow> code_units t | _ \<Rightarrow> True)"

lemma cast_lines_wf:
  "list_all event_ok es \<Longrightarrow> pred_option (\<lambda>t. t \<in> \<int>) t0 \<Longrightarrow> list_all wf_json (cast_lines t0 es)"
  by (induction t0 es rule: cast_lines.induct) (auto simp: event_ok_def decimal_millis)

section \<open>Removing recordings\<close>

text \<open>The names are distinct and a sidecar is named after the recording it describes.\<close>

definition dir_ok :: "dir \<Rightarrow> bool" where
  "dir_ok d \<longleftrightarrow> distinct (map fst d) \<and>
     list_all (\<lambda>(n, t). endsWith n (js ''.json'') \<longrightarrow>
       (case Option.bind (JSON_parse t) meta_of_json of None \<Rightarrow> True | Some m \<Rightarrow> n = json_name (rm_id m))) d"

definition remove_both :: "jsstring \<Rightarrow> dir \<Rightarrow> dir" where
  "remove_both rid d = dir_remove (json_name rid) (dir_remove (cast_name rid) d)"

lemma cast_name_ends [simp]: "\<not> endsWith (cast_name i) (js ''.json'')"
  by (simp add: cast_name_def endsWith_def js_def)

lemma name_inj [simp]: "json_name i = json_name j \<longleftrightarrow> i = j" "cast_name i = cast_name j \<longleftrightarrow> i = j"
  by (simp_all add: json_name_def cast_name_def)

lemma dir_get_remove [simp]: "dir_get (dir_remove x d) y = (if x = y then None else dir_get d y)"
  by (induction d) (auto simp: dir_remove_def dir_get_def)

lemma dir_ok_remove: "dir_ok d \<Longrightarrow> dir_ok (dir_remove n d)"
  by (auto simp: dir_ok_def dir_remove_def list_all_iff distinct_map_filter)

lemma set_dir_put: "set (dir_put n t d) \<subseteq> insert (n, t) (set d)"
  by (induction n t d rule: dir_put.induct) auto

lemma dir_put_names:
  "set (map fst (dir_put n t d)) = insert n (set (map fst d))"
  "distinct (map fst d) \<Longrightarrow> distinct (map fst (dir_put n t d))"
proof -
  show names: "set (map fst (dir_put n t d)) = insert n (set (map fst d))" for d
    by (induction n t d rule: dir_put.induct) auto
  show "distinct (map fst d) \<Longrightarrow> distinct (map fst (dir_put n t d))"
  proof (induction d)
    case (Cons f d)
    then show ?case
      using names [of d] by (cases f) auto
  qed simp
qed

lemma dir_ok_put_cast: "dir_ok d \<Longrightarrow> dir_ok (dir_put (cast_name i) t d)"
  using set_dir_put [of "cast_name i" t d] dir_put_names(2) [of d "cast_name i" t]
  by (fastforce simp: dir_ok_def list_all_iff)

lemma dir_ok_put_json:
  assumes "dir_ok d" "meta_wf m" "rm_size m = 0"
  shows "dir_ok (dir_put (json_name (rm_id m)) (stringify (recording_json m)) d)"
  using assms set_dir_put [of "json_name (rm_id m)" "stringify (recording_json m)" d]
    dir_put_names(2) [of d "json_name (rm_id m)"]
  by (fastforce simp: dir_ok_def list_all_iff recording_json_wf meta_of_recording_json)

lemma entry_meta_name:
  "dir_ok d \<Longrightarrow> f \<in> set d \<Longrightarrow> m \<in> set (entry_meta d' f) \<Longrightarrow> fst f = json_name (rm_id m)"
  by (cases f) (auto simp: dir_ok_def list_all_iff entry_meta_def split: if_splits option.splits)

lemma entry_meta_single: "m \<in> set (entry_meta d f) \<Longrightarrow> entry_meta d f = [m]"
  by (auto simp: entry_meta_def split: if_splits option.splits dest: sym)

lemma entry_meta_remove:
  assumes "dir_ok d" "f \<in> set d"
  shows "(if fst f = cast_name i \<or> fst f = json_name i then [] else entry_meta (remove_both i d) f) =
    filter (\<lambda>m. rm_id m \<noteq> i) (entry_meta d f)"
proof (cases "Option.bind (JSON_parse (snd f)) meta_of_json")
  case None
  then show ?thesis
    by (simp add: entry_meta_def)
next
  case (Some m)
  have "endsWith (fst f) (js ''.json'') \<Longrightarrow> fst f = json_name (rm_id m)"
    using assms Some by (cases f) (auto simp: dir_ok_def list_all_iff)
  then show ?thesis
    using Some by (auto simp: entry_meta_def remove_both_def split: option.splits)
qed

lemma list_dir_remove:
  assumes "dir_ok d"
  shows "list_dir (remove_both i d) = filter (\<lambda>m. rm_id m \<noteq> i) (list_dir d)"
proof -
  have "concat (map (entry_meta (remove_both i d)) (remove_both i e)) =
      filter (\<lambda>m. rm_id m \<noteq> i) (concat (map (entry_meta d) e))" if "set e \<subseteq> set d" for e
    using that
  proof (induction e)
    case (Cons f e)
    then show ?case
      using entry_meta_remove [OF assms, of f i] by (auto simp: remove_both_def dir_remove_def split: if_splits)
  qed (simp add: remove_both_def dir_remove_def)
  then show ?thesis
    by (simp add: list_dir_def filter_sort)
qed

lemma dir_ok_remove_both: "dir_ok d \<Longrightarrow> dir_ok (remove_both i d)"
  by (simp add: remove_both_def dir_ok_remove)

lemma list_dir_remove_all:
  assumes "dir_ok d"
  shows "list_dir (fold remove_both is d) = filter (\<lambda>m. rm_id m \<notin> set is) (list_dir d)"
  using assms
proof (induction "is" arbitrary: d)
  case (Cons i js)
  then show ?case
    by (simp add: dir_ok_remove_both list_dir_remove)
qed simp

lemma list_dir_unique:
  assumes "dir_ok d" "m \<in> set (list_dir d)" "k \<in> set (list_dir d)" "rm_id m = rm_id k"
  shows "m = k"
proof -
  obtain f g where f: "f \<in> set d" "m \<in> set (entry_meta d f)" and g: "g \<in> set d" "k \<in> set (entry_meta d g)"
    using assms(2,3) by (auto simp: list_dir_def)
  have "fst f = fst g"
    using entry_meta_name [OF assms(1)] f g assms(4) by metis
  then have "f = g"
    using f(1) g(1) assms(1) by (auto simp: dir_ok_def distinct_map dest: inj_onD)
  then show ?thesis
    using entry_meta_single f(2) g(2) by fastforce
qed

lemma delete_all:
  assumes "userScope w = Some u" "u \<noteq> []"
  shows "fold (\<lambda>m w. snd (deleteRecording (rm_id m) w)) ms w = change_dir u (fold remove_both (map rm_id ms)) w"
  using assms
proof (induction ms arbitrary: w)
  case Nil
  then show ?case
    by (simp add: change_dir_def)
next
  case (Cons m ms)
  have "snd (deleteRecording (rm_id m) w) = change_dir u (remove_both (rm_id m)) w"
    using Cons.prems by (simp add: deleteRecording_def recordingsDir_def remove_both_def [abs_def])
  then show ?case
    using Cons.IH [of "change_dir u (remove_both (rm_id m)) w"] Cons.prems by (simp add: change_dir_def)
qed

text \<open>A retention of whole days survives a reload of the page.\<close>

lemma retention_reloaded:
  "loadRetention (rs_retentionItem (setRetentionDays (Some (of_nat n)) s)) =
     rs_retentionDays (setRetentionDays (Some (of_nat n)) s)"
proof -
  have "num_text (of_nat n) = nat_text n"
    by (simp add: num_text_def int_text_def)
  then show ?thesis
    by (simp add: setRetentionDays_def refresh_def Let_def loadRetention_def)
qed

section \<open>Properties\<close>

lemma recording_readable:
  assumes "create_recorder rid n du un su w = (Inr r0, w1)"
    and "code_units rid" "code_units n" "code_units du" "code_units un" "pred_option code_units su"
    and "code_units stamp" "list_all event_ok es" "supported w2"
  shows "let lines = cast_lines None es; text = json_lines lines;
             (res, w') = finish roomy True stamp (fold (rec_step roomy) es r0) w2;
             w3 = setRecordingsScope (userScope w) w'
         in map JSON_parse (split_on 10 text) = map Some lines @ [None] \<and>
            (if length lines \<le> 1
             then res = None \<and> dir_get (dirs w3 (rc_dir r0)) (cast_name rid) = None \<and>
                  dir_get (dirs w3 (rc_dir r0)) (json_name rid) = None
             else \<exists>m. res = Some m \<and> m\<lparr>rm_size := byte_size text\<rparr> \<in> set (listRecordings w3) \<and>
                      readRecording m w3 = (Inr text, w3))"
proof -
  note fresh = fresh_recorder [OF assms(1)]
  define r where "r = fold (rec_step roomy) es r0"
  define t where "t = json_lines (cast_lines None es)"
  define m where "m = meta_of stamp r"
  have fin: "finish roomy True stamp r w2 =
    (let w' = change_dir (rc_dir r0) (dir_put (cast_name rid) t) w2 in
     if length (cast_lines None es) \<le> 1
     then (None, change_dir (rc_dir r0) (\<lambda>d. dir_remove (json_name rid) (dir_remove (cast_name rid) d)) w')
     else (Some m, change_dir (rc_dir r0) (dir_put (json_name rid) (stringify (recording_json m))) w'))"
    unfolding m_def by (rule finish_run [OF assms(1) r_def t_def])
  have "clock_ok r"
    using recorder_run_keeps(1) [OF fresh(3)] by (simp add: r_def)
  then have "meta_wf m" "rm_size m = 0" "rm_id m = rid"
    using assms(2-7) recorder_run_keeps(2,4-7) [of roomy es r0] fresh
    by (auto simp: m_def r_def meta_wf_def meta_of_def clock_ok_def castFilename_code_units elim: Ints_cases)
  then have listed: "m\<lparr>rm_size := byte_size t\<rparr> \<in>
      set (list_dir (dir_put (json_name rid) (stringify (recording_json m)) (dir_put (cast_name rid) t d)))" for d
    using dir_put_member by (intro sidecar_listed) auto
  have "JSON_parse [] = None"
    by code_simp
  then have "map JSON_parse (split_on 10 t) = map Some (cast_lines None es) @ [None]"
    using cast_lines_wf [OF assms(8), of None] by (auto simp: t_def split_json_lines list_all_iff)
  then show ?thesis
    using listed \<open>rm_id m = rid\<close> fresh(7,8) assms(9)
    by (simp add: fin [unfolded r_def] Let_def setRecordingsScope_def change_dir_def listRecordings_def
        isRecordingSupported_def has_scope_def readRecording_def recordingsDir_def flip: t_def)
qed

text \<open>
  C13: a session that was recorded on a disk with room, however the writes of the chain interleave with the
  events, is there when its user is signed in again, even when \<open>finish\<close> runs after the scope was
  cleared: the listing shows its metadata with the size of the file, reading it gives the text, and the
  text is one line per value, the header of the first start followed by the events in their order; each
  line parses to its value. A session without an event leaves neither file.
\<close>

theorem finished_recording_readable:
  assumes "create_recorder rid n du un su w = (Inr r0, w1)"
    and "code_units rid" "code_units n" "code_units du" "code_units un" "pred_option code_units su"
    and "code_units stamp" "list_all event_ok es" "supported w2"
  shows "let lines = cast_lines None es; text = json_lines lines;
             (res, w') = finish roomy True stamp (fold (rec_step roomy) es r0) w2;
             w3 = setRecordingsScope (userScope w) w'
         in map JSON_parse (split_on 10 text) = map Some lines @ [None] \<and>
            (if length lines \<le> 1
             then res = None \<and> dir_get (dirs w3 (rc_dir r0)) (cast_name rid) = None \<and>
                  dir_get (dirs w3 (rc_dir r0)) (json_name rid) = None
             else \<exists>m. res = Some m \<and> m\<lparr>rm_size := byte_size text\<rparr> \<in> set (listRecordings w3) \<and>
                      readRecording m w3 = (Inr text, w3))"
  by (rule recording_readable [OF assms])

text \<open>
  Pruning deletes exactly the recordings that started before the cutoff: in a directory whose sidecars
  are named after their recordings, which finishing, deleting and pruning keep, the listing afterwards is
  the listing before without those that are older than \<open>maxAgeDays\<close> days, in the same order.
\<close>

theorem prune_removes_older:
  assumes "userScope w = Some u" "u \<noteq> []" "supported w" "0 < maxAgeDays" "dir_ok (dirs w u)"
  shows "listRecordings (pruneRecordings maxAgeDays w) =
      filter (\<lambda>m. now_date w - maxAgeDays * 86400000 \<le> rm_createdAt m) (listRecordings w) \<and>
    dir_ok (dirs (pruneRecordings maxAgeDays w) u) \<and>
    dir_ok (dirs (snd (deleteRecording rid w)) u) \<and>
    (meta_wf (meta_of stamp r) \<longrightarrow> dir_ok (dirs (snd (finish disk side_ok stamp r w)) u))"
proof -
  define old where "old = filter (\<lambda>m. rm_createdAt m < now_date w - maxAgeDays * 86400000) (list_dir (dirs w u))"
  have here: "listRecordings w = list_dir (dirs w u)"
    using assms(1-3) by (simp add: listRecordings_def isRecordingSupported_def has_scope_def)
  have prune: "pruneRecordings maxAgeDays w = change_dir u (fold remove_both (map rm_id old)) w"
    using assms(1-4) delete_all [OF assms(1,2)]
    by (simp add: pruneRecordings_def isRecordingSupported_def has_scope_def here old_def)
  have "rm_id m \<notin> rm_id ` set old \<longleftrightarrow> now_date w - maxAgeDays * 86400000 \<le> rm_createdAt m"
    if "m \<in> set (list_dir (dirs w u))" for m
  proof
    assume "rm_id m \<notin> rm_id ` set old"
    then have "m \<notin> set old" by blast
    then show "now_date w - maxAgeDays * 86400000 \<le> rm_createdAt m"
      using that by (simp add: old_def)
  next
    assume "now_date w - maxAgeDays * 86400000 \<le> rm_createdAt m"
    then have "k \<noteq> m" if "k \<in> set old" for k
      using that by (auto simp: old_def)
    then show "rm_id m \<notin> rm_id ` set old"
      using list_dir_unique [OF assms(5) that] by (auto simp: old_def)
  qed
  then have "list_dir (fold remove_both (map rm_id old) (dirs w u)) =
      filter (\<lambda>m. now_date w - maxAgeDays * 86400000 \<le> rm_createdAt m) (list_dir (dirs w u))"
    unfolding list_dir_remove_all [OF assms(5)] set_map by (intro filter_cong refl)
  moreover have "dir_ok (fold remove_both is d)" if "dir_ok d" for "is" d
    using that by (induction "is" arbitrary: d) (simp_all add: dir_ok_remove_both)
  moreover have "dir_ok (dirs (snd (finish disk side_ok stamp r w)) u)" if "meta_wf (meta_of stamp r)"
  proof -
    have size: "rm_size (meta_of stamp q) = 0" "rm_id (meta_of stamp q) = rc_id q" for q
      by (simp_all add: meta_of_def)
    have flush: "meta_wf (meta_of stamp (flush_all disk n r))" for n
      using that by (simp add: flush_all_keeps)
    note put = dir_ok_put_json [OF _ flush size(1), unfolded size(2)]
    have change: "dir_ok (dirs (change_dir a f x) u)"
      if "dir_ok (dirs x u)" "\<And>d. dir_ok d \<Longrightarrow> dir_ok (f d)" for a f x
      using that by (cases "u = a") (simp_all add: change_dir_def)
    define q where "q = flush_all disk (length (queue r)) r"
    show ?thesis
    proof (cases "buffer q")
      case None
      then show ?thesis
        using assms(5) by (simp add: finish_def flip: q_def)
    next
      case (Some t)
      have "dir_ok (dirs (change_dir (rc_dir q) (dir_put (cast_name (rc_id q)) t) w) u)"
        by (intro change assms(5) dir_ok_put_cast)
      then show ?thesis
        using Some unfolding finish_def Let_def q_def [symmetric] removeFiles_def
        by (simp add: change dir_ok_remove put [of _ "length (queue r)", folded q_def])
    qed
  qed
  moreover have "dir_ok (dirs (snd (deleteRecording rid w)) u)"
    using assms(1,2,5) by (simp add: deleteRecording_def recordingsDir_def dir_ok_remove change_dir_def)
  moreover have "listRecordings (change_dir u f w) = list_dir (f (dirs w u))" for f
    using assms(1-3) by (simp add: listRecordings_def isRecordingSupported_def has_scope_def change_dir_def)
  moreover have "dirs (change_dir u f w) u = f (dirs w u)" for f
    by (simp add: change_dir_def)
  ultimately show ?thesis
    using assms(5) by (simp add: prune here)
qed


section \<open>The properties at concrete files\<close>

definition sample_fs :: opfs where
  "sample_fs = \<lparr>dirs = (\<lambda>_. []), userScope = Some (js ''u1''), supported = True, now_date = 864000000\<rparr>"

definition sample_recorder :: recorder where
  "sample_recorder = \<lparr>rc_id = js ''a'', rc_dir = js ''u1'', rc_deviceName = js ''web'', rc_deviceUid = js ''d1'',
     rc_username = js ''root'', rc_sessionUid = None, startMs = 0, started = False, event_count = 0,
     failed = False, rc_cols = 80, rc_rows = 24, lastElapsed = 0, queue = [], buffer = Some []\<rparr>"

definition sample_events :: "rec_event list" where
  "sample_events = [EOutput 900 (js ''early''), EStart 1000 80 24, EFlush, EOutput 1500 (js ''hi''), EResize 1750 90 30]"

lemma sample_created:
  "create_recorder (js ''a'') (js ''web'') (js ''d1'') (js ''root'') None sample_fs =
     (Inr sample_recorder, change_dir (js ''u1'') (dir_create (cast_name (js ''a''))) sample_fs)"
  by (simp add: create_recorder_def sample_fs_def sample_recorder_def recordingsDir_def js_def)

theorem finished_recording_readable_witness:
  "\<exists>m w'. finish roomy True (js ''20240101-000000'') (fold (rec_step roomy) sample_events sample_recorder)
       (setRecordingsScope None sample_fs) = (Some m, w') \<and>
     m\<lparr>rm_size := byte_size (json_lines (cast_lines None sample_events))\<rparr>
       \<in> set (listRecordings (setRecordingsScope (Some (js ''u1'')) w'))"
proof -
  have "userScope sample_fs = Some (js ''u1'')"
    by (simp add: sample_fs_def)
  moreover have "\<not> length (cast_lines None sample_events) \<le> 1" "list_all event_ok sample_events"
    by (simp_all add: sample_events_def event_ok_def)
  moreover have "supported (setRecordingsScope None sample_fs)"
    by (simp add: sample_fs_def setRecordingsScope_def)
  ultimately show ?thesis
    using finished_recording_readable [OF sample_created, of "js ''20240101-000000''" sample_events
        "setRecordingsScope None sample_fs"]
    by (auto simp: Let_def split: prod.splits)
qed

definition sample_meta :: "jsstring \<Rightarrow> rat \<Rightarrow> recording_meta" where
  "sample_meta i t = \<lparr>rm_id = i, rm_filename = js ''f.cast'', rm_deviceName = js ''web'', rm_deviceUid = js ''d1'',
     rm_username = js ''root'', rm_sessionUid = None, rm_width = 80, rm_height = 24, rm_durationSec = 1 / 2,
     rm_createdAt = t, rm_size = 0\<rparr>"

definition sample_files :: dir where
  "sample_files =
     [(json_name (js ''a''), stringify (recording_json (sample_meta (js ''a'') 1000))), (cast_name (js ''a''), js ''x''),
      (json_name (js ''b''), stringify (recording_json (sample_meta (js ''b'') 800000000))), (cast_name (js ''b''), js ''yy'')]"

lemma decimal_half: "decimal (1 / 2)"
  using decimal_millis [of 500] by simp

lemma sample_meta_parsed:
  assumes "code_units i"
  shows "Option.bind (JSON_parse (stringify (recording_json (sample_meta i (of_int t))))) meta_of_json =
    Some (sample_meta i (of_int t))"
proof -
  have "wf_json (recording_json (sample_meta i (of_int t)))"
    using assms decimal_half by (intro recording_json_wf) (simp add: meta_wf_def sample_meta_def)
  moreover have "rm_size (sample_meta i (of_int t)) = 0"
    by (simp add: sample_meta_def)
  ultimately show ?thesis
    by (simp add: meta_of_recording_json)
qed

lemmas sample_parsed =
  sample_meta_parsed [of "js ''a''" 1000, simplified] sample_meta_parsed [of "js ''b''" 800000000, simplified]

lemma sample_files_ok: "dir_ok sample_files"
  by (simp add: dir_ok_def sample_files_def sample_parsed) (simp add: sample_meta_def js_def)

lemma sample_files_listed:
  "list_dir sample_files = [(sample_meta (js ''b'') 800000000)\<lparr>rm_size := byte_size (js ''yy'')\<rparr>,
     (sample_meta (js ''a'') 1000)\<lparr>rm_size := byte_size (js ''x'')\<rparr>]"
proof -
  have meta: "rm_id (sample_meta i t) = i" "rm_createdAt (sample_meta i t) = t" for i t
    by (simp_all add: sample_meta_def)
  have get: "dir_get sample_files (cast_name (js ''a'')) = Some (js ''x'')"
    "dir_get sample_files (cast_name (js ''b'')) = Some (js ''yy'')"
    by (simp_all add: sample_files_def dir_get_def js_def)
  have "concat (map (entry_meta sample_files) sample_files) =
      [(sample_meta (js ''a'') 1000)\<lparr>rm_size := byte_size (js ''x'')\<rparr>,
       (sample_meta (js ''b'') 800000000)\<lparr>rm_size := byte_size (js ''yy'')\<rparr>]"
    unfolding sample_files_def by (simp add: entry_meta_def sample_parsed meta get [unfolded sample_files_def])
  then show ?thesis
    by (simp add: list_dir_def meta)
qed

theorem prune_removes_older_witness:
  "map rm_id (listRecordings (pruneRecordings 7 (sample_fs\<lparr>dirs := (\<lambda>_. sample_files)\<rparr>))) = [js ''b'']"
proof -
  define w where "w = sample_fs\<lparr>dirs := (\<lambda>_. sample_files)\<rparr>"
  have w: "userScope w = Some (js ''u1'')" "supported w" "dirs w (js ''u1'') = sample_files"
    "now_date w = 864000000" "js ''u1'' \<noteq> []"
    by (simp_all add: w_def sample_fs_def js_def)
  then have "listRecordings w = list_dir sample_files"
    by (simp add: listRecordings_def isRecordingSupported_def has_scope_def)
  then show ?thesis
    using prune_removes_older [of w "js ''u1''" 7] w sample_files_ok
    by (simp add: sample_files_listed sample_meta_def flip: w_def)
qed


end
