(* ===== verification/Approval.thy ===== *)
theory Approval
  imports JsBase
begin

text \<open>
  The approval of an SSH login, \<open>hooks/useSSHApproval.ts\<close>: the request is fetched when the code changes,
  counts down while it is open, and is confirmed or rejected by the user. The state holds the React
  state, the requests under way and the clock. An effect runs in the step that changes what it depends
  on; \<open>gen\<close> is the instance of the fetching effect, an answer for an older one was cancelled.
\<close>

section \<open>The hook\<close>

datatype approval_phase = Loading | Pending | Confirmed | Rejected | Expired | ErrorPhase

datatype approval_kind = Identity | Reauth

record approval_details =
  d_sshid :: jsstring
  d_deviceName :: jsstring
  d_username :: jsstring
  d_ipAddress :: jsstring
  d_requestedAt :: jsstring
  d_fingerprint :: jsstring
  d_code :: jsstring
  d_kind :: approval_kind
  d_reauthPeriod :: int
  d_namespace :: jsstring

text \<open>The members of the server's answer; each may be missing.\<close>

record approval_data =
  r_sshid :: "jsstring option"
  r_device_name :: "jsstring option"
  r_username :: "jsstring option"
  r_ip_address :: "jsstring option"
  r_requested_at :: "jsstring option"
  r_fingerprint :: "jsstring option"
  r_code :: "jsstring option"
  r_kind :: "jsstring option"
  r_reauth_period :: "int option"
  r_namespace :: "jsstring option"
  r_state :: "jsstring option"
  r_expires_in_seconds :: "int option"

datatype decision = Confirm | Reject

record approval =
  ap_code :: jsstring
  ap_phase :: approval_phase
  ap_details :: "approval_details option"
  secondsLeft :: int
  totalSeconds :: int
  deciding :: bool
  actionError :: jsstring
  expiresAt :: rat
  clock :: rat
  gen :: nat
  interval :: bool
  fetches :: "(nat \<times> jsstring) list"
  decisions :: "(decision \<times> jsstring) list"

definition APPROVAL_TTL_SECONDS :: int where
  "APPROVAL_TTL_SECONDS = 90"

definition or_default :: "'a option \<Rightarrow> 'a \<Rightarrow> 'a" where
  "or_default x d = (case x of None \<Rightarrow> d | Some y \<Rightarrow> y)"

text \<open>The countdown of an open request.\<close>

definition tick :: "approval \<Rightarrow> approval" where
  "tick s =
     (let left = max 0 \<lceil>(expiresAt s - clock s) / 1000\<rceil>;
          s1 = s\<lparr>secondsLeft := left\<rparr>
      in if left \<le> 0 then s1\<lparr>ap_phase := Expired, interval := False\<rparr> else s1)"

text \<open>\<open>setPhase\<close> with the effect on the phase: its cleanup stops the interval, a pending phase starts it.\<close>

definition setPhase :: "approval_phase \<Rightarrow> approval \<Rightarrow> approval" where
  "setPhase p s =
     (if p = ap_phase s then s
      else let s1 = s\<lparr>ap_phase := p, interval := (p = Pending)\<rparr>
           in if p = Pending then tick s1 else s1)"

text \<open>The fetching effect, on mount and when the code changes.\<close>

definition run_fetch :: "approval \<Rightarrow> approval" where
  "run_fetch s0 =
     (let s = s0\<lparr>gen := gen s0 + 1\<rparr> in
      if ap_code s = [] then setPhase Expired s
      else (setPhase Loading s)\<lparr>fetches := (gen s, ap_code s) # fetches s\<rparr>)"

definition useSSHApproval :: "jsstring \<Rightarrow> rat \<Rightarrow> approval" where
  "useSSHApproval code now = run_fetch
     \<lparr>ap_code = code, ap_phase = Loading, ap_details = None, secondsLeft = APPROVAL_TTL_SECONDS,
      totalSeconds = APPROVAL_TTL_SECONDS, deciding = False, actionError = [], expiresAt = 0, clock = now,
      gen = 0, interval = False, fetches = [], decisions = []\<rparr>"

definition change_code :: "jsstring \<Rightarrow> approval \<Rightarrow> approval" where
  "change_code code s = (if code = ap_code s then s else run_fetch (s\<lparr>ap_code := code\<rparr>))"

definition details_of :: "jsstring \<Rightarrow> approval_data \<Rightarrow> approval_details" where
  "details_of code r = \<lparr>d_sshid = or_default (r_sshid r) [], d_deviceName = or_default (r_device_name r) [],
     d_username = or_default (r_username r) [], d_ipAddress = or_default (r_ip_address r) [],
     d_requestedAt = or_default (r_requested_at r) [], d_fingerprint = or_default (r_fingerprint r) [],
     d_code = or_default (r_code r) code,
     d_kind = (if r_kind r = Some (js ''reauth'') then Reauth else Identity),
     d_reauthPeriod = or_default (r_reauth_period r) 0, d_namespace = or_default (r_namespace r) []\<rparr>"

definition fetch_ok :: "nat \<Rightarrow> jsstring \<Rightarrow> approval_data \<Rightarrow> approval \<Rightarrow> approval" where
  "fetch_ok g code r s0 =
     (let s = s0\<lparr>fetches := remove1 (g, code) (fetches s0)\<rparr> in
      if g \<noteq> gen s then s
      else
        let s1 = s\<lparr>ap_details := Some (details_of code r)\<rparr> in
        if r_state r = Some (js ''confirmed'') then setPhase Confirmed s1
        else if r_state r = Some (js ''rejected'') then setPhase Rejected s1
        else
          let left = or_default (r_expires_in_seconds r) APPROVAL_TTL_SECONDS
          in setPhase Pending (s1\<lparr>expiresAt := clock s1 + of_int left * 1000, secondsLeft := left,
                                   totalSeconds := left\<rparr>))"

text \<open>\<open>status\<close> is the status of an error the server sent, \<open>None\<close> for any other.\<close>

definition fetch_error :: "nat \<Rightarrow> jsstring \<Rightarrow> int option \<Rightarrow> approval \<Rightarrow> approval" where
  "fetch_error g code status s0 =
     (let s = s0\<lparr>fetches := remove1 (g, code) (fetches s0)\<rparr> in
      if g \<noteq> gen s then s
      else setPhase (if status = Some 404 then Expired else ErrorPhase) s)"

definition decide :: "decision \<Rightarrow> approval \<Rightarrow> approval" where
  "decide d s =
     (if ap_code s = [] \<or> deciding s then s
      else s\<lparr>deciding := True, actionError := [], decisions := (d, ap_code s) # decisions s\<rparr>)"

definition phase_of :: "decision \<Rightarrow> approval_phase" where
  "phase_of d = (if d = Confirm then Confirmed else Rejected)"

definition decide_ok :: "decision \<Rightarrow> jsstring \<Rightarrow> approval \<Rightarrow> approval" where
  "decide_ok d code s =
     (setPhase (phase_of d) (s\<lparr>decisions := remove1 (d, code) (decisions s)\<rparr>))\<lparr>deciding := False\<rparr>"

definition decide_error :: "decision \<Rightarrow> jsstring \<Rightarrow> int option \<Rightarrow> approval \<Rightarrow> approval" where
  "decide_error d code status s0 =
     (let s = s0\<lparr>decisions := remove1 (d, code) (decisions s0)\<rparr> in
      if status = Some 404 then (setPhase Expired s)\<lparr>deciding := False\<rparr>
      else s\<lparr>actionError := js ''Something went wrong. Please try again.'', deciding := False\<rparr>)"

definition markConfirmed :: "approval \<Rightarrow> approval" where
  "markConfirmed = setPhase Confirmed"

section \<open>Runs\<close>

text \<open>
  What the page has been told: the codes the server reported or took as decided, and those confirmed by
  another factor. \<open>patient\<close> runs change the code only when no decision is under way.
\<close>

definition told :: "jsstring \<Rightarrow> approval_data \<Rightarrow> (jsstring \<times> decision) set" where
  "told code r = (if r_state r = Some (js ''confirmed'') then {(code, Confirm)}
                  else if r_state r = Some (js ''rejected'') then {(code, Reject)} else {})"

inductive areach :: "bool \<Rightarrow> approval \<Rightarrow> (jsstring \<times> decision) set \<Rightarrow> bool" for patient where
  mount: "areach patient (useSSHApproval code now) {}"
| new_code: "areach patient s H \<Longrightarrow> (patient \<Longrightarrow> decisions s = []) \<Longrightarrow> areach patient (change_code code s) H"
| fetched: "areach patient s H \<Longrightarrow> (g, code) \<in> set (fetches s) \<Longrightarrow>
    areach patient (fetch_ok g code r s) (H \<union> told code r)"
| not_fetched: "areach patient s H \<Longrightarrow> (g, code) \<in> set (fetches s) \<Longrightarrow> areach patient (fetch_error g code st s) H"
| click: "areach patient s H \<Longrightarrow> areach patient (decide d s) H"
| decided: "areach patient s H \<Longrightarrow> (d, code) \<in> set (decisions s) \<Longrightarrow>
    areach patient (decide_ok d code s) (insert (code, d) H)"
| undecided: "areach patient s H \<Longrightarrow> (d, code) \<in> set (decisions s) \<Longrightarrow> areach patient (decide_error d code st s) H"
| factor: "areach patient s H \<Longrightarrow> areach patient (markConfirmed s) (insert (ap_code s, Confirm) H)"
| second: "areach patient s H \<Longrightarrow> interval s \<Longrightarrow> areach patient (tick s) H"
| wait: "areach patient s H \<Longrightarrow> 0 \<le> dt \<Longrightarrow> areach patient (s\<lparr>clock := clock s + dt\<rparr>) H"

lemma left_zero: "max 0 \<lceil>x / 1000\<rceil> \<le> 0 \<longleftrightarrow> (x :: rat) \<le> 0"
  by (simp add: ceiling_le_zero)

lemma setPhase_keeps [simp]:
  "ap_code (setPhase p s) = ap_code s" "fetches (setPhase p s) = fetches s" "decisions (setPhase p s) = decisions s"
  "gen (setPhase p s) = gen s" "deciding (setPhase p s) = deciding s" "clock (setPhase p s) = clock s"
  "expiresAt (setPhase p s) = expiresAt s"
  by (simp_all add: setPhase_def tick_def Let_def)

lemma setPhase_phase: "ap_phase (setPhase p s) = p \<or> p = Pending \<and> ap_phase (setPhase p s) = Expired"
  by (simp add: setPhase_def tick_def Let_def)

lemma setPhase_interval:
  "(interval s \<longleftrightarrow> ap_phase s = Pending) \<Longrightarrow> interval (setPhase p s) \<longleftrightarrow> ap_phase (setPhase p s) = Pending"
  by (auto simp: setPhase_def tick_def Let_def)

text \<open>The interval runs exactly while the request is open, and one decision at most is under way.\<close>

definition quiet :: "approval \<Rightarrow> bool" where
  "quiet s \<longleftrightarrow> (interval s \<longleftrightarrow> ap_phase s = Pending) \<and> length (decisions s) \<le> 1 \<and>
     (deciding s \<longleftrightarrow> decisions s \<noteq> []) \<and>
     list_all (\<lambda>(g, c). g \<le> gen s \<and> (g = gen s \<longrightarrow> c = ap_code s)) (fetches s)"

definition honest :: "approval \<Rightarrow> (jsstring \<times> decision) set \<Rightarrow> bool" where
  "honest s H \<longleftrightarrow> list_all (\<lambda>(d, c). c = ap_code s) (decisions s) \<and>
     (ap_phase s = Confirmed \<longrightarrow> (ap_code s, Confirm) \<in> H) \<and>
     (ap_phase s = Rejected \<longrightarrow> (ap_code s, Reject) \<in> H)"

lemma list_all_remove1: "list_all P xs \<Longrightarrow> list_all P (remove1 x xs)"
  by (meson list.pred_set notin_set_remove1)

lemma one_decision: "x \<in> set xs \<Longrightarrow> length xs \<le> 1 \<Longrightarrow> xs = [x]"
  by (cases xs) auto

lemma quiet_phase: "quiet s \<Longrightarrow> quiet (setPhase p s)"
  by (simp add: quiet_def setPhase_interval)

lemma quiet_run_fetch:
  assumes "interval s \<longleftrightarrow> ap_phase s = Pending" "length (decisions s) \<le> 1" "deciding s \<longleftrightarrow> decisions s \<noteq> []"
    "list_all (\<lambda>(g, c). g \<le> gen s) (fetches s)"
  shows "quiet (run_fetch s)"
proof -
  have "quiet (s\<lparr>gen := gen s + 1\<rparr>)"
    using assms by (auto simp: quiet_def list_all_iff)
  from quiet_phase [OF this] show ?thesis
    by (auto simp: run_fetch_def Let_def quiet_def)
qed

lemma quiet_drop_fetch: "quiet s \<Longrightarrow> quiet (s\<lparr>fetches := remove1 x (fetches s)\<rparr>)"
  by (simp add: quiet_def list_all_remove1)

lemma quiet_tick: "quiet s \<Longrightarrow> interval s \<Longrightarrow> quiet (tick s)"
  by (auto simp: quiet_def tick_def Let_def)

lemma areach_quiet: "areach patient s H \<Longrightarrow> quiet s"
proof (induction rule: areach.induct)
  case (mount code now)
  show ?case
    by (simp add: useSSHApproval_def quiet_run_fetch)
next
  case (new_code s H code)
  have "quiet (run_fetch (s\<lparr>ap_code := code\<rparr>))"
    using new_code.IH by (intro quiet_run_fetch) (auto simp: quiet_def list_all_iff)
  then show ?case
    using new_code.IH by (simp add: change_code_def)
next
  case (fetched s H g code r)
  have "quiet (s'\<lparr>ap_details := x, expiresAt := e, secondsLeft := l, totalSeconds := t\<rparr>)"
    "quiet (s'\<lparr>ap_details := x\<rparr>)" if "quiet s'" for s' x e l t
    using that by (simp_all add: quiet_def)
  then show ?case
    using quiet_drop_fetch [OF fetched.IH] by (simp add: fetch_ok_def Let_def quiet_phase)
next
  case (not_fetched s H g code st)
  then show ?case
    by (simp add: fetch_error_def Let_def quiet_phase quiet_drop_fetch)
next
  case (click s H d)
  then show ?case
    by (auto simp: decide_def quiet_def)
next
  case (decided s H d code)
  then have "decisions s = [(d, code)]"
    by (intro one_decision) (simp_all add: quiet_def)
  with decided.IH show ?case
    by (simp add: decide_ok_def quiet_def setPhase_interval)
next
  case (undecided s H d code st)
  then have "decisions s = [(d, code)]"
    by (intro one_decision) (simp_all add: quiet_def)
  with undecided.IH show ?case
    by (simp add: decide_error_def Let_def quiet_def setPhase_interval)
qed (simp_all add: markConfirmed_def quiet_phase quiet_tick, simp add: quiet_def)

lemma honest_phase:
  "honest s H \<Longrightarrow> p \<noteq> Confirmed \<Longrightarrow> p \<noteq> Rejected \<Longrightarrow> honest (setPhase p s) H"
  using setPhase_phase [of p s] by (auto simp: honest_def)

lemma honest_verdict:
  "list_all (\<lambda>(d, c). c = ap_code s) (decisions s) \<Longrightarrow> (ap_code s, d) \<in> H \<Longrightarrow> honest (setPhase (phase_of d) s) H"
  using setPhase_phase [of "phase_of d" s] by (cases d) (auto simp: honest_def phase_of_def)

lemma honest_run_fetch: "decisions s = [] \<Longrightarrow> honest (run_fetch s) H"
  using setPhase_phase [of Expired "s\<lparr>gen := gen s + 1\<rparr>"] setPhase_phase [of Loading "s\<lparr>gen := gen s + 1\<rparr>"]
  by (auto simp: run_fetch_def Let_def honest_def)

lemma areach_honest: "areach True s H \<Longrightarrow> honest s H"
proof (induction rule: areach.induct)
  case (mount code now)
  show ?case
    by (simp add: useSSHApproval_def honest_run_fetch)
next
  case (new_code s H code)
  then show ?case
    by (simp add: change_code_def honest_run_fetch)
next
  case (fetched s H g code r)
  have code: "g = gen s \<Longrightarrow> code = ap_code s"
    using areach_quiet [OF fetched.hyps(1)] fetched.hyps(2) by (auto simp: quiet_def list_all_iff)
  have d: "list_all (\<lambda>(d, c). c = ap_code s) (decisions s)" and h: "honest s (H \<union> told code r)"
    using fetched.IH by (auto simp: honest_def)
  define s1 where "s1 = s\<lparr>fetches := remove1 (g, code) (fetches s), ap_details := Some (details_of code r)\<rparr>"
  have "honest (setPhase Pending (s1\<lparr>expiresAt := e, secondsLeft := l, totalSeconds := t\<rparr>)) (H \<union> told code r)" for e l t
    using h by (intro honest_phase) (simp_all add: honest_def s1_def)
  moreover have "honest (setPhase Confirmed s1) (H \<union> told code r)"
    if "g = gen s" "r_state r = Some (js ''confirmed'')"
    using that code honest_verdict [of s1 Confirm "H \<union> told code r"] d
    by (simp add: s1_def phase_of_def told_def)
  moreover have "honest (setPhase Rejected s1) (H \<union> told code r)"
    if "g = gen s" "r_state r = Some (js ''rejected'')" "r_state r \<noteq> Some (js ''confirmed'')"
    using that code honest_verdict [of s1 Reject "H \<union> told code r"] d
    by (simp add: s1_def phase_of_def told_def)
  moreover have "honest (s\<lparr>fetches := x\<rparr>) (H \<union> told code r)" for x
    using h by (simp add: honest_def)
  ultimately show ?case
    unfolding fetch_ok_def Let_def s1_def by (cases "g = gen s") simp_all
next
  case (not_fetched s H g code st)
  then have "honest (s\<lparr>fetches := x\<rparr>) H" for x
    by (simp add: honest_def)
  then show ?case
    by (simp add: fetch_error_def Let_def honest_phase)
next
  case (click s H d)
  then show ?case
    by (auto simp: decide_def honest_def)
next
  case (decided s H d code)
  have "code = ap_code s"
    using decided by (auto simp: honest_def list_all_iff)
  moreover have "list_all (\<lambda>(d, c). c = ap_code s) (remove1 (d, code) (decisions s))"
    using decided.IH by (simp add: honest_def list_all_remove1)
  ultimately have "honest (setPhase (phase_of d) (s\<lparr>decisions := remove1 (d, code) (decisions s)\<rparr>)) (insert (code, d) H)"
    by (intro honest_verdict) simp_all
  then show ?case
    by (simp add: decide_ok_def honest_def)
next
  case (undecided s H d code st)
  then have h: "honest (s\<lparr>decisions := remove1 (d, code) (decisions s)\<rparr>) H"
    by (simp add: honest_def list_all_remove1)
  from honest_phase [OF this, of Expired] show ?case
    using h by (simp add: decide_error_def Let_def honest_def)
next
  case (factor s H)
  then have "honest (setPhase (phase_of Confirm) s) (insert (ap_code s, Confirm) H)"
    by (intro honest_verdict) (simp_all add: honest_def)
  then show ?case
    by (simp add: markConfirmed_def phase_of_def)
next
  case (second s H)
  then show ?case
    by (auto simp: tick_def Let_def honest_def)
next
  case (wait s H dt)
  then show ?case
    by (simp add: honest_def)
qed

section \<open>Properties\<close>



section \<open>A decision that lands on another request\<close>

text \<open>
  The decision's continuation does not look at the code it was taken for: when the screen moves to another
  request while it is under way, that request is shown as confirmed although nobody decided on it.
\<close>

definition open_request :: approval_data where
  "open_request = \<lparr>r_sshid = None, r_device_name = None, r_username = None, r_ip_address = None,
     r_requested_at = None, r_fingerprint = None, r_code = None, r_kind = None, r_reauth_period = None,
     r_namespace = None, r_state = None, r_expires_in_seconds = Some 60\<rparr>"

definition opened :: "jsstring \<Rightarrow> approval" where
  "opened code = fetch_ok 1 code open_request (useSSHApproval code 0)"

lemma opened_reached: "code \<noteq> [] \<Longrightarrow> areach patient (opened code) {}"
  using areach.fetched [OF areach.mount, of 1 code code 0 patient open_request]
  by (simp add: opened_def useSSHApproval_def run_fetch_def Let_def setPhase_def told_def open_request_def)

lemmas approval_defs = opened_def useSSHApproval_def run_fetch_def Let_def setPhase_def fetch_ok_def
  open_request_def or_default_def tick_def decide_def decide_ok_def change_code_def phase_of_def

theorem other_request_shown_confirmed:
  "\<exists>s. areach False s {([65], Confirm)} \<and> ap_code s = [66] \<and> ap_phase s = Confirmed"
proof -
  define s1 where "s1 = change_code [66] (decide Confirm (opened [65]))"
  define s2 where "s2 = fetch_ok 2 [66] open_request s1"
  have "areach False s1 {}"
    unfolding s1_def by (intro areach.new_code areach.click opened_reached) simp_all
  moreover have "(2, [66]) \<in> set (fetches s1)"
    by (simp add: s1_def approval_defs)
  ultimately have "areach False s2 {}"
    using areach.fetched [of False s1 "{}" 2 "[66]" open_request] by (simp add: s2_def told_def open_request_def)
  moreover have "(Confirm, [65]) \<in> set (decisions s2)"
    by (simp add: s1_def s2_def approval_defs)
  ultimately have "areach False (decide_ok Confirm [65] s2) {([65], Confirm)}"
    by (rule areach.decided)
  moreover have "ap_code (decide_ok Confirm [65] s2) = [66]" "ap_phase (decide_ok Confirm [65] s2) = Confirmed"
    by (simp_all add: s1_def s2_def approval_defs)
  ultimately show ?thesis
    by blast
qed

section \<open>The properties at a concrete request\<close>



end
