(* ===== verification/Enrollment.thy ===== *)
theory Enrollment
  imports Json
begin

text \<open>
  Adding a device with a pairing code, \<open>hooks/useDevicePairingEnrollment.ts\<close>: the page asks for a code or
  reuses the stored one, counts its window down and polls until a device claims it. The state holds the
  React state, local storage, the clock, the intervals and the requests under way. A step runs one
  callback and then \<open>commit\<close>: React renders and runs every effect whose dependencies changed, with the
  values of that render, until nothing changes. The two waiting effects have the same dependencies.
\<close>

section \<open>The hook\<close>

datatype enrollment_phase = Minting | Waiting | Connected | Expired | ErrorPhase

record enrollment_device =
  dv_uid :: jsstring
  dv_name :: jsstring

record stored_code =
  sc_code :: jsstring
  sc_expiresAt :: rat

text \<open>
  A request with the instance of the effect that sent it and the storage key and code the effect has: a
  new code, the check of a stored code, the last check at the end of the window and a poll.
\<close>

datatype request = MintReq nat jsstring | ReuseReq nat jsstring stored_code
  | LastReq nat jsstring jsstring | PollReq nat jsstring jsstring

type_synonym wait_deps = "bool \<times> enrollment_phase \<times> jsstring \<times> jsstring"

record pairing =
  mounted :: bool
  enabled :: bool
  p_tenant :: jsstring
  p_code :: jsstring
  p_phase :: enrollment_phase
  p_device :: "enrollment_device option"
  secondsLeft :: int
  nonce :: nat
  expiresAt :: rat
  storage :: "jsstring \<Rightarrow> jsstring option"
  storage_ok :: bool
  clock :: rat
  acq :: nat
  wgen :: nat
  count_on :: bool
  poll_on :: bool
  last_acq :: "(bool \<times> jsstring \<times> nat) option"
  last_wait :: "wait_deps option"
  requests :: "request list"

definition POLL_INTERVAL_MS :: int where
  "POLL_INTERVAL_MS = 3000"

definition DEFAULT_TTL_SECONDS :: int where
  "DEFAULT_TTL_SECONDS = 600"

definition STORAGE_PREFIX :: jsstring where
  "STORAGE_PREFIX = js ''shellhub:pairing-enrollment:''"

definition storageKey :: "pairing \<Rightarrow> jsstring" where
  "storageKey w = STORAGE_PREFIX @ p_tenant w"

definition stored_json :: "stored_code \<Rightarrow> json" where
  "stored_json v = JObj [(js ''code'', JStr (sc_code v)), (js ''expiresAt'', JNum (sc_expiresAt v))]"

definition readStored :: "jsstring \<Rightarrow> pairing \<Rightarrow> stored_code option" where
  "readStored key w =
     (if \<not> storage_ok w then None
      else case storage w key of
        None \<Rightarrow> None
      | Some raw \<Rightarrow>
          if raw = [] then None
          else case JSON_parse raw of
            None \<Rightarrow> None
          | Some v \<Rightarrow> (case (as_string (getp v (js ''code'')), as_number (getp v (js ''expiresAt''))) of
              (Some c, Some e) \<Rightarrow> Some \<lparr>sc_code = c, sc_expiresAt = e\<rparr>
            | _ \<Rightarrow> None))"

definition writeStored :: "jsstring \<Rightarrow> stored_code \<Rightarrow> pairing \<Rightarrow> pairing" where
  "writeStored key v w =
     (if storage_ok w then w\<lparr>storage := (storage w)(key \<mapsto> stringify (stored_json v))\<rparr> else w)"

definition clearStored :: "jsstring \<Rightarrow> pairing \<Rightarrow> pairing" where
  "clearStored key w = (if storage_ok w then w\<lparr>storage := (storage w)(key := None)\<rparr> else w)"

definition seconds_until :: "rat \<Rightarrow> rat \<Rightarrow> int" where
  "seconds_until e now = max 0 \<lceil>(e - now) / 1000\<rceil>"

text \<open>The acquiring effect up to its first request; a new instance cancels the one before.\<close>

definition acquire :: "pairing \<Rightarrow> pairing" where
  "acquire w0 =
     (let w = w0\<lparr>acq := acq w0 + 1, last_acq := Some (enabled w0, p_tenant w0, nonce w0)\<rparr> in
      if \<not> enabled w then w
      else
        let w1 = w\<lparr>p_phase := Minting, p_device := None, p_code := []\<rparr>;
            mint = MintReq (acq w) (storageKey w)
        in w1\<lparr>requests := (case readStored (storageKey w) w of
              None \<Rightarrow> mint
            | Some v \<Rightarrow> if sc_expiresAt v > clock w then ReuseReq (acq w) (storageKey w) v else mint)
            # requests w1\<rparr>)"

text \<open>
  The countdown and the poll of an effect instance. The first tick runs before the interval starts, so
  the interval also runs when that tick has found the window closed.
\<close>

definition tick :: "jsstring \<Rightarrow> jsstring \<Rightarrow> pairing \<Rightarrow> pairing" where
  "tick code key w =
     (let left = seconds_until (expiresAt w) (clock w); w1 = w\<lparr>secondsLeft := left\<rparr> in
      if left > 0 then w1
      else w1\<lparr>count_on := False, requests := LastReq (wgen w1) code key # requests w1\<rparr>)"

definition wait_deps :: "pairing \<Rightarrow> wait_deps" where
  "wait_deps w = (enabled w, p_phase w, p_code w, storageKey w)"

fun waiting_effects :: "wait_deps \<Rightarrow> pairing \<Rightarrow> pairing" where
  "waiting_effects (en, ph, code, key) w =
     (let w1 = w\<lparr>wgen := wgen w + 1, count_on := False, poll_on := False, last_wait := Some (en, ph, code, key)\<rparr> in
      if \<not> en \<or> ph \<noteq> Waiting then w1
      else (tick code key w1)\<lparr>count_on := True, poll_on := (code \<noteq> [])\<rparr>)"

definition round_effects :: "pairing \<Rightarrow> pairing" where
  "round_effects w =
     (let deps = wait_deps w;
          w1 = (if last_acq w = Some (enabled w, p_tenant w, nonce w) then w else acquire w)
      in if last_wait w = Some deps then w1 else waiting_effects deps w1)"

definition commit :: "pairing \<Rightarrow> pairing" where
  "commit w = (if mounted w then round_effects (round_effects w) else w)"

definition useDevicePairingEnrollment ::
  "bool \<Rightarrow> jsstring \<Rightarrow> (jsstring \<Rightarrow> jsstring option) \<Rightarrow> bool \<Rightarrow> rat \<Rightarrow> pairing" where
  "useDevicePairingEnrollment en tenant st ok now = commit
     \<lparr>mounted = True, enabled = en, p_tenant = tenant, p_code = [], p_phase = Minting, p_device = None,
      secondsLeft = 0, nonce = 0, expiresAt = 0, storage = st, storage_ok = ok, clock = now, acq = 0, wgen = 0,
      count_on = False, poll_on = False, last_acq = None, last_wait = None, requests = []\<rparr>"

definition set_props :: "bool \<Rightarrow> jsstring \<Rightarrow> pairing \<Rightarrow> pairing" where
  "set_props en tenant w = commit (w\<lparr>enabled := en, p_tenant := tenant\<rparr>)"

definition unmount :: "pairing \<Rightarrow> pairing" where
  "unmount w = w\<lparr>mounted := False, acq := acq w + 1, wgen := wgen w + 1, count_on := False, poll_on := False\<rparr>"

definition regenerate :: "pairing \<Rightarrow> pairing" where
  "regenerate w = (let w1 = clearStored (storageKey w) w in commit (w1\<lparr>nonce := nonce w1 + 1\<rparr>))"

definition drop_request :: "request \<Rightarrow> pairing \<Rightarrow> pairing" where
  "drop_request r w = w\<lparr>requests := remove1 r (requests w)\<rparr>"

definition start :: "nat \<Rightarrow> stored_code \<Rightarrow> pairing \<Rightarrow> pairing" where
  "start g v w =
     (if g \<noteq> acq w then w
      else w\<lparr>p_code := sc_code v, expiresAt := sc_expiresAt v,
             secondsLeft := seconds_until (sc_expiresAt v) (clock w), p_phase := Waiting\<rparr>)"

definition mint_ok :: "nat \<Rightarrow> jsstring \<Rightarrow> jsstring option \<Rightarrow> int option \<Rightarrow> pairing \<Rightarrow> pairing" where
  "mint_ok g key code ttl w0 =
     (let w = drop_request (MintReq g key) w0 in
      if g \<noteq> acq w then w
      else
        let v = \<lparr>sc_code = (case code of None \<Rightarrow> [] | Some c \<Rightarrow> c),
                 sc_expiresAt = clock w + of_int (case ttl of None \<Rightarrow> DEFAULT_TTL_SECONDS | Some t \<Rightarrow> t) * 1000\<rparr>
        in commit (start g v (writeStored key v w)))"

definition mint_error :: "nat \<Rightarrow> jsstring \<Rightarrow> pairing \<Rightarrow> pairing" where
  "mint_error g key w0 =
     (let w = drop_request (MintReq g key) w0 in
      if g \<noteq> acq w then w else commit (w\<lparr>p_phase := ErrorPhase\<rparr>))"

definition reuse_ok :: "nat \<Rightarrow> jsstring \<Rightarrow> stored_code \<Rightarrow> bool \<Rightarrow> pairing \<Rightarrow> pairing" where
  "reuse_ok g key v accepted w0 =
     (let w = drop_request (ReuseReq g key v) w0 in
      if g \<noteq> acq w then w
      else if accepted
      then let w1 = clearStored key w in w1\<lparr>requests := MintReq g key # requests w1\<rparr>
      else commit (start g v w))"

text \<open>The failing check clears the stored code and asks for a new one, also when it was cancelled.\<close>

definition reuse_error :: "nat \<Rightarrow> jsstring \<Rightarrow> stored_code \<Rightarrow> pairing \<Rightarrow> pairing" where
  "reuse_error g key v w0 =
     (let w = clearStored key (drop_request (ReuseReq g key v) w0)
      in w\<lparr>requests := MintReq g key # requests w\<rparr>)"

definition claimed :: "jsstring \<Rightarrow> jsstring option \<Rightarrow> jsstring option \<Rightarrow> pairing \<Rightarrow> pairing" where
  "claimed key uid name w =
     (clearStored key w)\<lparr>p_device := Some \<lparr>dv_uid = (case uid of None \<Rightarrow> [] | Some u \<Rightarrow> u),
        dv_name = (case name of None \<Rightarrow> [] | Some n \<Rightarrow> n)\<rparr>, p_phase := Connected\<rparr>"

definition last_ok :: "nat \<Rightarrow> jsstring \<Rightarrow> jsstring \<Rightarrow> bool \<Rightarrow> jsstring option \<Rightarrow> jsstring option \<Rightarrow> pairing \<Rightarrow> pairing" where
  "last_ok g code key accepted uid name w0 =
     (let w = drop_request (LastReq g code key) w0 in
      if g \<noteq> wgen w then w
      else if accepted then commit (claimed key uid name w)
      else commit (w\<lparr>p_phase := Expired\<rparr>))"

definition last_error :: "nat \<Rightarrow> jsstring \<Rightarrow> jsstring \<Rightarrow> pairing \<Rightarrow> pairing" where
  "last_error g code key w0 =
     (let w = drop_request (LastReq g code key) w0 in
      if g \<noteq> wgen w then w else commit (w\<lparr>p_phase := Expired\<rparr>))"

definition poll_ok :: "nat \<Rightarrow> jsstring \<Rightarrow> jsstring \<Rightarrow> bool \<Rightarrow> jsstring option \<Rightarrow> jsstring option \<Rightarrow> pairing \<Rightarrow> pairing" where
  "poll_ok g code key accepted uid name w0 =
     (let w = drop_request (PollReq g code key) w0 in
      if g \<noteq> wgen w \<or> \<not> accepted then w else commit (claimed key uid name w))"

definition poll_error :: "nat \<Rightarrow> jsstring \<Rightarrow> jsstring \<Rightarrow> pairing \<Rightarrow> pairing" where
  "poll_error g code key = drop_request (PollReq g code key)"

definition poll_tick :: "pairing \<Rightarrow> pairing" where
  "poll_tick w = w\<lparr>requests := PollReq (wgen w) (p_code w) (storageKey w) # requests w\<rparr>"

definition count_tick :: "pairing \<Rightarrow> pairing" where
  "count_tick w = tick (p_code w) (storageKey w) w"

section \<open>Runs\<close>

definition device_of :: "jsstring option \<Rightarrow> jsstring option \<Rightarrow> enrollment_device" where
  "device_of uid name = \<lparr>dv_uid = (case uid of None \<Rightarrow> [] | Some u \<Rightarrow> u),
     dv_name = (case name of None \<Rightarrow> [] | Some n \<Rightarrow> n)\<rparr>"

text \<open>The history holds the codes the server reported as accepted, with the device.\<close>

inductive preach :: "pairing \<Rightarrow> (jsstring \<times> enrollment_device) set \<Rightarrow> bool" where
  mount: "preach (useDevicePairingEnrollment en tenant st ok now) {}"
| props: "preach w H \<Longrightarrow> mounted w \<Longrightarrow> preach (set_props en tenant w) H"
| leave: "preach w H \<Longrightarrow> preach (unmount w) H"
| again: "preach w H \<Longrightarrow> mounted w \<Longrightarrow> preach (regenerate w) H"
| minted: "preach w H \<Longrightarrow> MintReq g key \<in> set (requests w) \<Longrightarrow> preach (mint_ok g key code ttl w) H"
| not_minted: "preach w H \<Longrightarrow> MintReq g key \<in> set (requests w) \<Longrightarrow> preach (mint_error g key w) H"
| checked: "preach w H \<Longrightarrow> ReuseReq g key v \<in> set (requests w) \<Longrightarrow> preach (reuse_ok g key v accepted w) H"
| not_checked: "preach w H \<Longrightarrow> ReuseReq g key v \<in> set (requests w) \<Longrightarrow> preach (reuse_error g key v w) H"
| last: "preach w H \<Longrightarrow> LastReq g code key \<in> set (requests w) \<Longrightarrow>
    preach (last_ok g code key accepted uid name w) (if accepted then insert (code, device_of uid name) H else H)"
| not_last: "preach w H \<Longrightarrow> LastReq g code key \<in> set (requests w) \<Longrightarrow> preach (last_error g code key w) H"
| polled: "preach w H \<Longrightarrow> PollReq g code key \<in> set (requests w) \<Longrightarrow>
    preach (poll_ok g code key accepted uid name w) (if accepted then insert (code, device_of uid name) H else H)"
| not_polled: "preach w H \<Longrightarrow> PollReq g code key \<in> set (requests w) \<Longrightarrow> preach (poll_error g code key w) H"
| second: "preach w H \<Longrightarrow> count_on w \<Longrightarrow> preach (count_tick w) H"
| poll: "preach w H \<Longrightarrow> poll_on w \<Longrightarrow> preach (poll_tick w) H"
| wait: "preach w H \<Longrightarrow> 0 \<le> dt \<Longrightarrow> preach (w\<lparr>clock := clock w + dt\<rparr>) H"

section \<open>The invariant\<close>

fun acq_current :: "pairing \<Rightarrow> request \<Rightarrow> bool" where
  "acq_current w (MintReq g key) = (g = acq w)"
| "acq_current w (ReuseReq g key v) = (g = acq w)"
| "acq_current w _ = False"

fun wait_current :: "pairing \<Rightarrow> request \<Rightarrow> bool" where
  "wait_current w (LastReq g code key) = (g = wgen w)"
| "wait_current w (PollReq g code key) = (g = wgen w)"
| "wait_current w _ = False"

text \<open>No request is from the future.\<close>

fun bounded :: "pairing \<Rightarrow> request \<Rightarrow> bool" where
  "bounded w (MintReq g key) = (g \<le> acq w)"
| "bounded w (ReuseReq g key v) = (g \<le> acq w)"
| "bounded w (LastReq g code key) = (g \<le> wgen w)"
| "bounded w (PollReq g code key) = (g \<le> wgen w)"

fun for_code :: "pairing \<Rightarrow> request \<Rightarrow> bool" where
  "for_code w (LastReq g code key) = (g = wgen w \<longrightarrow> code = p_code w)"
| "for_code w (PollReq g code key) = (g = wgen w \<longrightarrow> code = p_code w)"
| "for_code w _ = True"

definition acquiring :: "pairing \<Rightarrow> bool" where
  "acquiring w \<longleftrightarrow> mounted w \<and> enabled w \<and> p_phase w = Minting"

definition waits :: "pairing \<Rightarrow> bool" where
  "waits w \<longleftrightarrow> mounted w \<and> enabled w \<and> p_phase w = Waiting"

fun is_last :: "pairing \<Rightarrow> request \<Rightarrow> bool" where
  "is_last w (LastReq g code key) = (g = wgen w)"
| "is_last w _ = False"

definition acq_ok :: "pairing \<Rightarrow> bool" where
  "acq_ok w \<longleftrightarrow> length (filter (acq_current w) (requests w)) = of_bool (acquiring w)"

definition wait_ok :: "pairing \<Rightarrow> bool" where
  "wait_ok w \<longleftrightarrow> list_all (for_code w) (requests w) \<and>
     (list_ex (wait_current w) (requests w) \<longrightarrow> waits w) \<and> (count_on w \<or> poll_on w \<longrightarrow> waits w) \<and>
     (waits w \<longrightarrow> count_on w \<or> list_ex (is_last w) (requests w))"

definition committed :: "pairing \<Rightarrow> bool" where
  "committed w \<longleftrightarrow> mounted w \<longrightarrow>
     last_acq w = Some (enabled w, p_tenant w, nonce w) \<and> last_wait w = Some (wait_deps w)"

definition true_claim :: "pairing \<Rightarrow> (jsstring \<times> enrollment_device) set \<Rightarrow> bool" where
  "true_claim w H \<longleftrightarrow> (p_phase w = Connected \<longrightarrow> (\<exists>d. p_device w = Some d \<and> (p_code w, d) \<in> H))"

definition pinv :: "pairing \<Rightarrow> (jsstring \<times> enrollment_device) set \<Rightarrow> bool" where
  "pinv w H \<longleftrightarrow> list_all (bounded w) (requests w) \<and> acq_ok w \<and> wait_ok w \<and> committed w \<and> true_claim w H"

lemma filter_fresh:
  "list_all (bounded w) rs \<Longrightarrow> filter (acq_current (w\<lparr>acq := Suc (acq w)\<rparr>)) rs = []"
  by (induction rs) (auto elim!: bounded.elims)

lemma acq_current_cong: "acq w = acq w' \<Longrightarrow> acq_current w = acq_current w'"
  by (rule ext, rename_tac r, case_tac r) simp_all

lemma wait_cong:
  "wgen w = wgen w' \<Longrightarrow> wait_current w = wait_current w'" "wgen w = wgen w' \<Longrightarrow> is_last w = is_last w'"
  "wgen w = wgen w' \<Longrightarrow> p_code w = p_code w' \<Longrightarrow> for_code w = for_code w'"
  "wgen w = wgen w' \<Longrightarrow> acq w = acq w' \<Longrightarrow> bounded w = bounded w'"
  by (rule ext, rename_tac r, case_tac r; simp)+

lemma bounded_mono: "acq w \<le> acq w' \<Longrightarrow> wgen w \<le> wgen w' \<Longrightarrow> bounded w r \<Longrightarrow> bounded w' r"
  by (cases r) auto

section \<open>Rendering keeps the invariant\<close>

lemma acquire_keeps [simp]:
  "mounted (acquire w) = mounted w" "enabled (acquire w) = enabled w" "p_tenant (acquire w) = p_tenant w"
  "nonce (acquire w) = nonce w" "wgen (acquire w) = wgen w" "count_on (acquire w) = count_on w"
  "poll_on (acquire w) = poll_on w" "last_wait (acquire w) = last_wait w" "acq (acquire w) = Suc (acq w)"
  "last_acq (acquire w) = Some (enabled w, p_tenant w, nonce w)"
  by (simp_all add: acquire_def Let_def)

lemma acquire_requests:
  obtains "\<not> enabled w" "requests (acquire w) = requests w" "p_phase (acquire w) = p_phase w"
    "p_code (acquire w) = p_code w" "p_device (acquire w) = p_device w"
  | r where "enabled w" "requests (acquire w) = r # requests w" "acq_current (acquire w) r"
    "\<not> wait_current w r" "\<not> is_last w r" "for_code w r" "bounded (acquire w) r" "p_phase (acquire w) = Minting"
proof (cases "enabled w")
  case False
  then show ?thesis
    by (intro that(1)) (simp_all add: acquire_def Let_def)
next
  case True
  define r where "r = (case readStored (storageKey w) w of None \<Rightarrow> MintReq (Suc (acq w)) (storageKey w)
      | Some v \<Rightarrow> if sc_expiresAt v > clock w then ReuseReq (Suc (acq w)) (storageKey w) v
                  else MintReq (Suc (acq w)) (storageKey w))"
  have "requests (acquire w) = r # requests w" "p_phase (acquire w) = Minting"
    using True by (simp_all add: acquire_def Let_def r_def storageKey_def readStored_def split: option.split)
  moreover have "acq_current (acquire w) r" "\<not> wait_current w r" "\<not> is_last w r" "for_code w r" "bounded (acquire w) r"
    by (auto simp: r_def split: option.split)
  ultimately show ?thesis
    using True that(2) by blast
qed

lemma acquire_acq_ok:
  assumes "list_all (bounded w) (requests w)" "mounted w"
  shows "acq_ok (acquire w)"
proof -
  have none: "filter (acq_current (acquire w)) (requests w) = []"
    using filter_fresh [OF assms(1)] acq_current_cong [of "acquire w" "w\<lparr>acq := Suc (acq w)\<rparr>"] by simp
  show ?thesis
    by (cases w rule: acquire_requests) (use none assms(2) in \<open>simp_all add: acq_ok_def acquiring_def\<close>)
qed

lemma list_all_bounded_mono:
  "list_all (bounded w) rs \<Longrightarrow> acq w \<le> acq w' \<Longrightarrow> wgen w \<le> wgen w' \<Longrightarrow> list_all (bounded w') rs"
  using bounded_mono by (auto simp: list_all_iff)

lemma acquire_bounded: "list_all (bounded w) (requests w) \<Longrightarrow> list_all (bounded (acquire w)) (requests (acquire w))"
  by (cases w rule: acquire_requests) (auto intro: list_all_bounded_mono)

lemma acquire_wait_ok:
  assumes "wait_ok w" "p_phase (acquire w) = p_phase w" "p_code (acquire w) = p_code w"
  shows "wait_ok (acquire w)"
  using assms wait_cong [of "acquire w" w]
  by (cases w rule: acquire_requests) (simp_all add: wait_ok_def waits_def)

lemma acquire_true_claim: "true_claim w H \<Longrightarrow> true_claim (acquire w) H"
  by (cases w rule: acquire_requests) (auto simp: true_claim_def)

lemma waiting_keeps [simp]:
  "mounted (waiting_effects d w) = mounted w" "enabled (waiting_effects d w) = enabled w"
  "p_tenant (waiting_effects d w) = p_tenant w" "nonce (waiting_effects d w) = nonce w"
  "acq (waiting_effects d w) = acq w" "wgen (waiting_effects d w) = Suc (wgen w)"
  "p_phase (waiting_effects d w) = p_phase w" "p_code (waiting_effects d w) = p_code w"
  "p_device (waiting_effects d w) = p_device w" "last_acq (waiting_effects d w) = last_acq w"
  "last_wait (waiting_effects d w) = Some d" "storageKey (waiting_effects d w) = storageKey w"
  by (cases d; simp add: Let_def tick_def storageKey_def)+

lemma waiting_requests:
  obtains "requests (waiting_effects (en, ph, code, key) w) = requests w"
  | "requests (waiting_effects (en, ph, code, key) w) = LastReq (Suc (wgen w)) code key # requests w" "en" "ph = Waiting"
  by (cases "en \<and> ph = Waiting \<and> seconds_until (expiresAt w) (clock w) \<le> 0")
    (auto simp: Let_def tick_def)

lemma waiting_acq_ok: "acq_ok w \<Longrightarrow> acq_ok (waiting_effects d w)"
proof (cases d)
  case (fields en ph code key)
  show "acq_ok w \<Longrightarrow> acq_ok (waiting_effects d w)"
    using acq_current_cong [of "waiting_effects d w" w]
    by (cases en ph code key w rule: waiting_requests)
      (simp_all only: fields acq_ok_def acquiring_def waiting_keeps filter.simps acq_current.simps if_False)
qed

lemma waiting_bounded:
  assumes "list_all (bounded w) (requests w)"
  shows "list_all (bounded (waiting_effects d w)) (requests (waiting_effects d w))"
proof (cases d)
  case (fields en ph code key)
  have "list_all (bounded (waiting_effects d w)) (requests w)"
    using assms by (rule list_all_bounded_mono) simp_all
  then show ?thesis
    by (cases en ph code key w rule: waiting_requests) (simp_all add: fields del: waiting_effects.simps)
qed

lemma waiting_wait_ok:
  assumes "list_all (bounded w) (requests w)" "mounted w" "d = wait_deps w"
  shows "wait_ok (waiting_effects d w)"
proof -
  let ?w = "waiting_effects d w"
  have old: "list_all (for_code ?w) (requests w)" "\<not> list_ex (wait_current ?w) (requests w)"
    using assms(1) by (auto simp: list_all_iff list_ex_iff elim!: for_code.elims wait_current.elims bounded.elims)
  have "count_on ?w \<longleftrightarrow> waits w" "poll_on ?w \<longleftrightarrow> waits w \<and> p_code w \<noteq> []" "waits ?w \<longleftrightarrow> waits w"
    using assms(2) by (auto simp: assms(3) wait_deps_def Let_def waits_def tick_def)
  then show ?thesis
    using old assms(2)
    by (cases "enabled w" "p_phase w" "p_code w" "storageKey w" w rule: waiting_requests)
      (auto simp: assms(3) wait_deps_def wait_ok_def waits_def simp del: waiting_effects.simps)
qed

lemma round_keeps [simp]:
  "mounted (round_effects w) = mounted w"
  "last_acq (round_effects w) = Some (enabled (round_effects w), p_tenant (round_effects w), nonce (round_effects w))"
  "last_wait (round_effects w) = Some (wait_deps w)"
  by (simp_all add: round_effects_def Let_def)

lemma round_bounded:
  "list_all (bounded w) (requests w) \<Longrightarrow> list_all (bounded (round_effects w)) (requests (round_effects w))"
  by (simp add: round_effects_def Let_def waiting_bounded acquire_bounded)

lemma round_acq_ok:
  assumes "list_all (bounded w) (requests w)" "mounted w"
    "last_acq w = Some (enabled w, p_tenant w, nonce w) \<Longrightarrow> acq_ok w"
  shows "acq_ok (round_effects w)"
  using assms by (simp add: round_effects_def Let_def waiting_acq_ok acquire_acq_ok)

lemma round_true_claim: "true_claim w H \<Longrightarrow> true_claim (round_effects w) H"
  using acquire_true_claim [of w H] by (auto simp: round_effects_def Let_def true_claim_def)

lemma waiting_deps [simp]: "wait_deps (waiting_effects d w) = wait_deps w"
  by (simp add: wait_deps_def)

lemma round_wait_ok:
  assumes "list_all (bounded w) (requests w)" "mounted w" "last_wait w = Some (wait_deps w) \<Longrightarrow> wait_ok w"
    and same: "wait_deps (round_effects w) = wait_deps w"
  shows "wait_ok (round_effects w)"
proof (cases "last_acq w = Some (enabled w, p_tenant w, nonce w)")
  case True
  then show ?thesis
    using assms(1-3) waiting_wait_ok [OF assms(1,2) refl] by (simp add: round_effects_def Let_def)
next
  case False
  have deps: "wait_deps (acquire w) = wait_deps w"
    using same False by (simp add: round_effects_def Let_def split: if_splits)
  then have "wait_ok w \<Longrightarrow> wait_ok (acquire w)"
    by (intro acquire_wait_ok) (simp_all add: wait_deps_def)
  moreover have "wait_ok (waiting_effects (wait_deps w) (acquire w))"
    using waiting_wait_ok [OF acquire_bounded [OF assms(1)]] assms(2) deps by simp
  ultimately show ?thesis
    using False assms(3) by (simp add: round_effects_def Let_def)
qed

text \<open>Two rounds settle: the second one does not acquire.\<close>

lemma round_settled:
  "last_acq w = Some (enabled w, p_tenant w, nonce w) \<Longrightarrow> wait_deps (round_effects w) = wait_deps w"
  by (simp add: round_effects_def Let_def)

lemma commit_pinv:
  assumes "list_all (bounded w) (requests w)" "mounted w"
    "last_acq w = Some (enabled w, p_tenant w, nonce w) \<Longrightarrow> acq_ok w"
    "last_wait w = Some (wait_deps w) \<Longrightarrow> wait_ok w" "true_claim w H"
  shows "pinv (commit w) H"
proof -
  define v where "v = round_effects w"
  have v: "list_all (bounded v) (requests v)" "mounted v" "acq_ok v" "true_claim v H"
    "last_acq v = Some (enabled v, p_tenant v, nonce v)" "last_wait v = Some (wait_deps w)"
    using round_bounded [OF assms(1)] round_acq_ok [OF assms(1-3)] round_true_claim [OF assms(5)] assms(2)
    by (simp_all add: v_def)
  have "wait_ok v" if "last_wait v = Some (wait_deps v)"
  proof -
    have "wait_deps v = wait_deps w"
      using that unfolding v(6) by (metis option.inject)
    then show ?thesis
      unfolding v_def using assms(1,2,4) by (blast intro: round_wait_ok)
  qed
  then have "wait_ok (round_effects v)"
    using v(1,2) round_settled [OF v(5)] by (blast intro: round_wait_ok)
  moreover have "acq_ok (round_effects v)"
    using v(1-3) by (blast intro: round_acq_ok)
  moreover have "committed (round_effects v)"
    using round_settled [OF v(5)] by (simp add: committed_def)
  moreover have "commit w = round_effects v"
    using assms(2) by (simp add: commit_def v_def)
  ultimately show ?thesis
    using round_bounded [OF v(1)] round_true_claim [OF v(4)] by (simp add: pinv_def)
qed

lemma commit_settled: "mounted w \<Longrightarrow> round_effects (commit w) = commit w"
  using round_settled [of "round_effects w"]
  by (simp add: commit_def round_effects_def [of "round_effects (round_effects w)"] Let_def)

section \<open>Every step keeps the invariant\<close>

text \<open>The window, the clock and the storage are not part of it.\<close>

lemma pinv_frame: "pinv (w\<lparr>secondsLeft := a, expiresAt := b, storage := c, clock := d\<rparr>) H = pinv w H"
proof -
  let ?v = "w\<lparr>secondsLeft := a, expiresAt := b, storage := c, clock := d\<rparr>"
  have cong: "acq_current ?v = acq_current w" "wait_current ?v = wait_current w" "is_last ?v = is_last w"
    "for_code ?v = for_code w" "bounded ?v = bounded w"
    by (rule acq_current_cong wait_cong; simp)+
  have "waits ?v = waits w" "acquiring ?v = acquiring w" "committed ?v = committed w" "true_claim ?v H = true_claim w H"
    by (simp_all add: waits_def acquiring_def committed_def wait_deps_def storageKey_def true_claim_def)
  then show ?thesis
    unfolding pinv_def acq_ok_def wait_ok_def cong by simp
qed

lemma pinv_clock: "pinv w H \<Longrightarrow> pinv (w\<lparr>clock := t\<rparr>) H"
  and pinv_seconds: "pinv w H \<Longrightarrow> pinv (w\<lparr>secondsLeft := n\<rparr>) H"
  and pinv_store: "pinv w H \<Longrightarrow> pinv (w\<lparr>storage := st\<rparr>) H"
  using pinv_frame [where w = w and a = "secondsLeft w" and b = "expiresAt w" and c = "storage w" and d = t]
    pinv_frame [where w = w and a = n and b = "expiresAt w" and c = "storage w" and d = "clock w"]
    pinv_frame [where w = w and a = "secondsLeft w" and b = "expiresAt w" and c = st and d = "clock w"]
  by simp_all

lemma pinv_storage: "pinv w H \<Longrightarrow> pinv (clearStored key w) H"
  by (simp add: clearStored_def pinv_store)

lemma acq_current_acquiring:
  assumes "pinv w H" "r \<in> set (requests w)" "acq_current w r"
  shows "acquiring w" "filter (acq_current w) (remove1 r (requests w)) = []"
proof -
  have r: "r \<in> set (filter (acq_current w) (requests w))"
    using assms(2,3) by simp
  then have "length (filter (acq_current w) (requests w)) \<noteq> 0"
    by (metis empty_iff empty_set length_0_conv)
  then show "acquiring w"
    using assms(1) unfolding pinv_def acq_ok_def by (metis of_bool_eq(1))
  then have "length (filter (acq_current w) (requests w)) = 1"
    using assms(1) by (simp add: pinv_def acq_ok_def)
  then have "filter (acq_current w) (requests w) = [r]"
    using r by (cases "filter (acq_current w) (requests w)") auto
  then show "filter (acq_current w) (remove1 r (requests w)) = []"
    by (simp add: filter_remove1)
qed

lemma wait_current_waits: "pinv w H \<Longrightarrow> r \<in> set (requests w) \<Longrightarrow> wait_current w r \<Longrightarrow> waits w"
  by (auto simp: pinv_def wait_ok_def list_ex_iff)

lemma waits_no_acq: "pinv w H \<Longrightarrow> waits w \<Longrightarrow> filter (acq_current w) (requests w) = []"
  by (simp add: pinv_def acq_ok_def acquiring_def waits_def)

lemma bounded_remove1: "list_all P rs \<Longrightarrow> list_all P (remove1 r rs)"
  by (meson list.pred_set notin_set_remove1)

lemma pinv_requests:
  assumes "pinv w H" "list_all (bounded w) rs" "list_all (for_code w) rs"
    "length (filter (acq_current w) rs) = length (filter (acq_current w) (requests w))"
    "list_ex (wait_current w) rs \<Longrightarrow> waits w" "waits w \<Longrightarrow> count_on w \<or> list_ex (is_last w) rs"
  shows "pinv (w\<lparr>requests := rs\<rparr>) H"
proof -
  let ?v = "w\<lparr>requests := rs\<rparr>"
  have cong: "acq_current ?v = acq_current w" "wait_current ?v = wait_current w" "is_last ?v = is_last w"
    "for_code ?v = for_code w" "bounded ?v = bounded w"
    by (rule acq_current_cong wait_cong; simp)+
  have flags: "waits ?v = waits w" "acquiring ?v = acquiring w" "committed ?v = committed w"
    "true_claim ?v H = true_claim w H"
    by (simp_all add: waits_def acquiring_def committed_def wait_deps_def storageKey_def true_claim_def)
  have "acq_ok ?v"
    using assms(1,4) by (simp add: pinv_def acq_ok_def cong flags)
  moreover have "wait_ok ?v"
    using assms(1,3,5,6) unfolding pinv_def wait_ok_def cong flags by simp
  ultimately show ?thesis
    using assms(1,2) by (simp add: pinv_def cong flags)
qed

lemma list_ex_remove1:
  "list_ex P (remove1 r rs) \<Longrightarrow> list_ex P rs" "\<not> P r \<Longrightarrow> list_ex P rs \<Longrightarrow> list_ex P (remove1 r rs)"
  by (metis list_ex_iff notin_set_remove1, metis in_set_remove1 list_ex_iff)

lemma pinv_parts:
  assumes "pinv w H"
  shows "list_all (bounded w) (requests w)" "list_all (for_code w) (requests w)"
    "list_ex (wait_current w) (requests w) \<Longrightarrow> waits w" "waits w \<Longrightarrow> count_on w \<or> list_ex (is_last w) (requests w)"
  using assms by (simp_all add: pinv_def wait_ok_def)

lemma pinv_drop:
  assumes "pinv w H" "\<not> acq_current w r" "\<not> is_last w r"
  shows "pinv (drop_request r w) H"
  unfolding drop_request_def
proof (rule pinv_requests [OF assms(1)])
  show "waits w" if "list_ex (wait_current w) (remove1 r (requests w))"
    using that pinv_parts(3) [OF assms(1)] list_ex_remove1(1) by metis
  show "count_on w \<or> list_ex (is_last w) (remove1 r (requests w))" if "waits w"
    using pinv_parts(4) [OF assms(1) that] list_ex_remove1(2) [of "is_last w" r] assms(3) by metis
qed (use pinv_parts(1,2) [OF assms(1)] assms(2) in \<open>simp_all add: bounded_remove1 filter_remove1 remove1_idem\<close>)

text \<open>An answer that ends the phase: what is left is stale, so any other phase but minting is settled by the commit.\<close>

lemma commit_next_phase:
  assumes "pinv w H" "mounted w" "filter (acq_current w) (requests v) = []" "list_all (bounded w) (requests v)"
    and "p_phase v \<noteq> p_phase w" "p_phase v \<noteq> Minting" "mounted v" "acq v = acq w" "wgen v = wgen w"
    and "last_wait v = last_wait w" "true_claim v H'"
  shows "pinv (commit v) H'"
proof (rule commit_pinv)
  show "list_all (bounded v) (requests v)"
    using assms(4,8,9) wait_cong(4) [of v w] by simp
  show "acq_ok v"
    using assms(3,6,8) acq_current_cong [of v w] by (simp add: acq_ok_def acquiring_def)
  have "last_wait w = Some (wait_deps w)"
    using assms(1,2) by (simp add: pinv_def committed_def)
  then show "wait_ok v" if "last_wait v = Some (wait_deps v)"
    using that assms(5,10) by (simp add: wait_deps_def)
qed (use assms in simp_all)

lemma pinv_start:
  assumes "pinv w H" "r \<in> set (requests w)" "acq_current w r" "w1 = drop_request r w"
  shows "pinv (commit (start (acq w) v (writeStored key v w1))) H" "pinv (commit (start (acq w) v w1)) H"
    "pinv (commit (w1\<lparr>p_phase := ErrorPhase\<rparr>)) H"
proof -
  have w: "mounted w" "p_phase w = Minting" "list_all (bounded w) (remove1 r (requests w))"
    "filter (acq_current w) (remove1 r (requests w)) = []"
    using acq_current_acquiring [OF assms(1-3)] assms(1) by (simp_all add: acquiring_def pinv_def bounded_remove1)
  show "pinv (commit (start (acq w) v (writeStored key v w1))) H" "pinv (commit (start (acq w) v w1)) H"
    "pinv (commit (w1\<lparr>p_phase := ErrorPhase\<rparr>)) H"
    by (rule commit_next_phase [OF assms(1)];
        use w in \<open>simp add: assms(4) start_def writeStored_def drop_request_def true_claim_def\<close>)+
qed

lemma pinv_again:
  assumes "pinv w H" "r \<in> set (requests w)" "acq_current w r \<longleftrightarrow> g = acq w" "g \<le> acq w" "\<not> is_last w r"
  shows "pinv (drop_request r w\<lparr>requests := MintReq g key # requests (drop_request r w)\<rparr>) H"
proof -
  have "length (filter (acq_current w) (MintReq g key # remove1 r (requests w))) =
      length (filter (acq_current w) (requests w))"
    using assms(2,3) length_pos_if_in_set [of r "filter (acq_current w) (requests w)"]
    by (cases "g = acq w") (simp_all add: filter_remove1 length_remove1 remove1_idem)
  then have "pinv (w\<lparr>requests := MintReq g key # remove1 r (requests w)\<rparr>) H"
  proof (rule pinv_requests [OF assms(1), rotated 2])
    show "waits w" if "list_ex (wait_current w) (MintReq g key # remove1 r (requests w))"
      using that pinv_parts(3) [OF assms(1)] list_ex_remove1(1) [of "wait_current w" r "requests w"] by simp
    show "count_on w \<or> list_ex (is_last w) (MintReq g key # remove1 r (requests w))" if "waits w"
      using pinv_parts(4) [OF assms(1) that] list_ex_remove1(2) [of "is_last w" r "requests w"] assms(5) by auto
  qed (use pinv_parts(1,2) [OF assms(1)] assms(4) in \<open>simp_all add: bounded_remove1\<close>)
  then show ?thesis
    by (simp add: drop_request_def)
qed

lemma pinv_clear_again:
  assumes "pinv w H" "r \<in> set (requests w)" "acq_current w r \<longleftrightarrow> g = acq w" "g \<le> acq w" "\<not> is_last w r"
  shows "pinv ((clearStored key (drop_request r w))\<lparr>requests :=
    MintReq g key # requests (clearStored key (drop_request r w))\<rparr>) H"
proof -
  have "(clearStored key (drop_request r w))\<lparr>requests := MintReq g key # requests (clearStored key (drop_request r w))\<rparr> =
      clearStored key (drop_request r w\<lparr>requests := MintReq g key # requests (drop_request r w)\<rparr>)"
    by (simp add: clearStored_def)
  then show ?thesis
    using pinv_storage [OF pinv_again [OF assms]] by simp
qed

lemma pinv_request_bounded: "pinv w H \<Longrightarrow> r \<in> set (requests w) \<Longrightarrow> bounded w r"
  by (auto simp: pinv_def list_all_iff)

text \<open>The end of the wait, with a device or without.\<close>

lemma pinv_wait_over:
  assumes "pinv w H" "r \<in> set (requests w)" "wait_current w r" "w1 = drop_request r w"
  shows "(p_code w, device_of uid name) \<in> H' \<Longrightarrow> pinv (commit (claimed key uid name w1)) H'"
    "pinv (commit (w1\<lparr>p_phase := Expired\<rparr>)) H"
proof -
  have w: "mounted w" "p_phase w = Waiting" "list_all (bounded w) (remove1 r (requests w))"
    "filter (acq_current w) (remove1 r (requests w)) = []"
    using wait_current_waits [OF assms(1-3)] waits_no_acq [OF assms(1)] assms(1)
    by (simp_all add: waits_def pinv_def bounded_remove1 filter_remove1)
  show "pinv (commit (claimed key uid name w1)) H'" if "(p_code w, device_of uid name) \<in> H'"
    by (rule commit_next_phase [OF assms(1)];
        use w that in \<open>simp add: assms(4) claimed_def clearStored_def drop_request_def true_claim_def device_of_def\<close>)
  show "pinv (commit (w1\<lparr>p_phase := Expired\<rparr>)) H"
    by (rule commit_next_phase [OF assms(1)]; use w in \<open>simp add: assms(4) drop_request_def true_claim_def\<close>)
qed

lemma pinv_history: "pinv w H \<Longrightarrow> pinv w (insert x H)"
  by (auto simp: pinv_def true_claim_def)

lemma wait_code: "pinv w H \<Longrightarrow> r \<in> set (requests w) \<Longrightarrow> wait_current w r \<Longrightarrow> for_code w r"
  by (auto simp: pinv_def wait_ok_def list_all_iff)

lemma pinv_props: "pinv w H \<Longrightarrow> mounted w \<Longrightarrow> pinv (set_props en tenant w) H"
proof -
  assume w: "pinv w H" "mounted w"
  let ?v = "w\<lparr>enabled := en, p_tenant := tenant\<rparr>"
  have cong: "acq_current ?v = acq_current w" "wait_current ?v = wait_current w" "is_last ?v = is_last w"
    "for_code ?v = for_code w" "bounded ?v = bounded w"
    by (rule acq_current_cong wait_cong; simp)+
  show ?thesis
    unfolding set_props_def
  proof (rule commit_pinv)
    show "acq_ok ?v" if "last_acq ?v = Some (enabled ?v, p_tenant ?v, nonce ?v)"
      using that w by (simp add: acq_ok_def acquiring_def pinv_def committed_def cong)
    show "wait_ok ?v" if "last_wait ?v = Some (wait_deps ?v)"
    proof -
      have "en = enabled w"
        using that w by (simp add: pinv_def committed_def wait_deps_def)
      then have "waits ?v = waits w"
        by (simp add: waits_def)
      then show ?thesis
        using w unfolding pinv_def wait_ok_def cong by simp
    qed
  qed (use w in \<open>simp_all add: pinv_def cong true_claim_def\<close>)
qed

lemma pinv_regenerate: "pinv w H \<Longrightarrow> mounted w \<Longrightarrow> pinv (regenerate w) H"
proof -
  assume "pinv w H" "mounted w"
  then have v: "pinv (clearStored (storageKey w) w) H" "mounted (clearStored (storageKey w) w)"
    using pinv_storage by (blast, simp add: clearStored_def)
  define v where "v = clearStored (storageKey w) w"
  let ?u = "v\<lparr>nonce := Suc (nonce v)\<rparr>"
  have cong: "acq_current ?u = acq_current v" "wait_current ?u = wait_current v" "is_last ?u = is_last v"
    "for_code ?u = for_code v" "bounded ?u = bounded v"
    by (rule acq_current_cong wait_cong; simp)+
  have same: "waits ?u = waits v"
    by (simp add: waits_def)
  have "pinv (commit ?u) H"
  proof (rule commit_pinv)
    show "acq_ok ?u" if "last_acq ?u = Some (enabled ?u, p_tenant ?u, nonce ?u)"
      using that v by (simp add: pinv_def committed_def flip: v_def)
    show "wait_ok ?u"
      using v(1) unfolding v_def [symmetric] pinv_def wait_ok_def cong same by simp
  qed (use v in \<open>simp_all add: pinv_def cong true_claim_def flip: v_def\<close>)
  then show ?thesis
    by (simp add: regenerate_def Let_def v_def)
qed

lemma pinv_unmount: "pinv w H \<Longrightarrow> pinv (unmount w) H"
proof -
  assume w: "pinv w H"
  let ?v = "unmount w"
  have "list_all (bounded ?v) (requests w)"
    using pinv_parts(1) [OF w] by (rule list_all_bounded_mono) (simp_all add: unmount_def)
  moreover have "filter (acq_current ?v) (requests w) = []" "list_all (for_code ?v) (requests w)"
    "\<not> list_ex (wait_current ?v) (requests w)"
    using pinv_parts(1) [OF w]
    by (auto simp: list_all_iff list_ex_iff filter_empty_conv unmount_def
        elim!: for_code.elims wait_current.elims acq_current.elims bounded.elims)
  ultimately show ?thesis
    using w by (simp add: pinv_def unmount_def acq_ok_def acquiring_def wait_ok_def waits_def committed_def true_claim_def)
qed

lemma pinv_count_tick: "pinv w H \<Longrightarrow> count_on w \<Longrightarrow> pinv (count_tick w) H"
proof -
  assume w: "pinv w H" "count_on w"
  define left where "left = seconds_until (expiresAt w) (clock w)"
  show ?thesis
  proof (cases "left > 0")
    case True
    then show ?thesis
      using pinv_seconds [OF w(1)] by (simp add: count_tick_def tick_def Let_def left_def)
  next
    case False
    let ?v = "w\<lparr>secondsLeft := left, count_on := False, requests := LastReq (wgen w) (p_code w) (storageKey w) # requests w\<rparr>"
    have cong: "acq_current ?v = acq_current w" "wait_current ?v = wait_current w" "is_last ?v = is_last w"
      "for_code ?v = for_code w" "bounded ?v = bounded w"
      by (rule acq_current_cong wait_cong; simp)+
    have "waits w"
      using w by (simp add: pinv_def wait_ok_def)
    then have "pinv ?v H"
      using w(1) unfolding pinv_def acq_ok_def wait_ok_def cong
      by (simp add: acquiring_def waits_def committed_def wait_deps_def storageKey_def true_claim_def)
    then show ?thesis
      using False by (simp add: count_tick_def tick_def Let_def left_def)
  qed
qed

lemma pinv_poll_tick: "pinv w H \<Longrightarrow> poll_on w \<Longrightarrow> pinv (poll_tick w) H"
  unfolding poll_tick_def
proof (rule pinv_requests)
  assume w: "pinv w H" "poll_on w"
  then show "waits w"
    by (simp add: pinv_def wait_ok_def)
  show "count_on w \<or> list_ex (is_last w) (PollReq (wgen w) (p_code w) (storageKey w) # requests w)" if "waits w"
    using pinv_parts(4) [OF w(1) that] by auto
qed (simp_all add: pinv_parts)

lemma pinv_mount: "pinv (useDevicePairingEnrollment en tenant st ok now) {}"
  unfolding useDevicePairingEnrollment_def by (rule commit_pinv) (simp_all add: true_claim_def)

lemma preach_pinv: "preach w H \<Longrightarrow> pinv w H"
proof (induction rule: preach.induct)
  case (minted w H g key code ttl)
  then show ?case
    using pinv_start(1) [OF minted.IH minted.hyps(2) _ refl] pinv_drop [OF minted.IH, of "MintReq g key"]
    by (cases "g = acq w") (simp_all add: mint_ok_def Let_def, simp_all add: drop_request_def)
next
  case (not_minted w H g key)
  then show ?case
    using pinv_start(3) [OF not_minted.IH not_minted.hyps(2) _ refl] pinv_drop [OF not_minted.IH, of "MintReq g key"]
    by (cases "g = acq w") (simp_all add: mint_error_def Let_def, simp_all add: drop_request_def)
next
  case (checked w H g key v accepted)
  then have "g \<le> acq w"
    using pinv_request_bounded by fastforce
  then have "pinv ((clearStored key (drop_request (ReuseReq g key v) w))\<lparr>requests :=
      MintReq g key # requests (clearStored key (drop_request (ReuseReq g key v) w))\<rparr>) H"
    using checked by (intro pinv_clear_again) simp_all
  then show ?case
    using pinv_start(2) [OF checked.IH checked.hyps(2) _ refl] pinv_drop [OF checked.IH, of "ReuseReq g key v"]
    by (cases "g = acq w"; cases accepted) (simp_all add: reuse_ok_def Let_def, simp_all add: drop_request_def)
next
  case (not_checked w H g key v)
  then have "g \<le> acq w"
    using pinv_request_bounded by fastforce
  then show ?case
    unfolding reuse_error_def Let_def using not_checked by (intro pinv_clear_again) simp_all
next
  case (last w H g code key accepted uid name)
  show ?case
  proof (cases "g = wgen w")
    case True
    then have "code = p_code w"
      using wait_code [OF last.IH last.hyps(2)] by simp
    then show ?thesis
      using True pinv_wait_over [OF last.IH last.hyps(2) _ refl]
      by (cases accepted) (simp_all add: last_ok_def Let_def, simp_all add: drop_request_def)
  next
    case False
    then show ?thesis
      using pinv_drop [OF last.IH, of "LastReq g code key"]
      by (simp add: last_ok_def Let_def pinv_history) (simp add: drop_request_def pinv_history)
  qed
next
  case (not_last w H g code key)
  then show ?case
    using pinv_wait_over(2) [OF not_last.IH not_last.hyps(2) _ refl] pinv_drop [OF not_last.IH, of "LastReq g code key"]
    by (cases "g = wgen w") (simp_all add: last_error_def Let_def, simp_all add: drop_request_def)
next
  case (polled w H g code key accepted uid name)
  show ?case
  proof (cases "g = wgen w \<and> accepted")
    case True
    then have "code = p_code w"
      using wait_code [OF polled.IH polled.hyps(2)] by simp
    then show ?thesis
      using True pinv_wait_over(1) [OF polled.IH polled.hyps(2) _ refl]
      by (simp add: poll_ok_def Let_def) (simp add: drop_request_def)
  next
    case False
    then show ?thesis
      using pinv_drop [OF polled.IH, of "PollReq g code key"]
      by (auto simp: poll_ok_def Let_def pinv_history) (simp_all add: drop_request_def pinv_history)
  qed
next
  case (not_polled w H g code key)
  then show ?case
    by (simp add: poll_error_def pinv_drop)
qed (simp_all add: pinv_mount pinv_props pinv_unmount pinv_regenerate pinv_count_tick pinv_poll_tick pinv_clock)

section \<open>Progress\<close>

lemma round_shown:
  assumes "last_acq w = Some (enabled w, p_tenant w, nonce w)"
  shows "p_phase (round_effects w) = p_phase w" "p_code (round_effects w) = p_code w"
    "p_device (round_effects w) = p_device w" "storage (round_effects w) = storage w"
  using assms by (cases "wait_deps w"; simp add: round_effects_def Let_def tick_def)+

text \<open>When nothing asks for a new code, a commit shows what was set.\<close>

lemma commit_shown:
  assumes "last_acq w = Some (enabled w, p_tenant w, nonce w)"
  shows "p_phase (commit w) = p_phase w" "p_code (commit w) = p_code w" "p_device (commit w) = p_device w"
    "storage (commit w) = storage w"
  using round_shown [OF assms] round_shown [of "round_effects w"] by (simp_all add: commit_def)

lemma pinv_committed: "pinv w H \<Longrightarrow> mounted w \<Longrightarrow> last_acq w = Some (enabled w, p_tenant w, nonce w)"
  by (simp add: pinv_def committed_def)

lemma minting_progress:
  assumes "pinv w H" "acquiring w"
  obtains key where "MintReq (acq w) key \<in> set (requests w)"
    "p_phase (mint_error (acq w) key w) = ErrorPhase"
    "\<And>code ttl. p_phase (mint_ok (acq w) key (Some code) ttl w) = Waiting \<and>
        p_code (mint_ok (acq w) key (Some code) ttl w) = code"
  | key v where "ReuseReq (acq w) key v \<in> set (requests w)"
    "MintReq (acq w) key \<in> set (requests (reuse_ok (acq w) key v True w))"
    "MintReq (acq w) key \<in> set (requests (reuse_error (acq w) key v w))"
    "p_phase (reuse_ok (acq w) key v False w) = Waiting" "p_code (reuse_ok (acq w) key v False w) = sc_code v"
proof -
  have "filter (acq_current w) (requests w) \<noteq> []"
    using assms by (auto simp: pinv_def acq_ok_def)
  then obtain r where r: "r \<in> set (requests w)" "acq_current w r"
    by (auto simp: filter_empty_conv)
  have c: "last_acq w = Some (enabled w, p_tenant w, nonce w)"
    using assms by (intro pinv_committed) (simp_all add: acquiring_def)
  show ?thesis
  proof (cases r)
    case (MintReq g key)
    with r show ?thesis
      by (intro that(1) [of key])
        (simp_all add: mint_error_def mint_ok_def Let_def drop_request_def start_def writeStored_def commit_shown c)
  next
    case (ReuseReq g key v)
    with r show ?thesis
      by (intro that(2) [of key v])
        (simp_all add: reuse_ok_def reuse_error_def Let_def drop_request_def start_def clearStored_def commit_shown c)
  qed (use r in simp_all)
qed

lemma last_check_ends:
  assumes "pinv w H" "LastReq (wgen w) code key \<in> set (requests w)"
  shows "p_phase (last_error (wgen w) code key w) = Expired"
    "p_phase (last_ok (wgen w) code key accepted uid name w) = (if accepted then Connected else Expired)"
proof -
  have "mounted w"
    using wait_current_waits [OF assms] by (simp add: waits_def)
  then have "last_acq w = Some (enabled w, p_tenant w, nonce w)"
    by (rule pinv_committed [OF assms(1)])
  then show "p_phase (last_error (wgen w) code key w) = Expired"
    "p_phase (last_ok (wgen w) code key accepted uid name w) = (if accepted then Connected else Expired)"
    by (simp_all add: last_error_def last_ok_def Let_def drop_request_def claimed_def clearStored_def commit_shown)
qed

lemma window_closed: "e \<le> now \<Longrightarrow> seconds_until e now = 0"
proof -
  assume "e \<le> now"
  then have "\<lceil>(e - now) / 1000\<rceil> \<le> 0"
    by (simp only: ceiling_le_zero) (simp add: divide_le_0_iff)
  then show ?thesis
    by (simp add: seconds_until_def)
qed

section \<open>Properties\<close>

text \<open>
  C9: the page reports a device only when the server said so. In every run, whatever was regenerated,
  however the namespace changed and in whatever order the answers came, a connected page shows a device
  that the server reported as accepted for exactly the code on the page.
\<close>

theorem enrollment_reports_real_device:
  assumes "preach w H" "p_phase w = Connected"
  shows "\<exists>d. p_device w = Some d \<and> (p_code w, d) \<in> H"
  using preach_pinv [OF assms(1)] assms(2) by (simp add: pinv_def true_claim_def)

text \<open>
  C17: the page is never stuck. While it is minting, exactly one request of the current attempt is under way
  and its answer leads on: to the new code, to the stored code, to the request of a new code, or to an
  error. While it waits, the countdown runs or the last check is under way; the first tick after the
  window has closed starts the last check, and every answer of that check ends the wait.
\<close>

theorem enrollment_never_stuck:
  assumes "preach w H" "mounted w" "enabled w"
  shows "(p_phase w = Minting \<longrightarrow> length (filter (acq_current w) (requests w)) = 1 \<and>
      ((\<exists>key. MintReq (acq w) key \<in> set (requests w) \<and> p_phase (mint_error (acq w) key w) = ErrorPhase \<and>
          (\<forall>code ttl. p_phase (mint_ok (acq w) key (Some code) ttl w) = Waiting \<and>
             p_code (mint_ok (acq w) key (Some code) ttl w) = code)) \<or>
       (\<exists>key v. ReuseReq (acq w) key v \<in> set (requests w) \<and>
          MintReq (acq w) key \<in> set (requests (reuse_ok (acq w) key v True w)) \<and>
          MintReq (acq w) key \<in> set (requests (reuse_error (acq w) key v w)) \<and>
          p_phase (reuse_ok (acq w) key v False w) = Waiting \<and>
          p_code (reuse_ok (acq w) key v False w) = sc_code v))) \<and>
    (p_phase w = Waiting \<longrightarrow> count_on w \<or> list_ex (is_last w) (requests w)) \<and>
    (count_on w \<and> expiresAt w \<le> clock w \<longrightarrow> list_ex (is_last (count_tick w)) (requests (count_tick w))) \<and>
    (LastReq (wgen w) code key \<in> set (requests w) \<longrightarrow>
      p_phase (last_error (wgen w) code key w) = Expired \<and>
      p_phase (last_ok (wgen w) code key accepted uid name w) = (if accepted then Connected else Expired))"
proof -
  have w: "pinv w H"
    by (rule preach_pinv [OF assms(1)])
  have minting: "(\<exists>key. MintReq (acq w) key \<in> set (requests w) \<and> p_phase (mint_error (acq w) key w) = ErrorPhase \<and>
        (\<forall>code ttl. p_phase (mint_ok (acq w) key (Some code) ttl w) = Waiting \<and>
           p_code (mint_ok (acq w) key (Some code) ttl w) = code)) \<or>
      (\<exists>key v. ReuseReq (acq w) key v \<in> set (requests w) \<and>
        MintReq (acq w) key \<in> set (requests (reuse_ok (acq w) key v True w)) \<and>
        MintReq (acq w) key \<in> set (requests (reuse_error (acq w) key v w)) \<and>
        p_phase (reuse_ok (acq w) key v False w) = Waiting \<and> p_code (reuse_ok (acq w) key v False w) = sc_code v)"
    if "acquiring w"
    by (rule minting_progress [OF w that]) blast+
  have "p_phase w = Minting \<Longrightarrow> acquiring w" "p_phase w = Waiting \<Longrightarrow> waits w"
    using assms(2,3) by (simp_all add: acquiring_def waits_def)
  moreover have "acquiring w \<Longrightarrow> length (filter (acq_current w) (requests w)) = 1"
    using w by (simp add: pinv_def acq_ok_def)
  moreover have "list_ex (is_last (count_tick w)) (requests (count_tick w))" if "expiresAt w \<le> clock w"
    by (simp add: count_tick_def tick_def Let_def window_closed [OF that])
  ultimately show ?thesis
    using minting pinv_parts(4) [OF w] last_check_ends [OF w] by simp
qed

text \<open>The storage keeps a code as it was written.\<close>

lemma read_written:
  assumes "storage_ok w" "code_units (sc_code v)" "decimal (sc_expiresAt v)"
  shows "readStored key (w\<lparr>storage := (storage w)(key \<mapsto> stringify (stored_json v))\<rparr>) = Some v"
proof -
  have "wf_json (stored_json v)"
    using assms(2,3) by (simp add: stored_json_def)
  then show ?thesis
    using assms(1) by (simp add: readStored_def) (simp add: stored_json_def js_def)
qed

lemma mount_reuses:
  assumes "st (STORAGE_PREFIX @ tenant) = Some (stringify (stored_json v))" "code_units (sc_code v)"
    "decimal (sc_expiresAt v)" "now < sc_expiresAt v"
  shows "requests (useDevicePairingEnrollment True tenant st True now) = [ReuseReq 1 (STORAGE_PREFIX @ tenant) v]"
    "acq (useDevicePairingEnrollment True tenant st True now) = 1"
    "p_phase (useDevicePairingEnrollment True tenant st True now) = Minting"
proof -
  have "readStored (STORAGE_PREFIX @ tenant) w = Some v" if "storage w = st" "storage_ok w" for w :: pairing
    using read_written [OF that(2) assms(2,3), of "STORAGE_PREFIX @ tenant"] assms(1) that by (simp add: readStored_def)
  then show "requests (useDevicePairingEnrollment True tenant st True now) = [ReuseReq 1 (STORAGE_PREFIX @ tenant) v]"
    "acq (useDevicePairingEnrollment True tenant st True now) = 1"
    "p_phase (useDevicePairingEnrollment True tenant st True now) = Minting"
    using assms(4)
    by (simp_all add: useDevicePairingEnrollment_def commit_def round_effects_def Let_def wait_deps_def acquire_def storageKey_def)
qed


section \<open>The properties at a concrete page\<close>

definition fresh_page :: pairing where
  "fresh_page = useDevicePairingEnrollment True [] (\<lambda>_. None) True 0"

definition waiting_page :: pairing where
  "waiting_page = mint_ok 1 STORAGE_PREFIX (Some [65]) (Some 600) fresh_page"

lemmas enrollment_defs = useDevicePairingEnrollment_def commit_def round_effects_def Let_def wait_deps_def
  acquire_def storageKey_def readStored_def mint_ok_def drop_request_def start_def writeStored_def tick_def
  seconds_until_def

lemma fresh_page_state:
  "requests fresh_page = [MintReq 1 STORAGE_PREFIX]" "acq fresh_page = 1" "p_phase fresh_page = Minting"
  "mounted fresh_page" "enabled fresh_page" "storage_ok fresh_page" "clock fresh_page = 0"
  by (simp_all add: fresh_page_def enrollment_defs)

lemma waiting_page_state:
  "requests waiting_page = []" "p_phase waiting_page = Waiting" "p_code waiting_page = [65]" "wgen waiting_page = 2"
  "poll_on waiting_page" "count_on waiting_page" "mounted waiting_page" "enabled waiting_page"
  by (simp_all add: waiting_page_def fresh_page_def enrollment_defs)

lemma waiting_page_reached: "preach waiting_page {}"
  unfolding waiting_page_def fresh_page_def
  by (rule preach.minted [OF preach.mount]) (simp add: fresh_page_state flip: fresh_page_def)

theorem enrollment_reports_real_device_witness:
  "\<exists>w. preach w {([65], device_of (Some [49]) (Some [50]))} \<and> p_phase w = Connected \<and>
     p_device w = Some (device_of (Some [49]) (Some [50]))"
proof -
  define key where "key = storageKey waiting_page"
  define w where "w = poll_ok 2 [65] key True (Some [49]) (Some [50]) (poll_tick waiting_page)"
  have "PollReq 2 [65] key \<in> set (requests (poll_tick waiting_page))"
    by (simp add: poll_tick_def waiting_page_state key_def)
  then have reach: "preach w {([65], device_of (Some [49]) (Some [50]))}"
    using preach.polled [OF preach.poll [OF waiting_page_reached waiting_page_state(5)], of 2 "[65]" key True]
    by (simp add: w_def)
  moreover have phase: "p_phase w = Connected"
  proof -
    have "last_acq waiting_page = Some (enabled waiting_page, p_tenant waiting_page, nonce waiting_page)"
      by (rule pinv_committed [OF preach_pinv [OF waiting_page_reached] waiting_page_state(7)])
    then show ?thesis
      by (simp add: w_def poll_ok_def Let_def drop_request_def poll_tick_def waiting_page_state claimed_def
          clearStored_def commit_shown)
  qed
  ultimately show ?thesis
    using enrollment_reports_real_device [OF reach phase] by auto
qed

theorem enrollment_never_stuck_witness:
  "count_on waiting_page \<or> list_ex (is_last waiting_page) (requests waiting_page)"
  using enrollment_never_stuck [OF waiting_page_reached waiting_page_state(7,8)] waiting_page_state(2) by blast


section \<open>A cancelled check removes the code of a newer one\<close>

text \<open>
  The failing check of a stored code clears the storage without asking whether its effect was cancelled.
  After \<open>regenerate\<close> has stored a new code, the late failure of the old check removes it: the page still
  shows the code, but a reload does not find it.
\<close>

lemma commit_keeps:
  "p_tenant (commit w) = p_tenant w" "mounted (commit w) = mounted w" "storage_ok (commit w) = storage_ok w"
  "r \<in> set (requests w) \<Longrightarrow> r \<in> set (requests (commit w))"
proof -
  have acq: "storage_ok (acquire v) = storage_ok v" "r \<in> set (requests v) \<Longrightarrow> r \<in> set (requests (acquire v))" for v
    by (simp_all add: acquire_def Let_def)
  have wait: "storage_ok (waiting_effects d v) = storage_ok v"
    "r \<in> set (requests v) \<Longrightarrow> r \<in> set (requests (waiting_effects d v))" for v d
    by (cases d; simp add: Let_def tick_def)+
  have "p_tenant (round_effects v) = p_tenant v" "storage_ok (round_effects v) = storage_ok v"
    "r \<in> set (requests v) \<Longrightarrow> r \<in> set (requests (round_effects v))" for v
    by (simp_all add: round_effects_def Let_def acq wait)
  then show "p_tenant (commit w) = p_tenant w" "mounted (commit w) = mounted w" "storage_ok (commit w) = storage_ok w"
    "r \<in> set (requests w) \<Longrightarrow> r \<in> set (requests (commit w))"
    by (simp_all add: commit_def)
qed

theorem late_check_clears_new_code:
  "\<exists>w. preach w {} \<and> mounted w \<and> storage_ok w \<and> p_phase w = Waiting \<and> p_code w = [66] \<and> storage w (storageKey w) = None"
proof -
  define old where "old = \<lparr>sc_code = [65], sc_expiresAt = 600000\<rparr>"
  define st where "st = (\<lambda>_. None)(STORAGE_PREFIX := Some (stringify (stored_json old)))"
  define w0 where "w0 = useDevicePairingEnrollment True [] st True 0"
  have stored: "st (STORAGE_PREFIX @ []) = Some (stringify (stored_json old))"
    by (simp add: st_def)
  have w0: "requests w0 = [ReuseReq 1 STORAGE_PREFIX old]" "acq w0 = 1" "p_phase w0 = Minting"
    unfolding w0_def using mount_reuses [of st "[]" old 0] stored by (simp_all add: old_def code_units_def)
  have fields: "mounted w0" "enabled w0" "p_tenant w0 = []" "storage_ok w0" "clock w0 = 0" "nonce w0 = 0"
    "last_acq w0 = Some (True, [], 0)" "p_code w0 = []"
    by (simp_all add: w0_def useDevicePairingEnrollment_def commit_def round_effects_def Let_def wait_deps_def acquire_def)
  define w1 where "w1 = regenerate w0"
  have w1: "requests w1 = [MintReq 2 STORAGE_PREFIX, ReuseReq 1 STORAGE_PREFIX old]" "acq w1 = 2"
    "mounted w1" "enabled w1" "p_tenant w1 = []" "storage_ok w1" "last_acq w1 = Some (True, [], 1)" "nonce w1 = 1"
    using w0 fields
    by (simp_all add: w1_def regenerate_def clearStored_def commit_def round_effects_def Let_def wait_deps_def
        acquire_def storageKey_def readStored_def)
  define w2 where "w2 = mint_ok 2 STORAGE_PREFIX (Some [66]) (Some 600) w1"
  have shown: "p_phase w2 = Waiting" "p_code w2 = [66]"
    by (simp_all add: w2_def mint_ok_def Let_def drop_request_def start_def writeStored_def commit_shown w1)
  have w2: "ReuseReq 1 STORAGE_PREFIX old \<in> set (requests w2)" "mounted w2" "storage_ok w2" "p_tenant w2 = []"
    by (simp_all add: w2_def w1 mint_ok_def Let_def drop_request_def start_def writeStored_def commit_keeps)
  define w3 where "w3 = reuse_error 1 STORAGE_PREFIX old w2"
  have "preach w2 {}"
    unfolding w2_def w1_def w0_def
    by (intro preach.minted preach.again preach.mount) (simp_all add: w1 fields flip: w0_def w1_def)
  then have "preach w3 {}"
    unfolding w3_def by (rule preach.not_checked [OF _ w2(1)])
  moreover have "mounted w3 \<and> storage_ok w3 \<and> p_phase w3 = Waiting \<and> p_code w3 = [66] \<and> storage w3 (storageKey w3) = None"
    using w2 shown by (simp add: w3_def reuse_error_def Let_def clearStored_def drop_request_def storageKey_def)
  ultimately show ?thesis
    by blast
qed

end
