(* ===== verification/InstallKeys.thy ===== *)
theory InstallKeys
  imports JsBase
begin

text \<open>
  The install keys: \<open>pages/install-keys/helpers.ts\<close>, \<open>pages/install-keys/constants.ts\<close> and the
  switch of \<open>pages/install-keys/useToggleInstallKey.ts\<close>. Reading a date (\<open>getTime\<close>), the number of
  calendar days between two dates and the printing of a date are parameters, as is the protocol a
  string has when it parses as a URL.
\<close>

section \<open>Keys\<close>

record install_key =
  ik_id :: jsstring
  ik_name :: jsstring
  ik_type :: jsstring
  ik_revoked :: "bool option"
  ik_disabled :: "bool option"
  ik_expires_at :: "jsstring option"
  usage_limit :: int
  used_times :: int

definition isSystemKey :: "install_key \<Rightarrow> bool" where
  "isSystemKey k \<longleftrightarrow> ik_type k = js ''legacy'' \<or> ik_type k = js ''pairing''"

definition isPairingKey :: "install_key \<Rightarrow> bool" where
  "isPairingKey k \<longleftrightarrow> ik_type k = js ''pairing''"

definition installKeyDisplayName :: "install_key \<Rightarrow> jsstring" where
  "installKeyDisplayName k =
     (if isPairingKey k then js ''Pairing code''
      else if isSystemKey k then js ''Tenant-only registration''
      else ik_name k)"

datatype enrollment_source = LegacySource | PairingSource | KeySource jsstring

definition resolveEnrollmentSource :: "jsstring option \<Rightarrow> install_key list \<Rightarrow> enrollment_source option" where
  "resolveEnrollmentSource installKeyId keys =
     (case installKeyId of
        None \<Rightarrow> None
      | Some i \<Rightarrow>
          if i = [] then None
          else case find (\<lambda>k. ik_id k = i) keys of
            None \<Rightarrow> None
          | Some k \<Rightarrow> Some (if isSystemKey k then (if isPairingKey k then PairingSource else LegacySource)
                            else KeySource (ik_name k)))"

section \<open>The form\<close>

definition parseAllowedMacs :: "jsstring \<Rightarrow> jsstring list" where
  "parseAllowedMacs t = dedupe (filter (\<lambda>m. m \<noteq> []) (map (\<lambda>line. toLower (trim line)) (split_on 10 t)))"

definition name_char :: "nat \<Rightarrow> bool" where
  "name_char c \<longleftrightarrow> is_lower c \<or> is_upper c \<or> is_digit c \<or> c = 95 \<or> c = 45"

definition validateName :: "jsstring \<Rightarrow> jsstring" where
  "validateName v =
     (if length v < 3 then js ''Name must be at least 3 characters.''
      else if length v > 20 then js ''Name must be at most 20 characters.''
      else if \<not> list_all name_char v then js ''Name can only contain letters, numbers, - and _.''
      else [])"

definition TIMEOUT_MIN :: int where "TIMEOUT_MIN = 1"
definition TIMEOUT_MAX :: int where "TIMEOUT_MAX = 15"
definition WINDOW_MIN_H :: int where "WINDOW_MIN_H = 1"
definition WINDOW_MAX_H :: int where "WINDOW_MAX_H = 24"

definition isWebhookUrl :: "(jsstring \<Rightarrow> jsstring option) \<Rightarrow> jsstring \<Rightarrow> bool" where
  "isWebhookUrl protocol v \<longleftrightarrow> protocol (trim v) = Some (js ''http:'') \<or> protocol (trim v) = Some (js ''https:'')"

definition round_half_up :: "rat \<Rightarrow> int" where
  "round_half_up q = \<lfloor>q + 1 / 2\<rfloor>"

record mode_options =
  secretOptional :: bool
  webhookTimeout :: "rat option"
  webhookCallbackTtl :: "rat option"

definition outside :: "rat \<Rightarrow> int \<Rightarrow> int \<Rightarrow> bool" where
  "outside q lo hi \<longleftrightarrow> q < of_int lo \<or> q > of_int hi"

definition validateModeConfig ::
  "(jsstring \<Rightarrow> jsstring option) \<Rightarrow> jsstring \<Rightarrow> jsstring \<Rightarrow> jsstring \<Rightarrow> jsstring list \<Rightarrow> mode_options \<Rightarrow> jsstring" where
  "validateModeConfig protocol mode webhookUrl webhookSecret macs opt =
     (let webhook =
        (if mode \<noteq> js ''webhook'' then []
         else if \<not> isWebhookUrl protocol webhookUrl then js ''Webhook URL must be an http or https URL.''
         else if webhookSecret = [] \<and> \<not> secretOptional opt then js ''A signing secret is required for webhook mode.''
         else if (case webhookTimeout opt of None \<Rightarrow> False | Some t \<Rightarrow> outside t TIMEOUT_MIN TIMEOUT_MAX)
         then js ''Reply timeout must be '' @ int_text TIMEOUT_MIN @ [8211] @ int_text TIMEOUT_MAX @ js '' seconds.''
         else if (case webhookCallbackTtl opt of None \<Rightarrow> False
                  | Some t \<Rightarrow> outside (of_int (round_half_up (t / 3600))) WINDOW_MIN_H WINDOW_MAX_H)
         then js ''Callback window must be '' @ int_text WINDOW_MIN_H @ [8211] @ int_text WINDOW_MAX_H @ js '' hours.''
         else [])
      in if webhook \<noteq> [] then webhook
         else if mode = js ''allowlist'' \<and> macs = [] then js ''Add at least one MAC address for allowlist mode.''
         else [])"

section \<open>The state of a key\<close>

definition isInstallKeyExpired :: "(jsstring \<Rightarrow> jsnum) \<Rightarrow> rat \<Rightarrow> install_key \<Rightarrow> bool" where
  "isInstallKeyExpired getTime now k = (case ik_expires_at k of None \<Rightarrow> False | Some e \<Rightarrow> num_le (getTime e) now)"

record key_blockers =
  revoked :: bool
  disabled :: bool
  expired :: bool
  overused :: bool
  inert :: bool

definition getKeyBlockers :: "(jsstring \<Rightarrow> jsnum) \<Rightarrow> rat \<Rightarrow> install_key \<Rightarrow> key_blockers" where
  "getKeyBlockers getTime now k =
     (let r = (ik_revoked k = Some True); d = (ik_disabled k = Some True); e = isInstallKeyExpired getTime now k;
          ov = (usage_limit k > 0 \<and> used_times k \<ge> usage_limit k)
      in \<lparr>revoked = r, disabled = d, expired = e, overused = ov, inert = (r \<or> d \<or> e \<or> ov)\<rparr>)"

datatype usage_kind = Single | Limited | Unlimited

record usage_info =
  u_kind :: usage_kind
  u_used :: int
  u_limit :: int
  u_ratio :: rat
  u_exhausted :: bool

definition getUsageInfo :: "install_key \<Rightarrow> usage_info" where
  "getUsageInfo k =
     (if usage_limit k = 0
      then \<lparr>u_kind = Unlimited, u_used = used_times k, u_limit = 0, u_ratio = 0, u_exhausted = False\<rparr>
      else \<lparr>u_kind = (if usage_limit k = 1 then Single else Limited), u_used = used_times k, u_limit = usage_limit k,
            u_ratio = min 1 (of_int (used_times k) / of_int (usage_limit k)),
            u_exhausted = (used_times k \<ge> usage_limit k)\<rparr>)"

text \<open>The number of days of the form: a positive one is sent, any other means that the key does not expire.\<close>

definition positive_days :: "jsstring \<Rightarrow> jsnum option" where
  "positive_days expiresIn = (if num_gt (toNumber expiresIn) 0 then Some (toNumber expiresIn) else None)"

text \<open>\<open>None\<close> is the object without the member.\<close>

definition keyExpiryPayload :: "jsstring \<Rightarrow> jsnum option" where
  "keyExpiryPayload = positive_days"

text \<open>\<open>None\<close> is \<open>null\<close>.\<close>

definition keyExpiryUpdatePayload :: "jsstring \<Rightarrow> jsnum option" where
  "keyExpiryUpdatePayload = positive_days"

definition getRemainingDays ::
  "(jsstring \<Rightarrow> jsnum) \<Rightarrow> (jsstring \<Rightarrow> int) \<Rightarrow> rat \<Rightarrow> jsstring option \<Rightarrow> jsstring \<times> bool" where
  "getRemainingDays getTime daysUntil now expiresAt =
     (case expiresAt of
        None \<Rightarrow> (js ''-1'', False)
      | Some e \<Rightarrow>
          if daysUntil e < 1 then (js ''1'', num_le (getTime e) now)
          else (int_text (daysUntil e), False))"

datatype expiry_tone = Muted | NormalTone | Warning | Danger

definition getExpiryInfo ::
  "(jsstring \<Rightarrow> jsnum) \<Rightarrow> (jsstring \<Rightarrow> int) \<Rightarrow> (jsstring \<Rightarrow> jsstring) \<Rightarrow> rat \<Rightarrow> jsstring option \<Rightarrow> jsstring \<times> expiry_tone" where
  "getExpiryInfo getTime daysUntil print now expiresAt =
     (case expiresAt of
        None \<Rightarrow> (js ''Never'', Muted)
      | Some e \<Rightarrow>
          if num_le (getTime e) now then (print e, Danger)
          else (print e, if daysUntil e \<le> 7 then Warning else NormalTone))"

section \<open>Modes and the switch\<close>

record mode_info =
  mi_label :: jsstring
  mi_summary :: jsstring
  mi_description :: jsstring

definition MODE_INFO :: "(jsstring \<times> mode_info) list" where
  "MODE_INFO =
     [(js ''automatic'', \<lparr>mi_label = js ''Automatic'', mi_summary = js ''Auto-accepts'',
        mi_description = js ''Accept every device that registers with this key.''\<rparr>),
      (js ''manual'', \<lparr>mi_label = js ''Manual'', mi_summary = js ''Manual review'',
        mi_description = js ''Leave registered devices pending for you to review and accept.''\<rparr>),
      (js ''webhook'', \<lparr>mi_label = js ''Webhook'', mi_summary = js ''Endpoint decides'',
        mi_description = js ''Ask your endpoint at registration whether to accept, reject, or leave the device pending.''\<rparr>),
      (js ''allowlist'', \<lparr>mi_label = js ''MAC allowlist'', mi_summary = js ''Accepts listed MACs'',
        mi_description = js ''Accept a device only when its MAC is on the list below; reject the rest.''\<rparr>)]"

definition modeInfo :: "jsstring \<Rightarrow> mode_info" where
  "modeInfo mode = (case map_of MODE_INFO mode of Some i \<Rightarrow> i | None \<Rightarrow> the (map_of MODE_INFO (js ''automatic'')))"

text \<open>The update of the server is a parameter: given the name and the flag it succeeds or fails.\<close>

definition toggle :: "(jsstring \<Rightarrow> bool \<Rightarrow> 's \<Rightarrow> bool \<times> 's) \<Rightarrow> install_key \<Rightarrow> 's \<Rightarrow> jsstring option \<times> 's" where
  "toggle update k s =
     (case update (ik_name k) (ik_disabled k \<noteq> Some True) s of
        (True, s') \<Rightarrow> (None, s')
      | (False, s') \<Rightarrow> (Some (js ''Failed to '' @ (if ik_disabled k = Some True then js ''enable'' else js ''disable'') @
            js '' Install Key.''), s'))"

section \<open>Lemmas\<close>

lemma toLower_in: "c \<in> set (toLower s) \<Longrightarrow> \<not> is_upper c \<and> (c \<in> set s \<or> is_lower c)"
  by (auto simp: toLower_def char_class_defs split: if_splits)

lemma trim_toLower_trim: "trim (toLower (trim s)) = toLower (trim s)"
proof (rule trim_id)
  have keep: "is_space (if is_upper c then c + 32 else c) \<longleftrightarrow> is_space c" for c
    by (auto simp: char_class_defs)
  show "toLower (trim s) = [] \<or> \<not> is_space (hd (toLower (trim s))) \<and> \<not> is_space (last (toLower (trim s)))"
  proof (cases "trim s = []")
    case False
    then show ?thesis
      using trim_hd [OF False] trim_last [OF False] by (simp add: toLower_def hd_map last_map keep)
  qed (simp add: toLower_def)
qed

lemma parsed_mac: "m \<in> set (parseAllowedMacs t) \<Longrightarrow> m \<noteq> [] \<and> toLower (trim m) = m \<and> 10 \<notin> set m"
  using split_on_no_sep [of _ 10 t] set_trim toLower_in [of 10]
  by (auto simp: parseAllowedMacs_def trim_toLower_trim is_lower_def dest!: toLower_in [of 10])

text \<open>
  The list of MAC addresses is canonical: the text of the parsed list, one address per line, parses to
  the same list, which has no blank and no repeated address.
\<close>

theorem allowed_macs_canonical:
  "parseAllowedMacs (join [10] (parseAllowedMacs t)) = parseAllowedMacs t \<and> distinct (parseAllowedMacs t) \<and>
   list_all (\<lambda>m. m \<noteq> [] \<and> toLower (trim m) = m) (parseAllowedMacs t)"
proof -
  let ?ms = "parseAllowedMacs t"
  have "parseAllowedMacs (join [10] ?ms) = ?ms"
  proof (cases "?ms = []")
    case True
    then show ?thesis
      unfolding True by (simp add: parseAllowedMacs_def toLower_def)
  next
    case False
    then have "split_on 10 (join [10] ?ms) = ?ms"
      using parsed_mac by (intro split_on_join) auto
    then have "parseAllowedMacs (join [10] ?ms) = dedupe (filter (\<lambda>m. m \<noteq> []) (map (\<lambda>line. toLower (trim line)) ?ms))"
      by (simp add: parseAllowedMacs_def [of "join [10] ?ms"])
    also have "map (\<lambda>line. toLower (trim line)) ?ms = ?ms"
      using parsed_mac by (intro map_idI) auto
    also have "filter (\<lambda>m. m \<noteq> []) ?ms = ?ms"
      using parsed_mac by (intro filter_True) auto
    finally show ?thesis
      by (simp add: parseAllowedMacs_def)
  qed
  moreover have "distinct ?ms"
    by (simp add: parseAllowedMacs_def)
  ultimately show ?thesis
    using parsed_mac by (auto simp: list_all_iff)
qed

text \<open>The meter and the badge agree on a key that is used up.\<close>

lemma usage_agrees:
  assumes "0 \<le> usage_limit k" "0 \<le> used_times k"
  shows "u_exhausted (getUsageInfo k) = overused (getKeyBlockers getTime now k)"
    "0 \<le> u_ratio (getUsageInfo k)" "u_ratio (getUsageInfo k) \<le> 1"
    "u_ratio (getUsageInfo k) = 1 \<longleftrightarrow> u_exhausted (getUsageInfo k)"
  using assms by (auto simp: getUsageInfo_def getKeyBlockers_def Let_def min_def divide_le_eq le_divide_eq)

text \<open>
  Saving the expiry of a key unchanged sends the days it still has, one day when it has less, and none
  for a key without a deadline.
\<close>

lemma expiry_saved_unchanged:
  "keyExpiryUpdatePayload (fst (getRemainingDays getTime daysUntil now expiresAt)) =
     (case expiresAt of None \<Rightarrow> None | Some e \<Rightarrow> Some (Fin (of_int (max 1 (daysUntil e)))))"
proof -
  have minus: "toNumber (js ''-1'') = Fin (- 1)"
    by (simp add: toNumber_def js_def trim_id is_space_def startsWith_def signed_prefix_def unsigned_decimal_def
        exponent_part_def digits_val_def pow10_def is_digit_def Let_def)
  have one: "toNumber (js ''1'') = Fin 1"
    by (simp add: toNumber_def js_def trim_id is_space_def startsWith_def signed_prefix_def unsigned_decimal_def
        exponent_part_def digits_val_def pow10_def is_digit_def Let_def)
  have "toNumber (int_text n) = Fin (of_int n)" if "1 \<le> n" for n
    using that toNumber_nat_text [of "nat n"] by (simp add: int_text_def)
  then show ?thesis
    by (simp add: keyExpiryUpdatePayload_def positive_days_def getRemainingDays_def minus one max_def split: option.split)
qed

text \<open>What a configuration that passes the check has.\<close>

lemma mode_config_valid:
  assumes "validateModeConfig protocol mode url secret macs opt = []"
  shows "mode = js ''webhook'' \<Longrightarrow> isWebhookUrl protocol url \<and> (secret \<noteq> [] \<or> secretOptional opt)"
    "mode = js ''webhook'' \<Longrightarrow> webhookTimeout opt = Some t \<Longrightarrow> 1 \<le> t \<and> t \<le> 15"
    "mode = js ''webhook'' \<Longrightarrow> webhookCallbackTtl opt = Some t \<Longrightarrow> 1800 \<le> t \<and> t < 88200"
    "mode = js ''allowlist'' \<Longrightarrow> macs \<noteq> []"
proof -
  note defs = validateModeConfig_def Let_def outside_def TIMEOUT_MIN_def TIMEOUT_MAX_def WINDOW_MIN_H_def WINDOW_MAX_H_def
  show "mode = js ''webhook'' \<Longrightarrow> isWebhookUrl protocol url \<and> (secret \<noteq> [] \<or> secretOptional opt)"
    "mode = js ''allowlist'' \<Longrightarrow> macs \<noteq> []"
    "mode = js ''webhook'' \<Longrightarrow> webhookTimeout opt = Some t \<Longrightarrow> 1 \<le> t \<and> t \<le> 15"
    using assms by (auto simp: defs split: if_splits)
  assume m: "mode = js ''webhook''" "webhookCallbackTtl opt = Some t"
  then have "1 \<le> round_half_up (t / 3600)" "round_half_up (t / 3600) \<le> 24"
    using assms by (auto simp: defs split: if_splits)
  then show "1800 \<le> t \<and> t < 88200"
    by (simp add: round_half_up_def le_floor_iff floor_le_iff field_simps)
qed

end
