(* ===== verification/Navigation.thy ===== *)
theory Navigation
  imports Codec
begin

unbundle bit_operations_syntax

text \<open>
  The small utilities of the console: the redirect after the login and the pending device code
  (\<open>utils/navigation.ts\<close>), \<open>utils/url.ts\<close>, \<open>utils/welcomeState.ts\<close>, \<open>utils/random-uuid.ts\<close>,
  \<open>utils/string.ts\<close>, \<open>utils/sshid.ts\<close>, \<open>utils/installCommand.ts\<close>, \<open>utils/pagination.ts\<close>,
  \<open>utils/session.ts\<close>, \<open>utils/stats.ts\<close>, \<open>utils/invitations.ts\<close>, \<open>utils/deviceTags.ts\<close>,
  \<open>utils/license.ts\<close>, \<open>utils/date.ts\<close> and \<open>utils/stripeErrors.ts\<close>. The functions of the date library,
  the reading of a date and of a URL and the host name of the page are parameters.
\<close>

section \<open>Redirects and the pending device code\<close>

type_synonym storage = "jsstring \<Rightarrow> jsstring option"

definition PENDING_DEVICE_CODE_KEY :: jsstring where
  "PENDING_DEVICE_CODE_KEY = js ''shellhub:pending-device-code''"

definition setPendingDeviceCode :: "jsstring \<Rightarrow> storage \<Rightarrow> storage" where
  "setPendingDeviceCode code ls = ls(PENDING_DEVICE_CODE_KEY \<mapsto> code)"

definition clearPendingDeviceCode :: "storage \<Rightarrow> storage" where
  "clearPendingDeviceCode ls = ls(PENDING_DEVICE_CODE_KEY := None)"

definition hasPendingDeviceCode :: "storage \<Rightarrow> bool" where
  "hasPendingDeviceCode ls \<longleftrightarrow> ls PENDING_DEVICE_CODE_KEY \<noteq> None"

definition consumePendingDeviceCode :: "storage \<Rightarrow> jsstring option \<times> storage" where
  "consumePendingDeviceCode ls =
     (let code = ls PENDING_DEVICE_CODE_KEY
      in (code, if code \<noteq> None \<and> code \<noteq> Some [] then clearPendingDeviceCode ls else ls))"

definition DASHBOARD :: jsstring where
  "DASHBOARD = js ''/dashboard''"

definition getSafeRedirect :: "(jsstring \<times> jsstring) list \<Rightarrow> jsstring \<Rightarrow> jsstring" where
  "getSafeRedirect params fallback =
     (case map_of params (js ''redirect'') of
        None \<Rightarrow> fallback
      | Some raw \<Rightarrow>
          if raw \<noteq> [] \<and> startsWith raw [47] \<and> \<not> startsWith raw [47, 47] \<and> \<not> startsWith raw [47, 92]
          then raw else fallback)"

text \<open>\<open>encodeURIComponent\<close>, which throws for a lone surrogate.\<close>

definition uri_unreserved :: "nat \<Rightarrow> bool" where
  "uri_unreserved c \<longleftrightarrow> is_lower c \<or> is_upper c \<or> is_digit c \<or> c \<in> {45, 95, 46, 33, 126, 42, 39, 40, 41}"

definition upper_hex :: "nat \<Rightarrow> nat" where
  "upper_hex d = (if d < 10 then 48 + d else 55 + d)"

definition percent :: "nat \<Rightarrow> jsstring" where
  "percent b = [37, upper_hex (b div 16), upper_hex (b mod 16)]"

definition encodeURIComponent :: "jsstring \<Rightarrow> exn + jsstring" where
  "encodeURIComponent s =
     (if \<not> well_formed s then Inl (OtherThrow (js ''URIError: URI malformed''))
      else Inr (concat (map (\<lambda>b. if uri_unreserved b then [b] else percent b) (utf8_units s))))"

definition resolvePostLoginRedirect :: "(jsstring \<times> jsstring) list \<Rightarrow> (storage, jsstring) io" where
  "resolvePostLoginRedirect params = (\<lambda>ls.
     let redirect = getSafeRedirect params DASHBOARD in
     if redirect \<noteq> DASHBOARD then (Inr redirect, ls)
     else
       let (pending, ls') = consumePendingDeviceCode ls in
       case pending of
         None \<Rightarrow> (Inr redirect, ls')
       | Some code \<Rightarrow>
           if code = [] then (Inr redirect, ls')
           else case encodeURIComponent code of
             Inl e \<Rightarrow> (Inl e, ls')
           | Inr t \<Rightarrow> (Inr (js ''/accept-device?code='' @ t), ls'))"

definition isAllowedUrl :: "(jsstring \<Rightarrow> jsstring option) \<Rightarrow> jsstring \<Rightarrow> bool" where
  "isAllowedUrl protocol url = (case protocol url of
      None \<Rightarrow> False
    | Some p \<Rightarrow> p \<in> {js ''http:'', js ''https:'', js ''mailto:''})"

section \<open>The welcome wizard\<close>

definition welcome_key :: "jsstring \<Rightarrow> jsstring" where
  "welcome_key tenantId = js ''shellhub:welcomed:'' @ tenantId"

text \<open>\<open>ok\<close> says whether the storage can be used; both functions catch what it throws.\<close>

definition hasSeenWelcome :: "bool \<Rightarrow> jsstring \<Rightarrow> storage \<Rightarrow> bool" where
  "hasSeenWelcome ok tenantId ls \<longleftrightarrow> ok \<and> ls (welcome_key tenantId) = Some (js ''true'')"

definition markWelcomeSeen :: "bool \<Rightarrow> jsstring \<Rightarrow> storage \<Rightarrow> storage" where
  "markWelcomeSeen ok tenantId ls = (if ok then ls(welcome_key tenantId \<mapsto> js ''true'') else ls)"

section \<open>Random UUIDs\<close>

definition uuid_template :: jsstring where
  "uuid_template = js ''10000000-1000-4000-8000-100000000000''"

text \<open>The digit for a template digit \<open>n\<close> and a random byte.\<close>

definition uuid_digit :: "nat \<Rightarrow> nat \<Rightarrow> nat" where
  "uuid_digit n r = n XOR (r AND (15 div 2 ^ (n div 4)))"

text \<open>\<open>rnd k\<close> is the byte of the \<open>k\<close>-th call of \<open>getRandomValues\<close>.\<close>

fun uuid_fill :: "(nat \<Rightarrow> nat) \<Rightarrow> nat \<Rightarrow> jsstring \<Rightarrow> jsstring" where
  "uuid_fill rnd k [] = []"
| "uuid_fill rnd k (c # cs) =
     (if c \<in> {48, 49, 56} then hex_char (uuid_digit (c - 48) (rnd k)) # uuid_fill rnd (Suc k) cs
      else c # uuid_fill rnd k cs)"

definition generateRandomUUID :: "jsstring option \<Rightarrow> (nat \<Rightarrow> nat) \<Rightarrow> jsstring" where
  "generateRandomUUID native rnd = (case native of Some u \<Rightarrow> u | None \<Rightarrow> uuid_fill rnd 0 uuid_template)"

section \<open>Text\<close>

definition initials_separator :: "nat \<Rightarrow> bool" where
  "initials_separator c \<longleftrightarrow> is_space c \<or> c \<in> {45, 95, 64, 46}"

definition getInitials :: "jsstring \<Rightarrow> jsstring" where
  "getInitials name = concat (map (\<lambda>w. toUpper (take 1 w)) (take 2 (split_runs initials_separator False name)))"

definition buildSshid :: "jsstring \<Rightarrow> jsstring \<Rightarrow> jsstring \<Rightarrow> jsstring" where
  "buildSshid hostname namespace deviceName = namespace @ js ''.'' @ deviceName @ js ''@'' @ hostname"

definition buildInstallCommand :: "jsstring \<Rightarrow> jsstring \<Rightarrow> jsstring" where
  "buildInstallCommand credential serverAddress = join [10]
     [js ''curl -sSf '' @ serverAddress @ js ''/install.sh | '' @ [92],
      js ''        '' @ credential @ js '' '' @ [92],
      js ''        sh'']"

definition PER_PAGE :: nat where
  "PER_PAGE = 10"

definition pageCount :: "nat \<Rightarrow> nat \<Rightarrow> nat" where
  "pageCount totalCount perPage = nat \<lceil>of_nat totalCount / of_nat perPage :: rat\<rceil>"

definition sessionType :: "jsstring list option \<Rightarrow> (jsstring \<times> jsstring) option" where
  "sessionType types0 =
     (let types = (case types0 of None \<Rightarrow> [] | Some ts \<Rightarrow> ts) in
      if js ''subsystem'' \<in> set types
      then Some (js ''sftp'', js ''text-accent-cyan bg-accent-cyan/10 border-accent-cyan/20'')
      else if js ''exec'' \<in> set types
      then Some (js ''exec'', js ''text-accent-yellow bg-accent-yellow/10 border-accent-yellow/20'')
      else if js ''shell'' \<in> set types \<or> js ''pty-req'' \<in> set types
      then Some (js ''shell'', js ''text-primary bg-primary/10 border-primary/20'')
      else None)"

text \<open>A tag is an object with a name, or a value that is printed.\<close>

datatype device_tag = NamedTag jsstring | PrintedTag jsstring

definition normalizeDeviceTags :: "device_tag list option \<Rightarrow> jsstring list" where
  "normalizeDeviceTags tags = (case tags of
      None \<Rightarrow> []
    | Some ts \<Rightarrow> map (\<lambda>t. case t of NamedTag n \<Rightarrow> n | PrintedTag s \<Rightarrow> s) ts)"

section \<open>Numbers of devices and invitations\<close>

record device_stats =
  registered_devices :: "int option"
  pending_devices :: "int option"
  rejected_devices :: "int option"

definition some_positive :: "int option \<Rightarrow> bool" where
  "some_positive n = (case n of None \<Rightarrow> False | Some k \<Rightarrow> k > 0)"

definition hasAnyDevices :: "device_stats option \<Rightarrow> bool" where
  "hasAnyDevices stats = (case stats of
      None \<Rightarrow> False
    | Some s \<Rightarrow> some_positive (registered_devices s) \<or> some_positive (pending_devices s) \<or> some_positive (rejected_devices s))"

definition hasAcceptedDevices :: "device_stats option \<Rightarrow> bool" where
  "hasAcceptedDevices stats = (case stats of None \<Rightarrow> False | Some s \<Rightarrow> some_positive (registered_devices s))"

definition invitationStatusFilter :: "jsstring \<Rightarrow> jsstring" where
  "invitationStatusFilter status = toBase64Json (JArr [JObj [(js ''type'', JStr (js ''property'')),
     (js ''params'', JObj [(js ''name'', JStr (js ''status'')), (js ''operator'', JStr (js ''eq'')),
       (js ''value'', JStr status)])]])"

text \<open>Strictly before the present; an invalid date is not.\<close>

definition isInvitationExpired :: "(jsstring \<Rightarrow> jsnum) \<Rightarrow> rat \<Rightarrow> jsstring option \<Rightarrow> bool" where
  "isInvitationExpired getTime now expiresAt = (case expiresAt of
      None \<Rightarrow> False
    | Some e \<Rightarrow> e \<noteq> [] \<and> (case getTime e of Fin t \<Rightarrow> t < now | _ \<Rightarrow> False))"

section \<open>Dates and licenses\<close>

definition EM_DASH :: jsstring where
  "EM_DASH = [8212]"

definition formatRelative :: "(jsstring \<Rightarrow> jsstring) \<Rightarrow> jsstring \<Rightarrow> jsstring" where
  "formatRelative distance dateStr = (if dateStr = [] then EM_DASH else distance dateStr)"

definition formatExpiry :: "(rat \<Rightarrow> jsstring) \<Rightarrow> rat \<Rightarrow> jsstring" where
  "formatExpiry print expiresIn = (if expiresIn \<le> 0 then js ''Never'' else print (expiresIn * 1000))"

definition formatDateFull :: "(jsstring \<Rightarrow> jsstring) \<Rightarrow> jsstring \<Rightarrow> jsstring" where
  "formatDateFull print dateStr = (if dateStr = [] then EM_DASH else print dateStr)"

definition formatDateShort :: "(jsstring \<Rightarrow> jsstring) \<Rightarrow> jsstring \<Rightarrow> jsstring" where
  "formatDateShort print dateStr = (if dateStr = [] then EM_DASH else print dateStr)"

definition formatCountdown :: "nat \<Rightarrow> jsstring" where
  "formatCountdown seconds = nat_text (seconds div 60) @ js '':'' @
     (let t = nat_text (seconds mod 60) in replicate (2 - length t) 48 @ t)"

text \<open>\<open>diff\<close> is the number of seconds from the start to the end.\<close>

definition formatDuration :: "int \<Rightarrow> jsstring" where
  "formatDuration diff =
     (let secs = max 0 diff in
      if secs = 0 then EM_DASH
      else if secs < 60 then int_text secs @ js ''s''
      else if secs < 3600 then int_text (secs div 60) @ js ''m '' @ int_text (secs mod 60) @ js ''s''
      else int_text (secs div 3600) @ js ''h '' @ int_text (secs mod 3600 div 60) @ js ''m'')"

definition formatLicenseTimestamp :: "(rat \<Rightarrow> jsstring) \<Rightarrow> rat \<Rightarrow> jsstring" where
  "formatLicenseTimestamp print v = (if v = - 1 then js ''Now'' else formatExpiry print v)"

definition formatDeviceCount :: "int \<Rightarrow> jsstring" where
  "formatDeviceCount v = (if v = - 1 then js ''Unlimited'' else int_text v)"

definition formatRegions :: "jsstring list \<Rightarrow> jsstring" where
  "formatRegions regions = (if regions = [] then js ''Global'' else join (js '', '') regions)"

datatype feature_value = NumberFeature int | BooleanFeature bool

record license_features =
  lf_devices :: int
  lf_session_recording :: bool
  lf_firewall_rules :: bool
  lf_billing :: bool

definition getDisplayFeatures :: "license_features \<Rightarrow> (jsstring \<times> jsstring \<times> feature_value) list" where
  "getDisplayFeatures f =
     [(js ''devices'', js ''Devices'', NumberFeature (lf_devices f)),
      (js ''session_recording'', js ''Session recording'', BooleanFeature (lf_session_recording f)),
      (js ''firewall_rules'', js ''Firewall rules'', BooleanFeature (lf_firewall_rules f)),
      (js ''billing'', js ''Billing'', BooleanFeature (lf_billing f))]"

definition validateLicenseFile :: "jsstring \<Rightarrow> nat \<Rightarrow> jsstring option" where
  "validateLicenseFile name bytes =
     (if \<not> endsWith (toLower name) (js ''.dat'') then Some (js ''Only .dat files are allowed'')
      else if bytes \<ge> 32 * 1024 then Some (js ''File must be smaller than 32 KB'')
      else None)"

record license_flags =
  l_expired :: bool
  l_about_to_expire :: bool
  l_grace_period :: bool

datatype alert_variant = InfoAlert | WarningAlert | ErrorAlert

definition getLicenseAlertConfig :: "license_flags option \<Rightarrow> (alert_variant \<times> jsstring) option" where
  "getLicenseAlertConfig license =
     (case license of
        None \<Rightarrow> Some (InfoAlert, js ''You do not have an installed license'')
      | Some l \<Rightarrow>
          if l_expired l \<and> \<not> l_grace_period l then Some (ErrorAlert, js ''Your license has expired!'')
          else if l_expired l \<and> l_grace_period l
          then Some (WarningAlert, js ''Your license has expired, but you are still within the grace period.'')
          else if l_about_to_expire l then Some (InfoAlert, js ''Your license is about to expire!'')
          else None)"

definition STRIPE_ERROR_MESSAGES :: "(jsstring \<times> jsstring) list" where
  "STRIPE_ERROR_MESSAGES =
     [(js ''card_declined'', js ''Your card was declined. Please try a different payment method.''),
      (js ''expired_card'', js ''Your card has expired. Please use a different card.''),
      (js ''incorrect_cvc'', js ''Your card's security code (CVC) is incorrect.''),
      (js ''incorrect_number'', js ''Your card number is incorrect.''),
      (js ''invalid_cvc'', js ''Your card's security code (CVC) is invalid.''),
      (js ''invalid_expiry_month'', js ''Your card's expiration month is invalid.''),
      (js ''invalid_expiry_year'', js ''Your card's expiration year is invalid.''),
      (js ''invalid_number'', js ''Your card number is invalid.''),
      (js ''processing_error'', js ''An error occurred while processing your card. Please try again.''),
      (js ''insufficient_funds'', js ''Your card has insufficient funds.''),
      (js ''lost_card'', js ''Your card has been reported as lost. Please use a different payment method.''),
      (js ''stolen_card'', js ''Your card has been reported as stolen. Please use a different payment method.''),
      (js ''authentication_required'', js ''Your card requires authentication. Please complete the verification and try again.'')]"

definition stripeErrorMessage :: "jsstring option \<Rightarrow> jsstring option \<Rightarrow> jsstring" where
  "stripeErrorMessage code fallback =
     (case Option.bind code (map_of STRIPE_ERROR_MESSAGES) of
        Some m \<Rightarrow> m
      | None \<Rightarrow> (case fallback of Some f \<Rightarrow> f | None \<Rightarrow> js ''Unable to process your card. Please try again.''))"

section \<open>Lemmas\<close>

text \<open>
  How a browser reads a redirect: the parser of URLs first removes tabs and line breaks; a text that then
  starts with two slashes, of either kind, names a host.
\<close>

definition url_clean :: "jsstring \<Rightarrow> jsstring" where
  "url_clean s = filter (\<lambda>c. c \<notin> {9, 10, 13}) s"

definition names_host :: "jsstring \<Rightarrow> bool" where
  "names_host s = (case url_clean s of a # b # _ \<Rightarrow> a \<in> {47, 92} \<and> b \<in> {47, 92} | _ \<Rightarrow> False)"

lemma url_clean_id: "list_all (\<lambda>c. c \<notin> {9, 10, 13}) s \<Longrightarrow> url_clean s = s"
  by (auto simp: url_clean_def list_all_iff intro: filter_True)



text \<open>The check does not see a tab between two slashes.\<close>

theorem redirect_with_tab_names_host:
  "getSafeRedirect [(js ''redirect'', [47, 9, 47, 101])] DASHBOARD = [47, 9, 47, 101] \<and> names_host [47, 9, 47, 101]"
  by (simp add: getSafeRedirect_def startsWith_def names_host_def url_clean_def)

text \<open>A pending code is used once, and the path carries it without a character that could end the parameter.\<close>

definition hex_value :: "nat \<Rightarrow> nat" where
  "hex_value c = (if is_digit c then c - 48 else c - 55)"

fun percent_decode :: "jsstring \<Rightarrow> nat list" where
  "percent_decode (c # d # e # s) =
     (if c = 37 then (hex_value d * 16 + hex_value e) # percent_decode s else c # percent_decode (d # e # s))"
| "percent_decode s = s"

lemma percent_decode_plain: "c \<noteq> 37 \<Longrightarrow> percent_decode (c # s) = c # percent_decode s"
proof (cases s)
  case (Cons a t)
  then show "c \<noteq> 37 \<Longrightarrow> ?thesis"
    by (cases t) simp_all
qed simp

lemma hex_value_upper [simp]: "d < 16 \<Longrightarrow> hex_value (upper_hex d) = d"
  by (auto simp: hex_value_def upper_hex_def is_digit_def)

lemma percent_decode_encode:
  "list_all (\<lambda>b. b < 256) bs \<Longrightarrow> percent_decode (concat (map (\<lambda>b. if uri_unreserved b then [b] else percent b) bs)) = bs"
proof (induction bs)
  case (Cons b bs)
  then have "b div 16 < 16"
    by (simp add: div_less_iff_less_mult)
  moreover have "uri_unreserved b \<Longrightarrow> b \<noteq> 37"
    by (auto simp: uri_unreserved_def char_class_defs)
  ultimately show ?case
    using Cons by (auto simp: percent_decode_plain percent_def)
qed simp

text \<open>
  After the login the pending code is in the path, percent-encoded so that it decodes to its bytes and
  cannot end the parameter, and it is no longer pending.
\<close>

theorem pending_code_resolved_once:
  assumes "map_of params (js ''redirect'') = None" "well_formed code" "code \<noteq> []"
  shows "\<exists>t ls'. resolvePostLoginRedirect params (setPendingDeviceCode code ls) = (Inr (js ''/accept-device?code='' @ t), ls') \<and>
    percent_decode t = utf8_units code \<and> list_all (\<lambda>c. uri_unreserved c \<or> c = 37) t \<and> \<not> hasPendingDeviceCode ls' \<and>
    fst (resolvePostLoginRedirect params ls') = Inr DASHBOARD"
proof -
  define t where "t = concat (map (\<lambda>b. if uri_unreserved b then [b] else percent b) (utf8_units code))"
  define ls' where "ls' = clearPendingDeviceCode (setPendingDeviceCode code ls)"
  have bytes: "list_all (\<lambda>b. b < 256) (utf8_units code)"
    by (rule utf8_units_range [OF well_formed_code_units [OF assms(2)]])
  have "resolvePostLoginRedirect params (setPendingDeviceCode code ls) = (Inr (js ''/accept-device?code='' @ t), ls')"
    using assms by (simp add: resolvePostLoginRedirect_def getSafeRedirect_def consumePendingDeviceCode_def
        setPendingDeviceCode_def encodeURIComponent_def t_def ls'_def Let_def)
  moreover have "list_all (\<lambda>c. uri_unreserved c \<or> c = 37) (percent b)" if "b < 256" for b
  proof -
    have "b div 16 < 16" using that by (simp add: div_less_iff_less_mult)
    moreover have "uri_unreserved (upper_hex d)" if "d < 16" for d
      using that by (auto simp: upper_hex_def uri_unreserved_def char_class_defs)
    ultimately show ?thesis
      by (simp add: percent_def)
  qed
  then have "list_all (\<lambda>c. uri_unreserved c \<or> c = 37) t"
    using bytes by (auto simp: t_def list_all_iff)
  moreover have "\<not> hasPendingDeviceCode ls'" "fst (resolvePostLoginRedirect params ls') = Inr DASHBOARD"
    using assms(1) by (simp_all add: ls'_def hasPendingDeviceCode_def clearPendingDeviceCode_def setPendingDeviceCode_def
        resolvePostLoginRedirect_def getSafeRedirect_def consumePendingDeviceCode_def)
  ultimately show ?thesis
    using percent_decode_encode [OF bytes] by (auto simp: t_def)
qed

lemma welcome_seen: "hasSeenWelcome ok t (markWelcomeSeen ok s ls) = (if s = t then ok else hasSeenWelcome ok t ls)"
  by (auto simp: hasSeenWelcome_def markWelcomeSeen_def welcome_key_def)

text \<open>The fallback generator builds a version 4 UUID of variant 1, whatever the random bytes are.\<close>

lemma and_15: "r AND (15 :: nat) = r mod 16" and and_3: "r AND (3 :: nat) = r mod 4"
  using take_bit_eq_mask [of 4 r] take_bit_eq_mask [of 2 r]
  by (simp_all add: take_bit_eq_mod mask_eq_exp_minus_1)

lemma below_16: "(x :: nat) < 16 \<Longrightarrow> x \<in> {0, 1, 2, 3, 4, 5, 6, 7, 8, 9, 10, 11, 12, 13, 14, 15}"
  unfolding insert_iff empty_iff by presburger

lemma uuid_digit_bounds:
  "uuid_digit 0 r < 16" "uuid_digit 1 r < 16" "uuid_digit 8 r \<in> {8, 9, 10, 11}"
proof -
  show "uuid_digit 0 r < 16"
    by (simp add: uuid_digit_def and_15)
  have "r mod 16 < 16"
    by simp
  from below_16 [OF this] show "uuid_digit 1 r < 16"
    by (auto simp: uuid_digit_def and_15)
  have "r mod 4 < 4"
    by simp
  then have "r mod 4 \<in> {0, 1, 2, 3}"
    by auto
  then show "uuid_digit 8 r \<in> {8, 9, 10, 11}"
    by (auto simp: uuid_digit_def and_3)
qed

definition uuid_class :: "nat \<Rightarrow> nat \<Rightarrow> bool" where
  "uuid_class c x \<longleftrightarrow> (if c = 48 \<or> c = 49 then is_hex x else if c = 56 then x \<in> {56, 57, 97, 98} else x = c)"

theorem fallback_uuid_is_v4: "list_all2 uuid_class uuid_template (generateRandomUUID None rnd)"
proof -
  have "list_all2 uuid_class cs (uuid_fill rnd k cs)" for k cs
  proof (induction cs arbitrary: k)
    case (Cons c cs)
    have "hex_char x \<in> {56, 57, 97, 98}" if "x \<in> {8, 9, 10, 11}" for x
      using that by (auto simp: hex_char_def)
    then have "uuid_class 48 (hex_char (uuid_digit 0 (rnd k)))" "uuid_class 49 (hex_char (uuid_digit 1 (rnd k)))"
      "uuid_class 56 (hex_char (uuid_digit 8 (rnd k)))"
      using uuid_digit_bounds [of "rnd k"] by (simp_all add: uuid_class_def hex_char_is_hex del: insert_iff)
    moreover have "c \<notin> {48, 49, 56} \<Longrightarrow> uuid_class c c"
      by (simp add: uuid_class_def)
    ultimately show ?case
      using Cons by auto
  qed simp
  then show ?thesis
    by (simp add: generateRandomUUID_def)
qed

lemma pageCount_bounds:
  assumes "0 < perPage"
  shows "totalCount \<le> pageCount totalCount perPage * perPage" "0 < totalCount \<Longrightarrow> (pageCount totalCount perPage - 1) * perPage < totalCount"
proof -
  define q where "q = (of_nat totalCount / of_nat perPage :: rat)"
  have q: "q * of_nat perPage = of_nat totalCount" "0 \<le> q"
    using assms by (simp_all add: q_def)
  have n: "of_nat (pageCount totalCount perPage) = (of_int \<lceil>q\<rceil> :: rat)"
    using q(2) by (simp add: pageCount_def flip: q_def)
  have "(of_nat totalCount :: rat) \<le> of_nat (pageCount totalCount perPage) * of_nat perPage"
    unfolding n q(1) [symmetric] by (intro mult_right_mono) simp_all
  then show "totalCount \<le> pageCount totalCount perPage * perPage"
    by (simp flip: of_nat_mult)
  show "(pageCount totalCount perPage - 1) * perPage < totalCount" if "0 < totalCount"
  proof -
    have "0 < q"
      using assms that by (simp add: q_def)
    then have pos: "1 \<le> pageCount totalCount perPage"
      by (simp add: pageCount_def Suc_le_eq flip: q_def)
    have "of_int \<lceil>q\<rceil> - 1 < q"
      by linarith
    then have "(of_nat (pageCount totalCount perPage) - 1) * of_nat perPage < (of_nat totalCount :: rat)"
      unfolding n q(1) [symmetric] using assms by (intro mult_strict_right_mono) simp_all
    moreover have "(of_nat (pageCount totalCount perPage) - 1) * of_nat perPage =
        (of_nat ((pageCount totalCount perPage - 1) * perPage) :: rat)"
      using pos by (simp add: of_nat_diff)
    ultimately show ?thesis
      by (simp only: of_nat_less_iff)
  qed
qed

end
