(* ===== verification/SshIdentity.thy ===== *)
theory SshIdentity
  imports Codec
begin

text \<open>
  SSH identities: the keys the console signs with (\<open>utils/sshKeys.ts\<close>), the life of an enrolled identity
  (\<open>utils/sshIdentity.ts\<close>) and the key of the browser (\<open>utils/browserKey.ts\<close>). The key parsers and the
  signatures, the SHA-256 digest, the dates of the date library and IndexedDB's outcome are parameters.
\<close>

section \<open>Bytes on the wire\<close>

text \<open>\<open>DataView.setUint32\<close> and \<open>Buffer.readUInt32BE\<close>, most significant byte first.\<close>

definition u32 :: "nat \<Rightarrow> byte list" where
  "u32 n = map of_nat [n div 16777216 mod 256, n div 65536 mod 256, n div 256 mod 256, n mod 256]"

definition readUInt32BE :: "nat \<Rightarrow> byte list \<Rightarrow> nat option" where
  "readUInt32BE i bs =
     (case drop i bs of
        a # b # c # d # _ \<Rightarrow> Some (unat a * 16777216 + unat b * 65536 + unat c * 256 + unat d)
      | _ \<Rightarrow> None)"

definition ascii_bytes :: "string \<Rightarrow> byte list" where
  "ascii_bytes s = map (\<lambda>c. of_nat (of_char c)) s"

definition ed25519Blob :: "byte list \<Rightarrow> byte list" where
  "ed25519Blob raw32 =
     (let type = ascii_bytes ''ssh-ed25519''
      in u32 (length type) @ type @ u32 (length raw32) @ raw32)"

definition ed25519PublicKeyLine :: "byte list \<Rightarrow> jsstring" where
  "ed25519PublicKeyLine raw32 = js ''ssh-ed25519 '' @ toBase64 (ed25519Blob raw32)"

definition sha256Fingerprint :: "(byte list \<Rightarrow> byte list) \<Rightarrow> byte list \<Rightarrow> jsstring" where
  "sha256Fingerprint digest raw32 = js ''SHA256:'' @ drop_trailing 61 (toBase64 (digest (ed25519Blob raw32)))"

section \<open>Signatures\<close>

record parsed_key =
  pk_type :: jsstring
  pk_curve :: "jsstring option"
  pk_size :: int
  pk_pem :: jsstring
  pk_md5 :: jsstring

text \<open>The parser, with the passphrase; \<open>Inl\<close> is what it throws.\<close>

type_synonym key_parser = "jsstring \<Rightarrow> jsstring option \<Rightarrow> exn + parsed_key"

definition getFingerprint :: "key_parser \<Rightarrow> jsstring \<Rightarrow> jsstring option \<Rightarrow> exn + jsstring" where
  "getFingerprint parse pem passphrase = (case parse pem passphrase of Inl e \<Rightarrow> Inl e | Inr k \<Rightarrow> Inr (pk_md5 k))"

definition algorithm_name :: "parsed_key \<Rightarrow> jsstring" where
  "algorithm_name k =
     (if pk_type k = js ''rsa'' then js ''RSA '' @ int_text (pk_size k)
      else if pk_type k = js ''ecdsa'' then
        (if pk_curve k = Some (js ''nistp256'') then js ''ECDSA P-256''
         else if pk_curve k = Some (js ''nistp384'') then js ''ECDSA P-384''
         else if pk_curve k = Some (js ''nistp521'') then js ''ECDSA P-521''
         else js ''ECDSA '' @ int_text (pk_size k))
      else if pk_type k = js ''ed25519'' then js ''Ed25519''
      else if pk_type k = js ''dsa'' then js ''DSA '' @ int_text (pk_size k)
      else toUpper (pk_type k))"

definition getAlgorithm :: "key_parser \<Rightarrow> jsstring \<Rightarrow> jsstring option \<Rightarrow> exn + jsstring" where
  "getAlgorithm parse pem passphrase = (case parse pem passphrase of Inl e \<Rightarrow> Inl e | Inr k \<Rightarrow> Inr (algorithm_name k))"

definition hash_for :: "parsed_key \<Rightarrow> jsstring" where
  "hash_for k =
     (if pk_type k = js ''ecdsa'' \<and> pk_curve k = Some (js ''nistp256'') then js ''sha256''
      else if pk_type k = js ''ecdsa'' \<and> pk_curve k = Some (js ''nistp384'') then js ''sha384''
      else js ''sha512'')"

text \<open>\<open>mpint(r) || mpint(s)\<close> of the SSH format; reading outside the buffer throws, a slice stops at its end.\<close>

definition signature_blob :: "byte list \<Rightarrow> exn + byte list" where
  "signature_blob buf =
     (case readUInt32BE 0 buf of
        None \<Rightarrow> Inl (OtherThrow (js ''ERR_OUT_OF_RANGE''))
      | Some algLen \<Rightarrow>
          (case readUInt32BE (4 + algLen) buf of
             None \<Rightarrow> Inl (OtherThrow (js ''ERR_OUT_OF_RANGE''))
           | Some blobLen \<Rightarrow> Inr (take blobLen (drop (8 + algLen) buf))))"

text \<open>
  The signers: RSA over a PEM, and the others with a hash, whose result has a raw form and the form of the
  SSH protocol.
\<close>

record signer =
  rsa_sign :: "jsstring \<Rightarrow> byte list \<Rightarrow> jsstring"
  sign_raw :: "parsed_key \<Rightarrow> jsstring \<Rightarrow> byte list \<Rightarrow> byte list"
  sign_ssh :: "parsed_key \<Rightarrow> jsstring \<Rightarrow> byte list \<Rightarrow> byte list"

definition generateRsaKeySignature :: "signer \<Rightarrow> jsstring \<Rightarrow> byte list \<Rightarrow> jsstring" where
  "generateRsaKeySignature sg privateKeyPem challenge = rsa_sign sg privateKeyPem challenge"

definition generateSignature ::
  "signer \<Rightarrow> key_parser \<Rightarrow> jsstring \<Rightarrow> byte list \<Rightarrow> jsstring option \<Rightarrow> exn + jsstring" where
  "generateSignature sg parse privateKey challenge passphrase =
     (case parse privateKey passphrase of
        Inl e \<Rightarrow> Inl e
      | Inr k \<Rightarrow>
          if pk_type k = js ''rsa'' then Inr (generateRsaKeySignature sg (pk_pem k) challenge)
          else if pk_type k = js ''ecdsa'' then
            (case signature_blob (sign_ssh sg k (hash_for k) challenge) of
               Inl e \<Rightarrow> Inl e
             | Inr blob \<Rightarrow> Inr (toBase64 blob))
          else Inr (toBase64 (sign_raw sg k (hash_for k) challenge)))"

section \<open>Enrolled identities\<close>

definition isAlreadyEnrolled :: "int option \<Rightarrow> bool" where
  "isAlreadyEnrolled status \<longleftrightarrow> status = Some 409"

definition keyExpiryPayload :: "jsstring \<Rightarrow> jsnum option" where
  "keyExpiryPayload expiresIn = (if num_gt (toNumber expiresIn) 0 then Some (toNumber expiresIn) else None)"

definition serviceAccountLifecyclePayload :: "jsstring \<Rightarrow> bool \<Rightarrow> bool \<times> jsnum option" where
  "serviceAccountLifecyclePayload expiresIn singleUse = (singleUse, keyExpiryPayload expiresIn)"

record source_copy =
  sc_label :: jsstring
  notable :: bool
  sc_description :: jsstring
  revokeConsequence :: jsstring

definition SOURCE_COPY :: "(jsstring \<times> source_copy) list" where
  "SOURCE_COPY =
     [(js ''browser'', \<lparr>sc_label = js ''Browser'', notable = False,
        sc_description = js ''Browser. The web terminal generated this key inside a browser. It cannot be exported, so it works only there, and it dies with that browser's site data.'',
        revokeConsequence = js ''That browser registers a new key the next time it opens a web terminal.''\<rparr>),
      (js ''approval'', \<lparr>sc_label = js ''At login'', notable = False,
        sc_description = js ''At login. A member approved this key when an SSH client offered one this namespace had not seen.'',
        revokeConsequence = js ''The next login with it needs approval again.''\<rparr>),
      (js ''manual'', \<lparr>sc_label = js ''Manual'', notable = False,
        sc_description = js ''Manual. Somebody pasted or uploaded this public key on the SSH Identities page.'',
        revokeConsequence = js ''The next login with it needs approval again.''\<rparr>)]"

definition CURRENT_BROWSER_COPY :: source_copy where
  "CURRENT_BROWSER_COPY = \<lparr>sc_label = js ''This browser'', notable = True,
     sc_description = js ''This browser. The web terminal generated this key here. It cannot be exported, and clearing this site's data destroys it.'',
     revokeConsequence = js ''This browser registers a new key the next time you open a web terminal.''\<rparr>"

definition sshIdentitySource :: "jsstring option \<Rightarrow> bool \<Rightarrow> source_copy" where
  "sshIdentitySource source isCurrentBrowser =
     (if source = Some (js ''browser'') \<and> isCurrentBrowser then CURRENT_BROWSER_COPY
      else case map_of SOURCE_COPY (case source of None \<Rightarrow> js ''manual'' | Some s \<Rightarrow> s) of
        Some c \<Rightarrow> c
      | None \<Rightarrow> the (map_of SOURCE_COPY (js ''manual'')))"

definition shortFingerprint :: "jsstring \<Rightarrow> jsstring" where
  "shortFingerprint fp =
     (let (prefix, body) = (case indexOf fp [58] of
            Some i \<Rightarrow> (take (i + 1) fp, drop (i + 1) fp)
          | None \<Rightarrow> ([], fp))
      in if length body > 12 then prefix @ take 12 body @ [8230] else fp)"

datatype status_tone = Dead | Armed | Quiet

datatype end_kind = ConsumedEnd | ExpiredEnd | SingleUseEnd | ExpiresEnd | NeverEnd

record end_of_life =
  el_kind :: end_kind
  el_value :: jsstring
  el_tone :: status_tone
  el_title :: "jsstring option"

record lifecycle =
  lc_expires_at :: "jsstring option"
  lc_consumed_at :: "jsstring option"
  lc_single_use :: bool

definition EXPIRY_WARNING_DAYS :: int where
  "EXPIRY_WARNING_DAYS = 14"

text \<open>Reading and printing dates, and the whole days between two of them.\<close>

record dates =
  getTime :: "jsstring \<Rightarrow> jsnum"
  toLocaleString :: "jsstring \<Rightarrow> jsstring"
  printShort :: "jsstring \<Rightarrow> jsstring"
  differenceInDays :: "jsstring \<Rightarrow> rat \<Rightarrow> int"

definition given :: "jsstring option \<Rightarrow> jsstring option" where
  "given x = (if x = Some [] then None else x)"

definition sshIdentityEndOfLife :: "dates \<Rightarrow> lifecycle \<Rightarrow> rat \<Rightarrow> end_of_life" where
  "sshIdentityEndOfLife dt l now =
     (case given (lc_consumed_at l) of
        Some c \<Rightarrow> \<lparr>el_kind = ConsumedEnd, el_value = js ''consumed'', el_tone = Dead, el_title = Some (toLocaleString dt c)\<rparr>
      | None \<Rightarrow>
          (case given (lc_expires_at l) of
             Some e \<Rightarrow>
               if num_le (getTime dt e) now
               then \<lparr>el_kind = ExpiredEnd, el_value = js ''expired'', el_tone = Dead, el_title = Some (toLocaleString dt e)\<rparr>
               else if lc_single_use l
               then \<lparr>el_kind = SingleUseEnd, el_value = js ''on first use'', el_tone = Armed, el_title = None\<rparr>
               else \<lparr>el_kind = ExpiresEnd, el_value = printShort dt e,
                     el_tone = (if differenceInDays dt e now \<le> EXPIRY_WARNING_DAYS then Armed else Quiet),
                     el_title = Some (toLocaleString dt e)\<rparr>
           | None \<Rightarrow>
               if lc_single_use l
               then \<lparr>el_kind = SingleUseEnd, el_value = js ''on first use'', el_tone = Armed, el_title = None\<rparr>
               else \<lparr>el_kind = NeverEnd, el_value = js ''never'', el_tone = Quiet, el_title = None\<rparr>))"

fun STATUS_LABEL :: "end_kind \<Rightarrow> jsstring option" where
  "STATUS_LABEL ConsumedEnd = Some (js ''Consumed'')"
| "STATUS_LABEL ExpiredEnd = Some (js ''Expired'')"
| "STATUS_LABEL SingleUseEnd = Some (js ''Single-use'')"
| "STATUS_LABEL ExpiresEnd = Some (js ''Expires'')"
| "STATUS_LABEL NeverEnd = None"

definition sshIdentityStatus :: "dates \<Rightarrow> lifecycle \<Rightarrow> rat \<Rightarrow> (jsstring \<times> status_tone \<times> jsstring option) option" where
  "sshIdentityStatus dt l now =
     (let e = sshIdentityEndOfLife dt l now in
      case STATUS_LABEL (el_kind e) of
        None \<Rightarrow> None
      | Some label \<Rightarrow> Some (if el_kind e = ExpiresEnd then label @ js '' '' @ el_value e else label, el_tone e, el_title e))"

section \<open>The key of the browser\<close>

text \<open>A private key cannot be exported; it is known by a handle.\<close>

record browser_key =
  privateKey :: nat
  publicKeyLine :: jsstring
  bk_fingerprint :: jsstring

text \<open>
  IndexedDB and WebCrypto: the stored keys, what is available, which requests succeed, and the key pair the
  next generation gives, \<open>None\<close> when it throws; \<open>minted\<close> counts the generations.
\<close>

record key_db =
  db_keys :: "jsstring \<Rightarrow> browser_key option"
  has_indexedDB :: bool
  has_generateKey :: bool
  open_ok :: bool
  read_ok :: bool
  write_ok :: bool
  next_pair :: "(nat \<times> byte list) option"
  minted :: nat

definition openDB :: "key_db \<Rightarrow> bool" where
  "openDB w \<longleftrightarrow> open_ok w"

definition idbGet :: "jsstring \<Rightarrow> key_db \<Rightarrow> exn + browser_key option" where
  "idbGet key w = (if read_ok w then Inr (db_keys w key) else Inl (JsError (js ''IndexedDB read failed'')))"

definition idbPut :: "jsstring \<Rightarrow> browser_key \<Rightarrow> (key_db, unit) io" where
  "idbPut key v = (\<lambda>w. if write_ok w then (Inr (), w\<lparr>db_keys := (db_keys w)(key \<mapsto> v)\<rparr>)
     else (Inl (JsError (js ''IndexedDB write failed'')), w))"

definition new_browser_key :: "(byte list \<Rightarrow> byte list) \<Rightarrow> nat \<Rightarrow> byte list \<Rightarrow> browser_key" where
  "new_browser_key digest priv raw = \<lparr>privateKey = priv, publicKeyLine = ed25519PublicKeyLine raw,
     bk_fingerprint = sha256Fingerprint digest raw\<rparr>"

definition ensureBrowserKey ::
  "(byte list \<Rightarrow> byte list) \<Rightarrow> jsstring \<Rightarrow> key_db \<Rightarrow> browser_key option \<times> key_db" where
  "ensureBrowserKey digest scope w =
     (if \<not> has_indexedDB w \<or> \<not> has_generateKey w then (None, w)
      else if \<not> openDB w then (None, w)
      else case idbGet scope w of
        Inl e \<Rightarrow> (None, w)
      | Inr (Some k) \<Rightarrow> (Some k, w)
      | Inr None \<Rightarrow>
          (case next_pair w of
             None \<Rightarrow> (None, w)
           | Some (priv, raw) \<Rightarrow> (Some (new_browser_key digest priv raw), w\<lparr>minted := minted w + 1\<rparr>)))"

definition storedBrowserKeyFingerprint :: "jsstring \<Rightarrow> key_db \<Rightarrow> jsstring option" where
  "storedBrowserKeyFingerprint scope w =
     (if \<not> has_indexedDB w \<or> \<not> openDB w then None
      else case idbGet scope w of Inl e \<Rightarrow> None | Inr k \<Rightarrow> map_option bk_fingerprint k)"

definition persistBrowserKey :: "jsstring \<Rightarrow> browser_key \<Rightarrow> (key_db, unit) io" where
  "persistBrowserKey scope k = (\<lambda>w.
     if \<not> openDB w then (Inl (JsError (js ''IndexedDB open failed'')), w) else idbPut scope k w)"

section \<open>The name of the browser\<close>

record ua_brand =
  brand :: jsstring
  brand_version :: jsstring

text \<open>\<open>/p(\d+)/\<close>: the digits after the first occurrence of \<open>p\<close> that is followed by a digit.\<close>

fun match_version :: "jsstring \<Rightarrow> jsstring \<Rightarrow> jsstring option" where
  "match_version p [] = None"
| "match_version p (c # s) =
     (let ds = takeWhile is_digit (drop (length p) (c # s))
      in if startsWith (c # s) p \<and> ds \<noteq> [] then Some ds else match_version p s)"

text \<open>\<open>/Version\/(\d+)[^ ]* Safari/\<close>.\<close>

fun match_safari :: "jsstring \<Rightarrow> jsstring option" where
  "match_safari [] = None"
| "match_safari (c # s) =
     (let r = drop 8 (c # s); ds = takeWhile is_digit r
      in if startsWith (c # s) (js ''Version/'') \<and> ds \<noteq> [] \<and>
            startsWith (dropWhile (\<lambda>x. x \<noteq> 32) (dropWhile is_digit r)) (js '' Safari'')
         then Some ds else match_safari s)"

text \<open>\<open>/Not.?A.?Brand/i\<close> at the start of a text, and anywhere in it.\<close>

definition line_break :: "nat \<Rightarrow> bool" where
  "line_break c \<longleftrightarrow> c \<in> {10, 13, 8232, 8233}"

definition after_optional :: "(jsstring \<Rightarrow> bool) \<Rightarrow> jsstring \<Rightarrow> bool" where
  "after_optional P s \<longleftrightarrow> P s \<or> (s \<noteq> [] \<and> \<not> line_break (hd s) \<and> P (tl s))"

definition not_a_brand_here :: "jsstring \<Rightarrow> bool" where
  "not_a_brand_here s \<longleftrightarrow> startsWith s (js ''not'') \<and>
     after_optional (\<lambda>r. startsWith r (js ''a'') \<and> after_optional (\<lambda>q. startsWith q (js ''brand'')) (drop 1 r)) (drop 3 s)"

fun not_a_brand :: "jsstring \<Rightarrow> bool" where
  "not_a_brand [] = False"
| "not_a_brand (c # s) = (not_a_brand_here (c # s) \<or> not_a_brand s)"

text \<open>\<open>replace(/^p\s+/, "")\<close>.\<close>

definition drop_vendor :: "jsstring \<Rightarrow> jsstring \<Rightarrow> jsstring" where
  "drop_vendor p s = (let r = drop (length p) s in
     if startsWith s p \<and> r \<noteq> [] \<and> is_space (hd r) then dropWhile is_space r else s)"

definition os_name :: "jsstring \<Rightarrow> jsstring" where
  "os_name ua =
     (if contains ua (js ''Windows'') then js ''Windows''
      else if contains ua (js ''Mac OS X'') \<or> contains ua (js ''Macintosh'') then js ''macOS''
      else if contains ua (js ''Android'') then js ''Android''
      else if contains ua (js ''iPhone'') \<or> contains ua (js ''iPad'') \<or> contains ua (js ''iPod'') then js ''iOS''
      else if contains ua (js ''Linux'') then js ''Linux''
      else js ''Unknown OS'')"

definition browser_name :: "jsstring \<Rightarrow> jsstring" where
  "browser_name ua =
     (case match_version (js ''Edg/'') ua of Some v \<Rightarrow> js ''Edge '' @ v | None \<Rightarrow>
      (case match_version (js ''OPR/'') ua of Some v \<Rightarrow> js ''Opera '' @ v | None \<Rightarrow>
       (case match_version (js ''Firefox/'') ua of Some v \<Rightarrow> js ''Firefox '' @ v | None \<Rightarrow>
        (case match_version (js ''Chrome/'') ua of Some v \<Rightarrow> js ''Chrome '' @ v | None \<Rightarrow>
         (case match_safari ua of Some v \<Rightarrow> js ''Safari '' @ v | None \<Rightarrow> js ''Browser'')))))"

text \<open>\<open>hints\<close> are the client hints, the brands and the platform, where the browser has them.\<close>

definition browserLabel :: "(ua_brand list \<times> jsstring) option \<Rightarrow> jsstring \<Rightarrow> jsstring" where
  "browserLabel hints ua =
     (case hints of
        Some (b # bs, platform) \<Rightarrow>
          (let found = find (\<lambda>x. \<not> not_a_brand (toLower (brand x)) \<and> brand x \<noteq> js ''Chromium'') (b # bs);
               name = drop_vendor (js ''Microsoft'') (drop_vendor (js ''Google'')
                        (case found of None \<Rightarrow> js ''Browser'' | Some x \<Rightarrow> brand x));
               version = (case found of None \<Rightarrow> [] | Some x \<Rightarrow> if brand_version x = [] then [] else js '' '' @ brand_version x)
           in name @ version @ js '' on '' @ platform)
      | _ \<Rightarrow> browser_name ua @ js '' on '' @ os_name ua)"

section \<open>Lemmas\<close>

lemma length_u32 [simp]: "length (u32 n) = 4"
  by (simp add: u32_def)

lemma read_u32:
  assumes "n < 4294967296" "length p = i"
  shows "readUInt32BE i (p @ u32 n @ s) = Some n"
proof -
  have "unat (of_nat (k mod 256) :: byte) = k mod 256" for k
    by (simp add: unat_of_nat)
  then have "readUInt32BE i (p @ u32 n @ s) =
      Some (n div 16777216 mod 256 * 16777216 + n div 65536 mod 256 * 65536 + n div 256 mod 256 * 256 + n mod 256)"
    using assms(2) by (simp add: readUInt32BE_def u32_def)
  moreover have "n div 16777216 mod 256 * 16777216 + n div 65536 mod 256 * 65536 + n div 256 mod 256 * 256 + n mod 256 = n"
  proof -
    define x where "x = n div 256"
    define y where "y = x div 256"
    define z where "z = y div 256"
    have div: "n div 65536 = y" "n div 16777216 = z"
      by (simp_all add: x_def y_def z_def flip: div_mult2_eq)
    have "z < 256"
      using assms(1) by (simp add: less_mult_imp_div_less flip: div(2))
    moreover have "n = x * 256 + n mod 256" "x = y * 256 + x mod 256" "y = z * 256 + y mod 256"
      by (simp_all add: x_def y_def z_def)
    ultimately show ?thesis
      unfolding div x_def [symmetric] by simp
  qed
  ultimately show ?thesis
    by (simp only:)
qed

text \<open>
  The blob is the SSH wire format: a reader of length-prefixed strings gets the type and the key back.
\<close>

definition read_string :: "byte list \<Rightarrow> (byte list \<times> byte list) option" where
  "read_string bs = (case readUInt32BE 0 bs of
      None \<Rightarrow> None
    | Some n \<Rightarrow> if length bs < 4 + n then None else Some (take n (drop 4 bs), drop (4 + n) bs))"

lemma read_string_u32: "length s < 4294967296 \<Longrightarrow> read_string (u32 (length s) @ s @ r) = Some (s, r)"
  using read_u32 [of "length s" "[]" 0 "s @ r"] by (simp add: read_string_def)

text \<open>
  The line of the browser key is an OpenSSH public key: the text after the space decodes to a blob that
  holds the type and exactly the raw key.
\<close>

theorem public_key_line_decodes:
  assumes "length raw < 4294967296"
  shows "\<exists>blob. fromBase64 (drop 12 (ed25519PublicKeyLine raw)) = Inr blob \<and>
    read_string blob = Some (ascii_bytes ''ssh-ed25519'', u32 (length raw) @ raw) \<and>
    read_string (u32 (length raw) @ raw) = Some (raw, [])"
proof -
  have "fromBase64 (drop 12 (ed25519PublicKeyLine raw)) = Inr (ed25519Blob raw)"
    by (simp add: ed25519PublicKeyLine_def js_def)
  moreover have "read_string (ed25519Blob raw) = Some (ascii_bytes ''ssh-ed25519'', u32 (length raw) @ raw)"
    unfolding ed25519Blob_def Let_def by (rule read_string_u32) (simp add: ascii_bytes_def)
  ultimately show ?thesis
    using read_string_u32 [OF assms, of "[]"] by simp
qed

lemma signature_blob_of_ssh:
  assumes "length alg < 4294967296" "length blob < 4294967296"
  shows "signature_blob (u32 (length alg) @ alg @ u32 (length blob) @ blob) = Inr blob"
proof -
  have "readUInt32BE (4 + length alg) ((u32 (length alg) @ alg) @ u32 (length blob) @ blob) = Some (length blob)"
    by (rule read_u32 [OF assms(2)]) simp
  moreover have "readUInt32BE 0 ([] @ u32 (length alg) @ alg @ u32 (length blob) @ blob) = Some (length alg)"
    by (rule read_u32 [OF assms(1)]) simp
  ultimately show ?thesis
    by (simp add: signature_blob_def)
qed


definition p256_key :: parsed_key where
  "p256_key = \<lparr>pk_type = js ''ecdsa'', pk_curve = Some (js ''nistp256''), pk_size = 256, pk_pem = [], pk_md5 = []\<rparr>"

definition length_signer :: signer where
  "length_signer = \<lparr>rsa_sign = (\<lambda>_ _. []), sign_raw = (\<lambda>_ _ _. []),
     sign_ssh = (\<lambda>_ h c. u32 1 @ [7] @ u32 (length (c @ c)) @ c @ c)\<rparr>"


text \<open>A key that is dead stays dead: a later look shows the same end, and no other key is called dead.\<close>

theorem dead_identity_stays_dead:
  assumes "el_tone (sshIdentityEndOfLife dt l now) = Dead" "now \<le> later"
  shows "sshIdentityEndOfLife dt l later = sshIdentityEndOfLife dt l now \<and>
    el_kind (sshIdentityEndOfLife dt l now) \<in> {ConsumedEnd, ExpiredEnd}"
proof -
  have "num_le q now \<Longrightarrow> num_le q later" for q
    using assms(2) by (cases q) auto
  then show ?thesis
    using assms(1) by (auto simp: sshIdentityEndOfLife_def split: option.splits if_splits)
qed

text \<open>
  A persisted key is the one every later session of its scope uses, without minting another; other scopes
  do not see it.
\<close>

theorem persisted_key_is_used:
  assumes "persistBrowserKey scope k w = (Inr (), w')" "has_indexedDB w" "has_generateKey w" "read_ok w"
  shows "ensureBrowserKey digest scope w' = (Some k, w') \<and> storedBrowserKeyFingerprint scope w' = Some (bk_fingerprint k) \<and>
    (scope' \<noteq> scope \<longrightarrow> storedBrowserKeyFingerprint scope' w' = storedBrowserKeyFingerprint scope' w \<and>
       fst (ensureBrowserKey digest scope' w') = fst (ensureBrowserKey digest scope' w))"
proof -
  have "w' = w\<lparr>db_keys := (db_keys w)(scope \<mapsto> k)\<rparr>" "openDB w"
    using assms(1) by (auto simp: persistBrowserKey_def idbPut_def split: if_splits)
  then show ?thesis
    using assms(2-4)
    by (auto simp: ensureBrowserKey_def storedBrowserKeyFingerprint_def idbGet_def openDB_def split: option.splits)
qed

lemma short_fingerprint_bound: "indexOf fp [58] = Some i \<Longrightarrow> length (shortFingerprint fp) \<le> i + 14"
  by (auto simp: shortFingerprint_def Let_def)

lemma fingerprint_unchanged: "length fp \<le> 12 \<Longrightarrow> shortFingerprint fp = fp"
  by (auto simp: shortFingerprint_def Let_def split: option.split)

end
