(* ===== verification/DeviceAccept.thy ===== *)
theory DeviceAccept
  imports Json
begin

text \<open>
  Accepting a device by its code and waiting for it: the errors of the API (\<open>api/errors.ts\<close>,
  \<open>utils/deviceErrors.ts\<close>), \<open>hooks/useAcceptDeviceByCode.ts\<close>, the polling of \<open>hooks/useDevicePolling.ts\<close>
  with its timers and requests, the countdown of \<open>hooks/useCountdown.ts\<close> and the configuration the
  messages depend on (\<open>env.ts\<close>).
\<close>

section \<open>Errors of the API\<close>

text \<open>A caught value: an object with a numeric \<open>status\<close> and perhaps \<open>fields\<close>, or anything else.\<close>

datatype caught = SdkHttpError int "json option" | OtherValue

fun isSdkError :: "caught \<Rightarrow> bool" where
  "isSdkError (SdkHttpError st fs) = True"
| "isSdkError OtherValue = False"

fun status_of :: "caught \<Rightarrow> int option" where
  "status_of (SdkHttpError st fs) = Some st"
| "status_of OtherValue = None"

definition GENERIC_MESSAGE :: jsstring where
  "GENERIC_MESSAGE = js ''Something went wrong. Please try again.''"

definition STATUS_MESSAGES :: "(int \<times> jsstring) list" where
  "STATUS_MESSAGES =
     [(400, js ''Some values are invalid. Review the form and try again.''),
      (401, js ''Your session has expired. Sign in again.''),
      (402, js ''This action needs an active subscription.''),
      (403, js ''You do not have permission to do this.''),
      (404, js ''We could not find what you asked for.''),
      (409, js ''That value is already in use.''),
      (423, js ''This account is not active yet.''),
      (429, js ''Too many attempts. Wait a moment and try again.''),
      (500, js ''Something went wrong on our side. Try again.''),
      (502, js ''The service is unavailable right now. Try again shortly.''),
      (503, js ''The service is unavailable right now. Try again shortly.''),
      (504, js ''The service is unavailable right now. Try again shortly.'')]"

fun apiErrorMessage :: "caught \<Rightarrow> jsstring" where
  "apiErrorMessage OtherValue = GENERIC_MESSAGE"
| "apiErrorMessage (SdkHttpError st fs) =
     (case map_of STATUS_MESSAGES st of None \<Rightarrow> GENERIC_MESSAGE | Some m \<Rightarrow> m)"

fun apiErrorFields :: "caught \<Rightarrow> (jsstring \<times> jsstring) list" where
  "apiErrorFields (SdkHttpError st (Some (JObj ms))) =
     concat (map (\<lambda>(k, v). case v of JStr s \<Rightarrow> [(k, s)] | _ \<Rightarrow> []) ms)"
| "apiErrorFields _ = []"

section \<open>The edition\<close>

datatype edition = Community | Enterprise | Cloud

definition isCommunity :: "edition \<Rightarrow> bool" where
  "isCommunity e \<longleftrightarrow> e = Community"

definition isEnterprise :: "edition \<Rightarrow> bool" where
  "isEnterprise e \<longleftrightarrow> e = Enterprise"

definition isCloud :: "edition \<Rightarrow> bool" where
  "isCloud e \<longleftrightarrow> e = Cloud"

definition isEnterpriseOrCloud :: "edition \<Rightarrow> bool" where
  "isEnterpriseOrCloud e \<longleftrightarrow> e \<noteq> Community"

text \<open>
  \<open>loadConfig\<close>: the first successful answer is kept, a failed one can be retried, and the calls made
  while a request is under way share it. A configuration is the list of its members; \<open>loaded\<close> says
  that \<open>cached\<close> is no longer the default object.
\<close>

record config_state =
  cached :: "(jsstring \<times> json) list"
  loaded :: bool
  config_inflight :: bool
  config_requests :: nat

definition spread :: "(jsstring \<times> json) list \<Rightarrow> (jsstring \<times> json) list \<Rightarrow> (jsstring \<times> json) list" where
  "spread base over = map (\<lambda>(k, v). (k, case map_of (rev over) k of None \<Rightarrow> v | Some x \<Rightarrow> x)) base @
     filter (\<lambda>(k, v). k \<notin> fst ` set base) over"

definition loadConfig :: "config_state \<Rightarrow> config_state" where
  "loadConfig s =
     (if loaded s \<or> config_inflight s then s
      else s\<lparr>config_inflight := True, config_requests := config_requests s + 1\<rparr>)"

text \<open>The request ends: with the members of a JSON object, or \<open>None\<close> when it or its parsing failed.\<close>

definition config_done ::
  "(jsstring \<times> json) list \<Rightarrow> (jsstring \<times> json) list option \<Rightarrow> config_state \<Rightarrow> config_state" where
  "config_done defaults answer s =
     (case answer of
        None \<Rightarrow> s\<lparr>config_inflight := False\<rparr>
      | Some ms \<Rightarrow> s\<lparr>cached := spread defaults ms, loaded := True, config_inflight := False\<rparr>)"

section \<open>Accepting by code\<close>

definition FALLBACK :: jsstring where
  "FALLBACK = js ''An error occurred while accepting the device. Please try again.''"

definition LICENSE_402 :: jsstring where
  "LICENSE_402 = js ''Your instance has reached its device limit. Please update your license to accept more devices or contact the instance administrator.''"

definition BILLING_402 :: jsstring where
  "BILLING_402 = js ''Your subscription plan has reached its device limit. Please update your billing plan to accept more devices.''"

definition NAMESPACE_403 :: jsstring where
  "NAMESPACE_403 = js ''You do not have permission to accept devices in this namespace.''"

definition RENAME_409 :: jsstring where
  "RENAME_409 = js ''A device with this name already exists in the namespace. Please rename the device and try again.''"

definition getAcceptDeviceErrorMessage :: "edition \<Rightarrow> caught \<Rightarrow> jsstring" where
  "getAcceptDeviceErrorMessage e err =
     (case status_of err of
        None \<Rightarrow> FALLBACK
      | Some st \<Rightarrow>
          if st = 402 then (if isCloud e then BILLING_402 else if isEnterprise e then LICENSE_402 else FALLBACK)
          else if st = 403 then NAMESPACE_403
          else if st = 409 then RENAME_409
          else FALLBACK)"

text \<open>What the server resolves a code to.\<close>

record resolved =
  rs_kind :: "jsstring option"
  rs_uid :: "jsstring option"
  rs_name :: "jsstring option"

text \<open>The three calls of the server, which keeps its own state.\<close>

record 's device_api =
  resolveDeviceLoginCode :: "jsstring \<Rightarrow> 's \<Rightarrow> (caught + resolved) \<times> 's"
  acceptDevicePairing :: "jsstring \<Rightarrow> jsstring \<Rightarrow> 's \<Rightarrow> (caught + jsstring option) \<times> 's"
  acceptDevice :: "jsstring \<Rightarrow> 's \<Rightarrow> (caught + unit) \<times> 's"

record 's accept_state =
  isPending :: bool
  error :: jsstring
  server :: 's

definition text_or_empty :: "jsstring option \<Rightarrow> jsstring" where
  "text_or_empty x = (case x of None \<Rightarrow> [] | Some s \<Rightarrow> s)"

definition INVALID_CODE :: jsstring where
  "INVALID_CODE = js ''That code is invalid or has expired. Double-check it and try again.''"

definition WRONG_PLACE :: jsstring where
  "WRONG_PLACE = js ''That code can't be used here. Open the link the agent printed.''"

text \<open>The body of the \<open>try\<close>: a thrown value, a device, or neither.\<close>

definition accept_code ::
  "'s device_api \<Rightarrow> jsstring option \<Rightarrow> jsstring \<Rightarrow> 's \<Rightarrow> (caught + (jsstring \<times> jsstring) option) \<times> 's" where
  "accept_code api tenant code s =
     (case resolveDeviceLoginCode api code s of
        (Inl e, s1) \<Rightarrow> (Inl e, s1)
      | (Inr d, s1) \<Rightarrow>
          if rs_kind d = Some (js ''pairing'') then
            (case acceptDevicePairing api code (text_or_empty tenant) s1 of
               (Inl e, s2) \<Rightarrow> (Inl e, s2)
             | (Inr uid, s2) \<Rightarrow> (Inr (Some (text_or_empty uid, text_or_empty (rs_name d))), s2))
          else if text_or_empty (rs_uid d) \<noteq> [] then
            (case acceptDevice api (text_or_empty (rs_uid d)) s1 of
               (Inl e, s2) \<Rightarrow> (Inl e, s2)
             | (Inr _, s2) \<Rightarrow> (Inr (Some (text_or_empty (rs_uid d), text_or_empty (rs_name d))), s2))
          else (Inr None, s1))"

definition submit_code ::
  "edition \<Rightarrow> 's device_api \<Rightarrow> jsstring option \<Rightarrow> jsstring \<Rightarrow> 's accept_state \<Rightarrow> (jsstring \<times> jsstring) option \<times> 's accept_state" where
  "submit_code e api tenant code s0 =
     (let s = s0\<lparr>error := [], isPending := True\<rparr> in
      case accept_code api tenant code (server s) of
        (Inr (Some d), sv) \<Rightarrow> (Some d, s\<lparr>server := sv, isPending := False\<rparr>)
      | (Inr None, sv) \<Rightarrow> (None, s\<lparr>server := sv, error := WRONG_PLACE, isPending := False\<rparr>)
      | (Inl err, sv) \<Rightarrow> (None, s\<lparr>server := sv,
            error := (if status_of err = Some 404 then INVALID_CODE else getAcceptDeviceErrorMessage e err),
            isPending := False\<rparr>))"

section \<open>Polling for devices\<close>

text \<open>
  A pending timer is its number and its delay, a request under way the delay of the timer that sent it;
  \<open>timeoutRef\<close> is the number of the timer \<open>stop\<close> would clear.
\<close>

record polling =
  pl_isPolling :: bool
  activeRef :: bool
  timeoutRef :: "nat option"
  timers :: "(nat \<times> rat) list"
  polls :: "rat list"
  next_timer :: nat

record polling_options =
  initialInterval :: rat
  maxInterval :: rat
  backoffFactor :: rat

definition default_options :: polling_options where
  "default_options = \<lparr>initialInterval = 2000, maxInterval = 10000, backoffFactor = 3 / 2\<rparr>"

definition clear_timer :: "polling \<Rightarrow> polling" where
  "clear_timer s = (case timeoutRef s of None \<Rightarrow> s | Some t \<Rightarrow> s\<lparr>timers := filter (\<lambda>x. fst x \<noteq> t) (timers s)\<rparr>)"

definition stop_polling :: "polling \<Rightarrow> polling" where
  "stop_polling s = (clear_timer (s\<lparr>activeRef := False, pl_isPolling := False\<rparr>))\<lparr>timeoutRef := None\<rparr>"

definition schedule :: "rat \<Rightarrow> polling \<Rightarrow> polling" where
  "schedule delay s = s\<lparr>timers := (next_timer s, delay) # timers s, timeoutRef := Some (next_timer s),
     next_timer := next_timer s + 1\<rparr>"

definition start_polling :: "polling_options \<Rightarrow> polling \<Rightarrow> polling" where
  "start_polling p s =
     (if activeRef s then s else schedule (initialInterval p) (s\<lparr>activeRef := True, pl_isPolling := True\<rparr>))"

definition timer_fires :: "nat \<times> rat \<Rightarrow> polling \<Rightarrow> polling" where
  "timer_fires t s =
     (let s1 = s\<lparr>timers := remove1 t (timers s)\<rparr>
      in if \<not> activeRef s1 then s1 else s1\<lparr>polls := snd t # polls s1\<rparr>)"

text \<open>The request of a poll ends: \<open>answer\<close> is what \<open>onPoll\<close> returned, \<open>None\<close> for a failed request.\<close>

definition poll_answer :: "polling_options \<Rightarrow> rat \<Rightarrow> bool option \<Rightarrow> polling \<Rightarrow> polling" where
  "poll_answer p delay answer s =
     (let s1 = s\<lparr>polls := remove1 delay (polls s)\<rparr> in
      if \<not> activeRef s1 then s1
      else if answer = Some True then stop_polling s1
      else schedule (min (delay * backoffFactor p) (maxInterval p)) s1)"

definition unmount_polling :: "polling \<Rightarrow> polling" where
  "unmount_polling s = clear_timer (s\<lparr>activeRef := False\<rparr>)"

definition initial_polling :: polling where
  "initial_polling = \<lparr>pl_isPolling = False, activeRef = False, timeoutRef = None, timers = [], polls = [], next_timer = 0\<rparr>"

inductive poll_reach :: "polling_options \<Rightarrow> polling \<Rightarrow> bool" for p where
  init: "poll_reach p initial_polling"
| start: "poll_reach p s \<Longrightarrow> poll_reach p (start_polling p s)"
| stop: "poll_reach p s \<Longrightarrow> poll_reach p (stop_polling s)"
| fire: "poll_reach p s \<Longrightarrow> t \<in> set (timers s) \<Longrightarrow> poll_reach p (timer_fires t s)"
| answer: "poll_reach p s \<Longrightarrow> d \<in> set (polls s) \<Longrightarrow> poll_reach p (poll_answer p d a s)"
| leave: "poll_reach p s \<Longrightarrow> poll_reach p (unmount_polling s)"

section \<open>The countdown\<close>

definition plural :: "int \<Rightarrow> jsstring" where
  "plural n = (if n \<noteq> 1 then js ''s'' else [])"

text \<open>The text for a target time in seconds, and whether it is reached.\<close>

definition updateCountdown :: "rat \<Rightarrow> rat \<Rightarrow> jsstring \<times> bool" where
  "updateCountdown targetTimestamp now =
     (let diff = targetTimestamp * 1000 - now in
      if diff \<le> 0 then (js ''0 seconds'', True)
      else
        let minutes = \<lfloor>diff / 60000\<rfloor>;
            seconds = \<lfloor>(diff - of_int minutes * 60000) / 1000\<rfloor>
        in (int_text minutes @ js '' minute'' @ plural minutes @ js '' '' @ int_text seconds @ js '' second'' @ plural seconds,
            False))"

section \<open>Lemmas\<close>

text \<open>What is shown is copy of the console, never a text of the server, and never empty.\<close>

lemma apiErrorMessage_own_copy: "apiErrorMessage e \<in> insert GENERIC_MESSAGE (snd ` set STATUS_MESSAGES)"
  by (cases e) (auto split: option.split dest!: map_of_SomeD intro: rev_image_eqI)

lemma accept_messages_nonempty [simp]: "getAcceptDeviceErrorMessage e err \<noteq> []" "INVALID_CODE \<noteq> []" "WRONG_PLACE \<noteq> []"
  by (simp_all add: getAcceptDeviceErrorMessage_def FALLBACK_def LICENSE_402_def BILLING_402_def NAMESPACE_403_def
      RENAME_409_def INVALID_CODE_def WRONG_PLACE_def split: option.split)

lemma loadConfig_once: "loadConfig (loadConfig s) = loadConfig s"
  by (simp add: loadConfig_def)

text \<open>A member of the answer wins over the default, every other default stays.\<close>

lemma spread_lookup:
  "map_of (spread base over) k = (case map_of (rev over) k of None \<Rightarrow> map_of base k
     | Some v \<Rightarrow> if k \<in> fst ` set base then Some v else map_of over k)"
proof -
  have base: "map_of (map (\<lambda>(k, v). (k, case map_of (rev over) k of None \<Rightarrow> v | Some x \<Rightarrow> x)) base) k =
      map_option (\<lambda>v. case map_of (rev over) k of None \<Rightarrow> v | Some x \<Rightarrow> x) (map_of base k)"
    by (induction base) (auto split: option.split)
  have "map_of (filter (\<lambda>(k, v). k \<notin> fst ` set base) over) k = (if k \<in> fst ` set base then None else map_of over k)"
    by (induction over) (auto simp: image_iff split: if_splits)
  moreover have "map_of base k = None \<longleftrightarrow> k \<notin> fst ` set base" "map_of (rev over) k = None \<longleftrightarrow> map_of over k = None"
    by (simp_all add: map_of_eq_None_iff)
  ultimately show ?thesis
    by (auto simp: spread_def map_add_def base split: option.splits)
qed

definition sane :: "polling_options \<Rightarrow> bool" where
  "sane p \<longleftrightarrow> 0 < initialInterval p \<and> 0 < maxInterval p \<and> 1 \<le> backoffFactor p"

definition in_range :: "polling_options \<Rightarrow> rat \<Rightarrow> bool" where
  "in_range p d \<longleftrightarrow> min (initialInterval p) (maxInterval p) \<le> d \<and> d \<le> max (initialInterval p) (maxInterval p)"

lemma backoff_in_range:
  assumes "sane p" "in_range p d"
  shows "in_range p (min (d * backoffFactor p) (maxInterval p))"
proof -
  have "0 < d"
    using assms by (auto simp: sane_def in_range_def min_def split: if_splits)
  then have "d \<le> d * backoffFactor p"
    using assms(1) by (simp add: sane_def)
  then show ?thesis
    using assms(2) by (auto simp: in_range_def min_def max_def split: if_splits)
qed

definition poll_inv :: "polling_options \<Rightarrow> polling \<Rightarrow> bool" where
  "poll_inv p s \<longleftrightarrow> (activeRef s \<longrightarrow> timers s \<noteq> [] \<or> polls s \<noteq> []) \<and>
     list_all (\<lambda>t. in_range p (snd t)) (timers s) \<and> list_all (in_range p) (polls s)"

lemma list_all_drop1: "list_all P xs \<Longrightarrow> list_all P (remove1 x xs)"
  by (meson list.pred_set notin_set_remove1)

lemma poll_reach_inv:
  assumes "poll_reach p s" "sane p"
  shows "poll_inv p s"
  using assms
proof (induction rule: poll_reach.induct)
  case (fire s t)
  then show ?case
    by (auto simp: poll_inv_def timer_fires_def Let_def list_all_drop1 list_all_iff dest: notin_set_remove1)
next
  case (answer s d a)
  then have "in_range p d"
    by (auto simp: poll_inv_def list_all_iff)
  then have "in_range p (min (d * backoffFactor p) (maxInterval p))"
    using backoff_in_range answer.prems by blast
  then show ?case
    using answer.IH [OF answer.prems]
    by (auto simp: poll_inv_def poll_answer_def Let_def list_all_drop1 schedule_def stop_polling_def clear_timer_def
        list_all_iff split: option.splits dest: notin_set_remove1)
qed (auto simp: poll_inv_def initial_polling_def start_polling_def stop_polling_def schedule_def unmount_polling_def
    clear_timer_def list_all_iff in_range_def split: option.splits)

lemma countdown_exact:
  assumes "0 < targetTimestamp * 1000 - now"
  shows "\<exists>minutes seconds. updateCountdown targetTimestamp now =
      (int_text minutes @ js '' minute'' @ plural minutes @ js '' '' @ int_text seconds @ js '' second'' @ plural seconds, False) \<and>
    0 \<le> minutes \<and> 0 \<le> seconds \<and> seconds < 60 \<and> minutes * 60 + seconds = \<lfloor>(targetTimestamp * 1000 - now) / 1000\<rfloor>"
proof -
  define diff where "diff = targetTimestamp * 1000 - now"
  define m where "m = \<lfloor>diff / 60000\<rfloor>"
  define n where "n = \<lfloor>(diff - of_int m * 60000) / 1000\<rfloor>"
  have "of_int m \<le> diff / 60000 \<and> diff / 60000 < of_int (m + 1)"
    unfolding m_def by (rule floor_correct)
  then have m: "of_int m * 60000 \<le> diff" "diff < (of_int m + 1) * 60000"
    by (simp_all add: field_simps)
  have "0 \<le> m"
    using assms by (simp add: m_def diff_def)
  moreover have "0 \<le> n" "n < 60"
    using m by (simp_all add: n_def floor_less_iff field_simps)
  moreover have "(diff - of_int m * 60000) / 1000 = diff / 1000 - of_int (m * 60)"
    by (simp add: field_simps)
  then have "n = \<lfloor>diff / 1000\<rfloor> - m * 60"
    unfolding n_def by (metis floor_diff_of_int)
  moreover have "updateCountdown targetTimestamp now =
      (int_text m @ js '' minute'' @ plural m @ js '' '' @ int_text n @ js '' second'' @ plural n, False)"
    using assms by (simp add: updateCountdown_def Let_def flip: diff_def m_def n_def)
  ultimately show ?thesis
    unfolding diff_def by (intro exI [of _ m] exI [of _ n]) simp
qed

lemma accept_code_device:
  assumes "accept_code api tenant code s = (Inr (Some (uid, name)), sv)"
  obtains d s1 where "resolveDeviceLoginCode api code s = (Inr d, s1)" "name = text_or_empty (rs_name d)"
    "rs_kind d = Some (js ''pairing'') \<Longrightarrow>
      \<exists>u. acceptDevicePairing api code (text_or_empty tenant) s1 = (Inr u, sv) \<and> uid = text_or_empty u"
    "rs_kind d \<noteq> Some (js ''pairing'') \<Longrightarrow> rs_uid d = Some uid \<and> acceptDevice api uid s1 = (Inr (), sv)"
proof -
  obtain d s1 where r: "resolveDeviceLoginCode api code s = (Inr d, s1)"
    using assms by (auto simp: accept_code_def split: prod.splits sum.splits)
  have uid: "text_or_empty u \<noteq> [] \<Longrightarrow> u = Some (text_or_empty u)" for u
    by (cases u) (simp_all add: text_or_empty_def)
  show ?thesis
  proof (cases "rs_kind d = Some (js ''pairing'')")
    case True
    then show ?thesis
      using assms r that by (auto simp: accept_code_def split: prod.splits sum.splits)
  next
    case False
    then show ?thesis
      using assms r that uid [of "rs_uid d"]
      by (auto simp: accept_code_def split: prod.splits sum.splits if_splits)
  qed
qed

section \<open>Properties\<close>

text \<open>
  C29: submitting a code ends with exactly one of a device and a message, and not pending. A device is
  returned only when the server resolved the code and accepted that device: a pairing code into the
  namespace of the session, a login code by the uid it resolved to.
\<close>

theorem submit_code_outcome:
  "case submit_code e api tenant code s of (res, s') \<Rightarrow>
     \<not> isPending s' \<and> (res = None \<longleftrightarrow> error s' \<noteq> []) \<and>
     (\<forall>uid name. res = Some (uid, name) \<longrightarrow>
        (\<exists>d s1. resolveDeviceLoginCode api code (server s) = (Inr d, s1) \<and> name = text_or_empty (rs_name d) \<and>
           (if rs_kind d = Some (js ''pairing'')
            then \<exists>u. acceptDevicePairing api code (text_or_empty tenant) s1 = (Inr u, server s') \<and> uid = text_or_empty u
            else rs_uid d = Some uid \<and> acceptDevice api uid s1 = (Inr (), server s'))))"
proof (cases "accept_code api tenant code (server s)")
  case (Pair r sv)
  show ?thesis
  proof (cases r)
    case (Inl err)
    then show ?thesis
      using Pair by (simp add: submit_code_def Let_def)
  next
    case (Inr x)
    show ?thesis
    proof (cases x)
      case None
      then show ?thesis
        using Pair Inr by (simp add: submit_code_def Let_def)
    next
      case (Some d)
      obtain uid name where d: "d = (uid, name)"
        by (cases d)
      have acc: "accept_code api tenant code (server s) = (Inr (Some (uid, name)), sv)"
        using Pair Inr Some d by simp
      show ?thesis
        by (rule accept_code_device [OF acc]) (auto simp: submit_code_def Let_def acc)
    qed
  qed
qed

definition toy_api :: "nat device_api" where
  "toy_api = \<lparr>resolveDeviceLoginCode = (\<lambda>code n. (Inr \<lparr>rs_kind = Some (js ''pairing''), rs_uid = None, rs_name = Some (js ''box'')\<rparr>, n)),
     acceptDevicePairing = (\<lambda>code tenant n. (Inr (Some tenant), n + 1)), acceptDevice = (\<lambda>uid n. (Inr (), n))\<rparr>"

theorem submit_code_outcome_witness:
  "fst (submit_code Community toy_api (Some (js ''t'')) (js ''c'') \<lparr>isPending = False, error = [], server = 0\<rparr>) =
     Some (js ''t'', js ''box'') \<and>
   error (snd (submit_code Community toy_api (Some (js ''t'')) (js ''c'') \<lparr>isPending = False, error = [], server = 0\<rparr>)) = []"
proof -
  have "fst (submit_code Community toy_api (Some (js ''t'')) (js ''c'') \<lparr>isPending = False, error = [], server = 0\<rparr>) =
     Some (js ''t'', js ''box'')"
    by (simp add: submit_code_def accept_code_def toy_api_def text_or_empty_def)
  then show ?thesis
    using submit_code_outcome [where e = Community and api = toy_api and tenant = "Some (js ''t'')" and code = "js ''c''" and
        s = "\<lparr>isPending = False, error = [], server = 0\<rparr>"]
    by (auto simp: case_prod_beta)
qed

text \<open>
  C37: polling goes on until it is stopped, at bounded intervals. With positive intervals and a factor of at
  least one, in every reachable state: while polling is active a timer is pending or a request is under
  way, every delay lies between the smaller and the larger of the initial and the maximal interval, and
  once it is stopped neither a timer nor an answer starts anything.
\<close>

theorem polling_goes_on:
  assumes "poll_reach p s" "sane p"
  shows "(activeRef s \<longrightarrow> timers s \<noteq> [] \<or> polls s \<noteq> []) \<and>
    list_all (in_range p) (map snd (timers s) @ polls s) \<and>
    (\<not> activeRef s \<longrightarrow> polls (timer_fires t s) = polls s \<and> timers (poll_answer p d a s) = timers s) \<and>
    (let s' = stop_polling s in \<not> activeRef s' \<and> \<not> pl_isPolling s' \<and> polls (timer_fires t s') = polls s' \<and>
       timers (poll_answer p d a s') = timers s')"
proof -
  have stopped: "\<not> activeRef x \<longrightarrow> polls (timer_fires t x) = polls x \<and> timers (poll_answer p d a x) = timers x" for x
    by (simp add: timer_fires_def poll_answer_def Let_def)
  moreover have "\<not> activeRef (stop_polling s)" "\<not> pl_isPolling (stop_polling s)"
    by (simp_all add: stop_polling_def clear_timer_def split: option.split)
  ultimately show ?thesis
    using poll_reach_inv [OF assms] by (simp add: poll_inv_def list.pred_map comp_def Let_def)
qed

theorem polling_goes_on_witness:
  "length (timers (start_polling default_options initial_polling)) + length (polls (start_polling default_options initial_polling)) > 0"
proof -
  have "poll_reach default_options (start_polling default_options initial_polling)"
    by (intro poll_reach.intros)
  moreover have "sane default_options" "activeRef (start_polling default_options initial_polling)"
    by (simp_all add: sane_def default_options_def start_polling_def initial_polling_def schedule_def)
  ultimately show ?thesis
    using polling_goes_on [of default_options "start_polling default_options initial_polling"] by auto
qed

section \<open>Two chains of polls\<close>

text \<open>
  The comment of the hook says that waiting for the answer before the next timer prevents a pile-up of
  requests. Stopping and starting again while a request is under way leaves the old request in the chain:
  its answer finds polling active and schedules a second timer.
\<close>

theorem restart_doubles_polling:
  "\<exists>s. poll_reach default_options s \<and> activeRef s \<and> length (timers s) = 2"
proof -
  define s1 where "s1 = timer_fires (0, 2000) (start_polling default_options initial_polling)"
  define s2 where "s2 = poll_answer default_options 2000 (Some False) (start_polling default_options (stop_polling s1))"
  have "poll_reach default_options s2"
    unfolding s2_def s1_def
    by (intro poll_reach.intros)
      (simp_all add: timer_fires_def start_polling_def schedule_def initial_polling_def default_options_def
        stop_polling_def clear_timer_def)
  moreover have "activeRef s2" "length (timers s2) = 2"
    by (simp_all add: s2_def s1_def poll_answer_def timer_fires_def start_polling_def schedule_def initial_polling_def
        default_options_def stop_polling_def clear_timer_def)
  ultimately show ?thesis
    by blast
qed

end
