(* ===== verification/Account.thy ===== *)
theory Account
  imports Auth DeviceAccept
begin

text \<open>
  The smaller stores of the console: resetting the second factor (\<open>stores/mfaResetStore.ts\<close>), which signs in
  through the session store, signing up (\<open>stores/signUpStore.ts\<close>), the theme (\<open>stores/themeStore.ts\<close>) and the
  command palette (\<open>stores/commandPaletteStore.ts\<close>).
\<close>

section \<open>Resetting the second factor\<close>

record mfa_reset =
  mfaResetToken :: "jsstring option"
  mfaResetIdentifier :: "jsstring option"
  mr_loading :: bool
  mr_error :: "jsstring option"

definition initial_mfa_reset :: mfa_reset where
  "initial_mfa_reset = \<lparr>mfaResetToken = None, mfaResetIdentifier = None, mr_loading = False, mr_error = None\<rparr>"

type_synonym ('s, 'k) mfa_world = "mfa_reset \<times> ('s, 'k) app"

text \<open>A computation on the session store, and \<open>set\<close> of this store.\<close>

definition on_app :: "(('s, 'k) app, 'a) io \<Rightarrow> (('s, 'k) mfa_world, 'a) io" where
  "on_app m = (\<lambda>(r, w). case m w of (x, w') \<Rightarrow> (x, (r, w')))"

definition set_reset :: "(mfa_reset \<Rightarrow> mfa_reset) \<Rightarrow> (('s, 'k) mfa_world, unit) io" where
  "set_reset f = modify (\<lambda>(r, w). (f r, w))"

definition requestMfaReset :: "auth_env \<Rightarrow> jsstring \<Rightarrow> (('s, 'k) mfa_world, unit) io" where
  "requestMfaReset env identifier =
     seq (set_reset (\<lambda>r. r\<lparr>mr_loading := True, mr_error := None\<rparr>))
     (catch
       (bind (on_app (sdk env (RequestResetMfaReq identifier))) (\<lambda>resp.
          set_reset (\<lambda>r. r\<lparr>mfaResetToken := Some (d_token (r_data resp)), mfaResetIdentifier := Some identifier,
            mr_loading := False\<rparr>)))
       (\<lambda>_. seq (set_reset (\<lambda>r. r\<lparr>mr_loading := False,
                   mr_error := Some (js ''Unable to send reset emails. Please check your identifier.'')\<rparr>))
            (throw (JsError (js ''Reset request failed'')))))"

definition completeMfaReset :: "auth_env \<Rightarrow> jsstring \<Rightarrow> jsstring \<Rightarrow> (('s, 'k) mfa_world, unit) io" where
  "completeMfaReset env mainEmailCode recoveryEmailCode =
     bind (gets (\<lambda>(r, w). mfaResetToken r)) (\<lambda>token.
     if \<not> truthy_text token
     then seq (set_reset (\<lambda>r. r\<lparr>mr_error := Some (js ''Invalid reset session. Please start over.'')\<rparr>))
            (throw (JsError (js ''No reset token available'')))
     else
       seq (set_reset (\<lambda>r. r\<lparr>mr_loading := True, mr_error := None\<rparr>))
       (catch
         (bind (on_app (sdk env (ResetMfaReq (the token) mainEmailCode recoveryEmailCode))) (\<lambda>resp.
            seq (on_app (set_io (\<lambda>s. s\<lparr>a_token := Some (d_token (r_data resp)), a_user := Some (d_user (r_data resp)),
                   a_userId := Some (d_id (r_data resp)), a_email := Some (d_email (r_data resp)),
                   a_tenant := Some (d_tenant (r_data resp)), a_name := Some (d_name (r_data resp)),
                   a_isAdmin := (d_admin (r_data resp) = Some True), a_mfaEnabled := (d_mfa (r_data resp) = Some True)\<rparr>)))
              (set_reset (\<lambda>r. r\<lparr>mfaResetToken := None, mfaResetIdentifier := None, mr_loading := False\<rparr>))))
         (\<lambda>_. seq (set_reset (\<lambda>r. r\<lparr>mr_loading := False,
                     mr_error := Some (js ''Invalid verification codes. Please check and try again.'')\<rparr>))
              (throw (JsError (js ''Invalid codes''))))))"

definition reset_mfa :: "(('s, 'k) mfa_world, unit) io" where
  "reset_mfa = set_reset (\<lambda>_. initial_mfa_reset)"

section \<open>Signing up\<close>

datatype validation_status = Idle | Processing | Success | Failed | FailedToken

record signup_state =
  signUpToken :: "jsstring option"
  signUpTenant :: "jsstring option"
  signUpLoading :: bool
  signUpError :: "jsstring option"
  signUpServerFields :: "jsstring list"
  resendLoading :: bool
  resendError :: "jsstring option"
  validationStatus :: validation_status

definition initial_signup :: signup_state where
  "initial_signup = \<lparr>signUpToken = None, signUpTenant = None, signUpLoading = False, signUpError = None,
     signUpServerFields = [], resendLoading = False, resendError = None, validationStatus = Idle\<rparr>"

text \<open>The answer of the registration: an error, or the token and the tenant, which may be missing.\<close>

definition signUp :: "caught + (jsstring option \<times> jsstring option) \<Rightarrow> signup_state \<Rightarrow> jsstring option \<times> signup_state" where
  "signUp reply s0 =
     (let s = s0\<lparr>signUpLoading := True, signUpError := None, signUpServerFields := [], signUpToken := None, signUpTenant := None\<rparr> in
      case reply of
        Inr (token, tnt) \<Rightarrow> (token, s\<lparr>signUpLoading := False, signUpToken := token, signUpTenant := tnt\<rparr>)
      | Inl err \<Rightarrow>
          let names = map fst (apiErrorFields err) in
          if length names > 0 then (None, s\<lparr>signUpLoading := False, signUpServerFields := names\<rparr>)
          else (None, s\<lparr>signUpLoading := False, signUpError := Some (apiErrorMessage err)\<rparr>))"

definition clearSignUpServerField :: "jsstring \<Rightarrow> signup_state \<Rightarrow> signup_state" where
  "clearSignUpServerField field s = s\<lparr>signUpServerFields := filter (\<lambda>f. f \<noteq> field) (signUpServerFields s)\<rparr>"

definition resetSignUpErrors :: "signup_state \<Rightarrow> signup_state" where
  "resetSignUpErrors s = s\<lparr>signUpError := None, signUpServerFields := []\<rparr>"

definition resendEmail :: "bool \<Rightarrow> signup_state \<Rightarrow> bool \<times> signup_state" where
  "resendEmail sent s0 =
     (let s = s0\<lparr>resendLoading := True, resendError := None\<rparr> in
      if sent then (True, s\<lparr>resendLoading := False\<rparr>)
      else (False, s\<lparr>resendLoading := False, resendError := Some (js ''Failed to resend email. Please try again.'')\<rparr>))"

text \<open>\<open>aborted\<close> is the state of the abort signal when the request failed.\<close>

definition validateAccount :: "caught option \<Rightarrow> bool \<Rightarrow> signup_state \<Rightarrow> signup_state" where
  "validateAccount failure aborted s0 =
     (let s = s0\<lparr>validationStatus := Processing\<rparr> in
      case failure of
        None \<Rightarrow> s\<lparr>validationStatus := Success\<rparr>
      | Some err \<Rightarrow>
          if aborted then s
          else s\<lparr>validationStatus := (if status_of err = Some 400 \<or> status_of err = Some 401 then FailedToken else Failed)\<rparr>)"

definition resetValidation :: "signup_state \<Rightarrow> signup_state" where
  "resetValidation s = s\<lparr>validationStatus := Idle\<rparr>"

definition setValidationFailed :: "signup_state \<Rightarrow> signup_state" where
  "setValidationFailed s = s\<lparr>validationStatus := Failed\<rparr>"

definition resetResendError :: "signup_state \<Rightarrow> signup_state" where
  "resetResendError s = s\<lparr>resendError := None\<rparr>"

section \<open>Theme and command palette\<close>

datatype app_theme = Dark | Light

record theme_state =
  theme :: app_theme
  theme_item :: "jsstring option"
  light_class :: bool

fun theme_name :: "app_theme \<Rightarrow> jsstring" where
  "theme_name Dark = js ''dark''"
| "theme_name Light = js ''light''"

definition resolveInitialTheme :: "jsstring option \<Rightarrow> app_theme" where
  "resolveInitialTheme saved = (if saved = Some (js ''light'') then Light else Dark)"

definition applyTheme :: "app_theme \<Rightarrow> theme_state \<Rightarrow> theme_state" where
  "applyTheme t s = s\<lparr>light_class := (t = Light)\<rparr>"

definition load_theme :: "jsstring option \<Rightarrow> theme_state" where
  "load_theme saved = applyTheme (resolveInitialTheme saved)
     \<lparr>theme = resolveInitialTheme saved, theme_item = saved, light_class = False\<rparr>"

definition setTheme :: "app_theme \<Rightarrow> theme_state \<Rightarrow> theme_state" where
  "setTheme t s = (applyTheme t (s\<lparr>theme_item := Some (theme_name t)\<rparr>))\<lparr>theme := t\<rparr>"

definition toggleTheme :: "theme_state \<Rightarrow> theme_state" where
  "toggleTheme s = setTheme (if theme s = Dark then Light else Dark) s"

record palette_state =
  palette_open :: bool

definition openPalette :: "palette_state \<Rightarrow> palette_state" where
  "openPalette s = s\<lparr>palette_open := True\<rparr>"

definition closePalette :: "palette_state \<Rightarrow> palette_state" where
  "closePalette s = s\<lparr>palette_open := False\<rparr>"

section \<open>Lemmas\<close>

lemma on_app_Inl: "on_app m (r, w) = (Inl e, (r', w')) \<longleftrightarrow> m w = (Inl e, w') \<and> r' = r"
  by (auto simp: on_app_def split: prod.splits)

text \<open>A predicate of the session store lifts to both stores.\<close>

lemma safe_on_app: "safe P m \<Longrightarrow> safe (\<lambda>x. P (snd x)) (on_app m)"
  by (auto simp: safe_def on_app_def split: prod.splits)

lemma safe_set_reset: "safe (\<lambda>x. P (snd x)) (set_reset f)"
  by (auto simp: safe_def set_reset_def modify_def)

lemma requestMfaReset_safe:
  "safe P (sdk env (RequestResetMfaReq i)) \<Longrightarrow> safe (\<lambda>x. P (snd x)) (requestMfaReset env i)"
  unfolding requestMfaReset_def by (intro safe_rules safe_on_app safe_set_reset)

lemma completeMfaReset_inv: "safe (\<lambda>x. session_inv (snd x)) (completeMfaReset env a b)"
  unfolding completeMfaReset_def by (intro safe_rules safe_on_app safe_set_reset sdk_safe set_io_safe)

lemma safe_throw_seq_last: "safe_throw P m \<Longrightarrow> (\<And>w. \<exists>w'. k w = (Inr (), w')) \<Longrightarrow> safe_throw P (seq m k)"
  unfolding safe_throw_def seq_def bind_def by (auto split: prod.splits sum.splits) (metis Inl_Inr_False fst_conv)+

lemma completeMfaReset_tok: "safe_throw (\<lambda>x. tok T (snd x)) (completeMfaReset env a b)"
proof -
  have set: "\<exists>w'. set_reset f w = (Inr (), w')" for f and w :: "('s, 'k) mfa_world"
    by (simp add: set_reset_def modify_def)
  have on: "safe_throw P (on_app (set_io f))" for P f
    by (auto simp: safe_throw_def on_app_def set_io_def modify_def)
  show ?thesis
    unfolding completeMfaReset_def
    by (intro safe_throw_bind safe_throw_if safe_throw_seq safe_throw_catch safe_throw_throw safe_basic safe_set_reset
        safe_on_app tok_sdk safe_throw_seq_last on set)
qed

lemma sdk_answered:
  assumes "sdk env req w = (Inr resp, w')"
  shows "\<exists>tok. answer env req tok = Some resp" "http_ok (r_status resp)"
  using assms by (auto simp: sdk_def io_simps split: prod.splits sum.splits option.splits if_splits)

lemma completeMfaReset_result:
  assumes "completeMfaReset env c1 c2 (r, w) = (res, (r', w'))" "\<not> mr_loading r"
  shows "\<not> mr_loading r' \<and> (case res of
       Inl e \<Rightarrow> mr_error r' \<noteq> None \<and> mfaResetToken r' = mfaResetToken r
     | Inr _ \<Rightarrow> mfaResetToken r' = None \<and>
         (\<exists>t tok resp. mfaResetToken r = Some t \<and> t \<noteq> [] \<and> answer env (ResetMfaReq t c1 c2) tok = Some resp \<and>
            http_ok (r_status resp) \<and> a_token (auth w') = Some (d_token (r_data resp)) \<and>
            a_userId (auth w') = Some (d_id (r_data resp)) \<and> a_tenant (auth w') = Some (d_tenant (r_data resp))))"
proof (cases "truthy_text (mfaResetToken r)")
  case True
  then obtain t where t: "mfaResetToken r = Some t" "t \<noteq> []"
    by (auto simp: truthy_text_def split: option.splits)
  obtain x w1 where sdk: "sdk env (ResetMfaReq t c1 c2) w = (x, w1)"
    by fastforce
  show ?thesis
  proof (cases x)
    case (Inl e)
    then show ?thesis
      using assms(1) True t by (auto simp: completeMfaReset_def io_simps set_reset_def on_app_def set_io_def sdk)
  next
    case (Inr resp)
    obtain tok where "answer env (ResetMfaReq t c1 c2) tok = Some resp" "http_ok (r_status resp)"
      using sdk_answered [OF sdk [unfolded Inr]] by blast
    moreover have "res = Inr () \<and> \<not> mr_loading r' \<and> mfaResetToken r' = None \<and>
        a_token (auth w') = Some (d_token (r_data resp)) \<and> a_userId (auth w') = Some (d_id (r_data resp)) \<and>
        a_tenant (auth w') = Some (d_tenant (r_data resp))"
      using assms(1) True t Inr
      by (auto simp: completeMfaReset_def io_simps set_reset_def on_app_def set_io_def sdk)
    ultimately show ?thesis
      using t by auto
  qed
next
  case False
  then show ?thesis
    using assms by (auto simp: completeMfaReset_def io_simps set_reset_def)
qed

text \<open>
  C30: Resetting the second factor keeps the invariant of the session, and when it fails nobody is signed in: the
  session keeps its token or has none, and the reset token can be tried again. When it succeeds the reset token
  is spent and the session is the one the server sent for that token and these codes. In every case the store
  stops loading.
\<close>

theorem mfa_reset_outcome:
  assumes "completeMfaReset env c1 c2 (r, w) = (res, (r', w'))" "session_inv w" "\<not> mr_loading r"
  shows "session_inv w' \<and> \<not> mr_loading r' \<and>
    (case res of
       Inl e \<Rightarrow> mr_error r' \<noteq> None \<and> mfaResetToken r' = mfaResetToken r \<and>
         (a_token (auth w') = a_token (auth w) \<or> a_token (auth w') = None)
     | Inr _ \<Rightarrow> mfaResetToken r' = None \<and>
         (\<exists>t tok resp. mfaResetToken r = Some t \<and> t \<noteq> [] \<and> answer env (ResetMfaReq t c1 c2) tok = Some resp \<and>
            http_ok (r_status resp) \<and> a_token (auth w') = Some (d_token (r_data resp)) \<and>
            a_userId (auth w') = Some (d_id (r_data resp)) \<and> a_tenant (auth w') = Some (d_tenant (r_data resp))))"
proof -
  have "session_inv w'"
    using completeMfaReset_inv [of env c1 c2] assms(1,2) unfolding safe_def by (metis snd_conv)
  moreover have "a_token (auth w') = a_token (auth w) \<or> a_token (auth w') = None" if "res = Inl e" for e
    using safe_throwD [OF completeMfaReset_tok [of "a_token (auth w)" env c1 c2], of "(r, w)" e "(r', w')"] assms(1) that
    by (simp add: tok_def)
  ultimately show ?thesis
    using completeMfaReset_result [OF assms(1,3)] by (auto split: sum.splits)
qed

definition reset_user :: user_data where
  "reset_user = \<lparr>d_token = js ''t'', d_user = js ''u'', d_id = js ''1'', d_email = [], d_tenant = js ''n'', d_name = [],
     d_admin = None, d_mfa = None, d_origin = None, d_recovery_email = None\<rparr>"

definition granting_env :: auth_env where
  "granting_env = \<lparr>answer = (\<lambda>_ _. Some \<lparr>r_status = 200, r_mfa_token = None, r_expires_at = None, r_url = [],
     r_data = reset_user\<rparr>), now_of = 0, isTokenLogin = False\<rparr>"

lemma granted_reset:
  "completeMfaReset granting_env [1] [2] (initial_mfa_reset\<lparr>mfaResetToken := Some [9]\<rparr>, loaded_page toy_vault None) =
     (Inr (), snd (completeMfaReset granting_env [1] [2]
        (initial_mfa_reset\<lparr>mfaResetToken := Some [9]\<rparr>, loaded_page toy_vault None)))"
  by (simp add: completeMfaReset_def granting_env_def sdk_def request_interceptor_def io_simps set_io_def on_app_def
      set_reset_def initial_mfa_reset_def truthy_text_def loaded_page_def rehydrate_def initialState_def http_ok_def
      Let_def del: settle.simps)

theorem mfa_reset_outcome_witness:
  "a_token (auth (snd (snd (completeMfaReset granting_env [1] [2]
     (initial_mfa_reset\<lparr>mfaResetToken := Some [9]\<rparr>, loaded_page toy_vault None))))) = Some (js ''t'')"
proof -
  let ?x = "snd (completeMfaReset granting_env [1] [2]
     (initial_mfa_reset\<lparr>mfaResetToken := Some [9]\<rparr>, loaded_page toy_vault None))"
  have "completeMfaReset granting_env [1] [2] (initial_mfa_reset\<lparr>mfaResetToken := Some [9]\<rparr>, loaded_page toy_vault None) =
     (Inr (), (fst ?x, snd ?x))"
    using granted_reset by simp
  from mfa_reset_outcome [OF this loaded_inv] show ?thesis
    by (auto simp: initial_mfa_reset_def granting_env_def reset_user_def)
qed

lemma signUp_outcome:
  assumes "signUp reply s = (token, s')"
  shows "\<not> signUpLoading s'" "token = signUpToken s'"
    "(signUpServerFields s' \<noteq> [] \<or> signUpError s' \<noteq> None) \<longleftrightarrow> (\<exists>e. reply = Inl e)"
    "signUpServerFields s' = [] \<or> signUpError s' = None"
  using assms by (auto simp: signUp_def Let_def split: sum.splits if_splits)

text \<open>The saved theme is the one a reload shows, and the page has the class of the light theme exactly then.\<close>

lemma theme_reloaded: "load_theme (theme_item (setTheme t s)) = setTheme t s"
  by (cases t) (simp_all add: load_theme_def setTheme_def applyTheme_def resolveInitialTheme_def)

lemma toggle_twice: "theme (toggleTheme (toggleTheme s)) = theme s"
  by (cases "theme s") (simp_all add: toggleTheme_def setTheme_def applyTheme_def)

end
