(* ===== verification/TerminalUi.thy ===== *)
theory TerminalUi
  imports DeviceAccept Stores
begin

text \<open>
  What surrounds a web terminal: the messages of the gateway and the errors shown for them
  (\<open>components/terminal/terminalErrors.ts\<close>), the keyboard shortcut for the font size
  (\<open>components/terminal/fontSizeShortcut.ts\<close>) and the store of the theme and the font
  (\<open>stores/terminalThemeStore.ts\<close>). The answers of the server to the requests for theme files are
  arguments.
\<close>

section \<open>Errors of a terminal\<close>

type_synonym link = "jsstring \<times> jsstring"

record error_entry =
  ee_title :: "jsstring option"
  ee_message :: jsstring
  ee_reconnect :: bool
  ee_hints :: "jsstring list"
  ee_links :: "link list option"

record terminal_error =
  te_title :: jsstring
  te_message :: jsstring
  te_reconnect :: bool
  te_hints :: "jsstring list"
  te_links :: "link list"

definition errorMap :: "(jsstring \<times> error_entry) list" where
  "errorMap =
     [(js ''failed to authenticate to device'',
        \<lparr>ee_title = None, ee_message = js ''The username or password is incorrect.'', ee_reconnect = True,
         ee_hints = [js ''The username must match the OS user on the device, not your ShellHub account.''],
         ee_links = None\<rparr>),
      (js ''failed to find the device'',
        \<lparr>ee_title = None, ee_message = js ''Cannot reach this device.'', ee_reconnect = False,
         ee_hints = [js ''The device may be offline or removed from ShellHub.''],
         ee_links = Some [(js ''Device details'', js ''/devices/$uid'')]\<rparr>),
      (js ''failed to connect to device'',
        \<lparr>ee_title = None, ee_message = js ''Cannot reach this device.'', ee_reconnect = False,
         ee_hints = [js ''Make sure the device is powered on and the ShellHub agent is running.''],
         ee_links = Some [(js ''Device details'', js ''/devices/$uid'')]\<rparr>),
      (js ''failed to create a session between the server to the agent'',
        \<lparr>ee_title = None, ee_message = js ''Connected to the device but could not start a session.'', ee_reconnect = False,
         ee_hints = [js ''This is usually temporary. Wait a few seconds and try again.'',
           js ''If it persists, the ShellHub agent on the device may need to be restarted.''],
         ee_links = None\<rparr>),
      (js ''failed to get the shell to agent'',
        \<lparr>ee_title = None, ee_message = js ''Connected to the device but it refused to open a shell.'', ee_reconnect = False,
         ee_hints = [js ''Check that the user has a valid login shell (not /usr/sbin/nologin or /bin/false).'',
           js ''On containerized agents, make sure a shell is available inside the container.''],
         ee_links = None\<rparr>),
      (js ''failed to request the pty to agent'',
        \<lparr>ee_title = None, ee_message = js ''Connected to the device but terminal allocation was denied.'', ee_reconnect = False,
         ee_hints = [js ''The device may have too many open terminals. Close unused sessions and try again.''],
         ee_links = None\<rparr>),
      (js ''failed to find the credentials'',
        \<lparr>ee_title = None, ee_message = js ''Your session credentials have expired.'', ee_reconnect = False,
         ee_hints = [js ''This happens when the connection takes too long to establish. Close and open a new terminal.''],
         ee_links = None\<rparr>),
      (js ''failed to get auth data from key'',
        \<lparr>ee_title = None, ee_message = js ''The selected public key could not be used for authentication.'', ee_reconnect = False,
         ee_hints = [js ''The key may have been deleted or modified since you selected it.'',
           js ''Verify the key is still registered in your SSH key settings.''],
         ee_links = None\<rparr>),
      (js ''failed to use the public key for this action'',
        \<lparr>ee_title = None, ee_message = js ''This public key is not authorized for this device.'', ee_reconnect = False,
         ee_hints = [js ''Public keys must be associated with the target device or its tags.''],
         ee_links = None\<rparr>),
      (js ''connections using public keys are not permitted when the agent version is 0.5.x or earlier'',
        \<lparr>ee_title = None, ee_message = js ''This device does not support public key authentication.'', ee_reconnect = True,
         ee_hints = [js ''The ShellHub agent is v0.5.x or earlier. Update to v0.6.0+ for public key support, or reconnect using a password.''],
         ee_links = Some [(js ''Device details'', js ''/devices/$uid'')]\<rparr>),
      (js ''access to the device has been denied'',
        \<lparr>ee_title = Some (js ''Access denied''), ee_message = js ''You do not have permission to access this device.'', ee_reconnect = False,
         ee_hints = [js ''Access may be restricted by a billing limit or namespace policy.''],
         ee_links = None\<rparr>),
      (js ''invalid sshid format'',
        \<lparr>ee_title = Some (js ''Invalid connection identifier''), ee_message = js ''The SSH connection identifier is malformed.'', ee_reconnect = False,
         ee_hints = [js ''Use the format username@namespace.device@host - for example: root@dev.agent@localhost.''],
         ee_links = None\<rparr>)]"

definition WS_INPUT :: rat where "WS_INPUT = 1"
definition WS_RESIZE :: rat where "WS_RESIZE = 2"
definition WS_SIGNATURE :: rat where "WS_SIGNATURE = 3"
definition WS_ERROR :: rat where "WS_ERROR = 4"
definition WS_SESSION :: rat where "WS_SESSION = 5"
definition WS_REAUTH :: rat where "WS_REAUTH = 6"

lemmas ws_kinds = WS_INPUT_def WS_RESIZE_def WS_SIGNATURE_def WS_ERROR_def WS_SESSION_def WS_REAUTH_def

definition HTTP_CONNECT_ERROR :: terminal_error where
  "HTTP_CONNECT_ERROR = \<lparr>te_title = js ''Connection failed'', te_message = js ''Could not start the session.'',
     te_reconnect = True,
     te_hints = [js ''The ShellHub server may be temporarily unavailable. Try again in a moment.''], te_links = []\<rparr>"

definition WS_CLOSE_ERROR :: terminal_error where
  "WS_CLOSE_ERROR = \<lparr>te_title = js ''Disconnected'', te_message = js ''The session has ended.'',
     te_reconnect = False, te_hints = [], te_links = []\<rparr>"

definition WS_NETWORK_ERROR :: terminal_error where
  "WS_NETWORK_ERROR = \<lparr>te_title = js ''Connection error'', te_message = js ''Could not reach the device.'',
     te_reconnect = False,
     te_hints = [js ''Check your network connection and make sure the ShellHub server is running.''], te_links = []\<rparr>"

definition WS_REAUTH_CANCELLED :: terminal_error where
  "WS_REAUTH_CANCELLED = \<lparr>te_title = js ''Re-authentication needed'',
     te_message = js ''This device requires a fresh re-authentication to connect.'',
     te_reconnect = True, te_hints = [], te_links = []\<rparr>"

text \<open>A message of the gateway: a JSON object with a numeric kind and a text; anything else is plain output.\<close>

definition parseMessage :: "jsstring \<Rightarrow> (rat \<times> jsstring) option" where
  "parseMessage data =
     (case JSON_parse data of
        None \<Rightarrow> None
      | Some msg \<Rightarrow>
          (case (as_number (getp msg (js ''kind'')), as_string (getp msg (js ''data''))) of
             (Some kind, Some d) \<Rightarrow> Some (kind, d)
           | _ \<Rightarrow> None))"

text \<open>\<open>s.split(p).join(r)\<close> for a non-empty \<open>p\<close>.\<close>

function replace_all :: "jsstring \<Rightarrow> jsstring \<Rightarrow> jsstring \<Rightarrow> jsstring" where
  "replace_all p r [] = []"
| "replace_all p r (c # s) =
     (if p \<noteq> [] \<and> startsWith (c # s) p then r @ replace_all p r (drop (length p) (c # s))
      else c # replace_all p r s)"
  by pat_completeness auto
termination
  by (relation "measure (\<lambda>(p, r, s). length s)") (auto simp: length_greater_0_conv [symmetric] simp del: length_greater_0_conv)

text \<open>The texts of the gateway are looked up as own entries of the table, not as members every object inherits.\<close>

definition resolveError :: "edition \<Rightarrow> jsstring \<Rightarrow> jsstring \<Rightarrow> terminal_error" where
  "resolveError e raw deviceUid =
     (case map_of errorMap raw of
        None \<Rightarrow> \<lparr>te_title = js ''Connection failed'', te_message = js ''An unexpected error occurred.'',
                  te_reconnect = False, te_hints = [], te_links = []\<rparr>
      | Some entry \<Rightarrow>
          let hasFirewall = isEnterpriseOrCloud e;
              hints = ee_hints entry @ (if hasFirewall then [js ''A firewall rule may be blocking this connection.''] else []);
              links = map (\<lambda>(label, to). (label, replace_all (js ''$uid'') deviceUid to))
                        (case ee_links entry of None \<Rightarrow> [] | Some ls \<Rightarrow> ls) @
                      (if hasFirewall then [(js ''Firewall rules'', js ''/firewall-rules'')] else [])
          in \<lparr>te_title = (case ee_title entry of None \<Rightarrow> js ''Connection failed'' | Some t \<Rightarrow> t),
              te_message = ee_message entry, te_reconnect = ee_reconnect entry, te_hints = hints, te_links = links\<rparr>)"

section \<open>Theme and font\<close>

type_synonym colors = "jsstring \<Rightarrow> jsstring option"

record terminal_theme =
  th_name :: jsstring
  th_dark :: bool
  th_preview :: "jsstring \<times> jsstring"
  th_colors :: colors

record theme_metadata =
  md_name :: jsstring
  md_file :: jsstring
  md_dark :: bool
  md_preview :: "jsstring \<times> jsstring"

definition TERMINAL_FONTS :: "jsstring list" where
  "TERMINAL_FONTS = map js [''IBM Plex Mono'', ''JetBrains Mono'', ''Fira Code'', ''Source Code Pro'', ''Ubuntu Mono'',
     ''Inconsolata'', ''Monaco'', ''Menlo'', ''monospace'']"

definition MIN_FONT_SIZE :: int where "MIN_FONT_SIZE = 8"
definition MAX_FONT_SIZE :: int where "MAX_FONT_SIZE = 24"
definition DEFAULT_FONT_SIZE :: int where "DEFAULT_FONT_SIZE = 14"

definition clampFontSize :: "int \<Rightarrow> int" where
  "clampFontSize n = min (max n MIN_FONT_SIZE) MAX_FONT_SIZE"

definition FALLBACK_THEME :: terminal_theme where
  "FALLBACK_THEME = \<lparr>th_name = js ''ShellHub Dark'', th_dark = True, th_preview = (js ''#18191B'', js ''#667ACC''),
     th_colors = map_of (map (\<lambda>(k, v). (js k, js v))
       [(''background'', ''#18191B''), (''foreground'', ''#E1E4EA''), (''cursor'', ''#667ACC''),
        (''cursorAccent'', ''#18191B''), (''selectionBackground'', ''#667ACC40''), (''black'', ''#1E2127''),
        (''red'', ''#ca6169''), (''green'', ''#82a568''), (''yellow'', ''#bf8c5d''), (''blue'', ''#56a2e1''),
        (''magenta'', ''#b07cc8''), (''cyan'', ''#4e9aa3''), (''white'', ''#E1E4EA''), (''brightBlack'', ''#5C6070''),
        (''brightRed'', ''#d9787f''), (''brightGreen'', ''#99ba82''), (''brightYellow'', ''#d4a676''),
        (''brightBlue'', ''#72b6ed''), (''brightMagenta'', ''#c495d6''), (''brightCyan'', ''#68b2ba''),
        (''brightWhite'', ''#f0ede8'')])\<rparr>"

definition truthy_color :: "jsstring option \<Rightarrow> bool" where
  "truthy_color c \<longleftrightarrow> c \<noteq> None \<and> c \<noteq> Some []"

definition normalizeColors :: "colors \<Rightarrow> colors" where
  "normalizeColors raw = (raw(js ''selection'' := None))(js ''selectionBackground'' :=
     (if truthy_color (raw (js ''selection'')) then raw (js ''selection'') else raw (js ''selectionBackground'')))"

record theme_store =
  themes :: "terminal_theme list"
  themeName :: jsstring
  cur_theme :: terminal_theme
  fontFamily :: jsstring
  fontSize :: int
  fontFamilyWithFallback :: jsstring
  loaded :: bool
  saved :: "jsstring \<Rightarrow> jsstring option"

definition KEY_theme :: jsstring where "KEY_theme = js ''terminalTheme''"
definition KEY_fontFamily :: jsstring where "KEY_fontFamily = js ''terminalFontFamily''"
definition KEY_fontSize :: jsstring where "KEY_fontSize = js ''terminalFontSize''"

lemmas storage_keys = KEY_theme_def KEY_fontFamily_def KEY_fontSize_def

definition with_fallback :: "jsstring \<Rightarrow> jsstring" where
  "with_fallback font = [39] @ font @ [39] @ js '', monospace''"

definition text_or :: "jsstring option \<Rightarrow> jsstring \<Rightarrow> jsstring" where
  "text_or x d = (case x of None \<Rightarrow> d | Some t \<Rightarrow> if t = [] then d else t)"

definition useTerminalThemeStore :: "(jsstring \<Rightarrow> jsstring option) \<Rightarrow> theme_store" where
  "useTerminalThemeStore st =
     (let font = text_or (st KEY_fontFamily) (js ''IBM Plex Mono'');
          parsed = (case st KEY_fontSize of None \<Rightarrow> None | Some t \<Rightarrow> if t = [] then None else parseInt t)
      in \<lparr>themes = [FALLBACK_THEME], themeName = text_or (st KEY_theme) (js ''ShellHub Dark''),
          cur_theme = FALLBACK_THEME, fontFamily = font,
          fontSize = (case parsed of None \<Rightarrow> DEFAULT_FONT_SIZE | Some n \<Rightarrow> clampFontSize n),
          fontFamilyWithFallback = with_fallback font, loaded = False, saved = st\<rparr>)"

text \<open>
  \<open>loadThemes\<close> after its check that nothing is loaded yet: \<open>metadata\<close> is the list of themes where it could be
  fetched, \<open>files\<close> the themes that could be.
\<close>

definition theme_of :: "(jsstring \<Rightarrow> colors option) \<Rightarrow> theme_metadata \<Rightarrow> terminal_theme list" where
  "theme_of files m = (case files (md_file m) of
      None \<Rightarrow> []
    | Some raw \<Rightarrow> [\<lparr>th_name = md_name m, th_dark = md_dark m, th_preview = md_preview m, th_colors = normalizeColors raw\<rparr>])"

definition themes_fetched ::
  "theme_metadata list option \<Rightarrow> (jsstring \<Rightarrow> colors option) \<Rightarrow> theme_store \<Rightarrow> theme_store" where
  "themes_fetched metadata files s =
     (case metadata of
        None \<Rightarrow> s\<lparr>loaded := True\<rparr>
      | Some ms \<Rightarrow>
          let ts = concat (map (theme_of files) ms);
              current = (case find (\<lambda>t. th_name t = themeName s) ts of
                           Some t \<Rightarrow> t
                         | None \<Rightarrow> (case ts of t # _ \<Rightarrow> t | [] \<Rightarrow> FALLBACK_THEME))
          in s\<lparr>themes := ts, cur_theme := current, loaded := True\<rparr>)"

definition loadThemes ::
  "theme_metadata list option \<Rightarrow> (jsstring \<Rightarrow> colors option) \<Rightarrow> theme_store \<Rightarrow> theme_store" where
  "loadThemes metadata files s = (if loaded s then s else themes_fetched metadata files s)"

definition setTheme :: "jsstring \<Rightarrow> theme_store \<Rightarrow> theme_store" where
  "setTheme name s = (case find (\<lambda>t. th_name t = name) (themes s) of
      None \<Rightarrow> s
    | Some t \<Rightarrow> s\<lparr>saved := (saved s)(KEY_theme \<mapsto> name), themeName := name, cur_theme := t\<rparr>)"

definition setFontFamily :: "jsstring \<Rightarrow> theme_store \<Rightarrow> theme_store" where
  "setFontFamily font s = s\<lparr>saved := (saved s)(KEY_fontFamily \<mapsto> font), fontFamily := font,
     fontFamilyWithFallback := with_fallback font\<rparr>"

definition setFontSize :: "int \<Rightarrow> theme_store \<Rightarrow> theme_store" where
  "setFontSize n s = (let clamped = clampFontSize n
     in s\<lparr>saved := (saved s)(KEY_fontSize \<mapsto> int_text clamped), fontSize := clamped\<rparr>)"

section \<open>The font size shortcut\<close>

datatype font_intent = Increase | Decrease | Reset

record key_event =
  ke_type :: jsstring
  ke_key :: jsstring
  altKey :: bool
  ctrlKey :: bool
  metaKey :: bool

definition INTENT_BY_KEY :: "(jsstring \<times> font_intent) list" where
  "INTENT_BY_KEY = [(js ''+'', Increase), (js ''='', Increase), (js ''-'', Decrease), (js ''0'', Reset)]"

definition STEP :: int where "STEP = 1"

definition nextFontSize :: "int \<Rightarrow> key_event \<Rightarrow> int option" where
  "nextFontSize current e =
     (if altKey e then None
      else if \<not> ctrlKey e \<and> \<not> metaKey e then None
      else case map_of INTENT_BY_KEY (ke_key e) of
        None \<Rightarrow> None
      | Some Increase \<Rightarrow> Some (current + STEP)
      | Some Decrease \<Rightarrow> Some (current - STEP)
      | Some Reset \<Rightarrow> Some DEFAULT_FONT_SIZE)"

text \<open>
  The key handler of a terminal (\<open>attachCustomKeyEventHandler\<close> in \<open>TerminalInstance.tsx\<close>): whether the key goes
  on to the shell, and the store.
\<close>

definition terminal_key :: "key_event \<Rightarrow> theme_store \<Rightarrow> bool \<times> theme_store" where
  "terminal_key e s =
     (if ke_type e \<noteq> js ''keydown'' then (True, s)
      else case nextFontSize (fontSize s) e of
        None \<Rightarrow> (True, s)
      | Some n \<Rightarrow> (False, setFontSize n s))"

section \<open>The store as actions\<close>

text \<open>A load that was started before others acted ends with \<open>ThemesFetched\<close>, at any later time.\<close>

datatype theme_action =
    LoadThemes "theme_metadata list option" "jsstring \<Rightarrow> colors option"
  | ThemesFetched "theme_metadata list option" "jsstring \<Rightarrow> colors option"
  | SetTheme jsstring
  | SetFontFamily jsstring
  | SetFontSize int
  | Key key_event

fun theme_step :: "theme_action \<Rightarrow> theme_store \<Rightarrow> theme_store" where
  "theme_step (LoadThemes ms fs) = loadThemes ms fs"
| "theme_step (ThemesFetched ms fs) = themes_fetched ms fs"
| "theme_step (SetTheme n) = setTheme n"
| "theme_step (SetFontFamily f) = setFontFamily f"
| "theme_step (SetFontSize n) = setFontSize n"
| "theme_step (Key e) = snd \<circ> terminal_key e"

text \<open>The settings offer the fonts of the list and themes with a name.\<close>

fun theme_choice :: "theme_action \<Rightarrow> bool" where
  "theme_choice (SetTheme n) = (n \<noteq> [])"
| "theme_choice (SetFontFamily f) = (f \<in> set TERMINAL_FONTS)"
| "theme_choice _ = True"

definition named :: "theme_store \<Rightarrow> terminal_theme option" where
  "named s = find (\<lambda>t. th_name t = themeName s) (themes s)"

definition reload :: "theme_store \<Rightarrow> theme_store" where
  "reload s = useTerminalThemeStore (saved s)"

definition prefs_inv :: "theme_store \<Rightarrow> bool" where
  "prefs_inv s \<longleftrightarrow> fontSize s \<in> {MIN_FONT_SIZE..MAX_FONT_SIZE} \<and>
     fontFamilyWithFallback s = with_fallback (fontFamily s) \<and>
     (cur_theme s \<in> set (themes s) \<or> cur_theme s = FALLBACK_THEME) \<and>
     (\<forall>t. named s = Some t \<longrightarrow> cur_theme s = t) \<and>
     fontSize (reload s) = fontSize s \<and> fontFamily (reload s) = fontFamily s \<and> themeName (reload s) = themeName s"

lemma clamp_range: "clampFontSize n \<in> {MIN_FONT_SIZE..MAX_FONT_SIZE}"
  by (simp add: clampFontSize_def MIN_FONT_SIZE_def MAX_FONT_SIZE_def)

lemma clamp_clamp [simp]: "clampFontSize (clampFontSize n) = clampFontSize n"
  by (simp add: clampFontSize_def MIN_FONT_SIZE_def MAX_FONT_SIZE_def)

lemma storage_keys_distinct [simp]:
  "KEY_theme \<noteq> KEY_fontFamily" "KEY_theme \<noteq> KEY_fontSize" "KEY_fontFamily \<noteq> KEY_fontSize"
  "KEY_fontFamily \<noteq> KEY_theme" "KEY_fontSize \<noteq> KEY_theme" "KEY_fontSize \<noteq> KEY_fontFamily"
  by (simp_all add: storage_keys)

lemma int_text_ne [simp]: "int_text n \<noteq> []"
  using parseInt_int_text [of n] by (auto simp: parseInt_def trimStart_def signed_prefix_def simp del: parseInt_int_text)

text \<open>What a reload reads, by the entries of the storage.\<close>

lemma reload_fields:
  "fontSize (reload s) = (case saved s KEY_fontSize of None \<Rightarrow> DEFAULT_FONT_SIZE
     | Some t \<Rightarrow> if t = [] then DEFAULT_FONT_SIZE else case parseInt t of None \<Rightarrow> DEFAULT_FONT_SIZE | Some n \<Rightarrow> clampFontSize n)"
  "fontFamily (reload s) = text_or (saved s KEY_fontFamily) (js ''IBM Plex Mono'')"
  "themeName (reload s) = text_or (saved s KEY_theme) (js ''ShellHub Dark'')"
  by (auto simp: reload_def useTerminalThemeStore_def Let_def split: option.splits)

lemma prefs_start: "prefs_inv (useTerminalThemeStore st)"
  using clamp_range
  by (auto simp: prefs_inv_def reload_def useTerminalThemeStore_def Let_def named_def
      MIN_FONT_SIZE_def MAX_FONT_SIZE_def DEFAULT_FONT_SIZE_def split: option.splits)

lemma prefs_setFontSize: "prefs_inv s \<Longrightarrow> prefs_inv (setFontSize n s)"
  using clamp_range [of n]
  by (auto simp: prefs_inv_def reload_fields setFontSize_def Let_def named_def)

lemma prefs_setFontFamily:
  assumes "prefs_inv s" "f \<in> set TERMINAL_FONTS"
  shows "prefs_inv (setFontFamily f s)"
proof -
  have "f \<noteq> []"
    using assms(2) by (auto simp: TERMINAL_FONTS_def)
  then show ?thesis
    using assms(1) by (auto simp: prefs_inv_def reload_fields setFontFamily_def named_def text_or_def)
qed

lemma prefs_setTheme:
  assumes "prefs_inv s" "n \<noteq> []"
  shows "prefs_inv (setTheme n s)"
proof (cases "find (\<lambda>t. th_name t = n) (themes s)")
  case (Some t)
  then have "t \<in> set (themes s)"
    by (auto simp: find_Some_iff)
  then show ?thesis
    using assms Some by (auto simp: prefs_inv_def reload_fields setTheme_def named_def text_or_def)
qed (use assms in \<open>simp add: setTheme_def\<close>)

lemma prefs_themes_fetched:
  assumes "prefs_inv s"
  shows "prefs_inv (themes_fetched ms fs s)"
proof (cases ms)
  case (Some l)
  define ts where "ts = concat (map (theme_of fs) l)"
  define c where "c = (case find (\<lambda>t. th_name t = themeName s) ts of
      Some t \<Rightarrow> t | None \<Rightarrow> (case ts of t # _ \<Rightarrow> t | [] \<Rightarrow> FALLBACK_THEME))"
  have s': "themes_fetched ms fs s = s\<lparr>themes := ts, cur_theme := c, loaded := True\<rparr>"
    by (simp add: themes_fetched_def Some Let_def c_def flip: ts_def)
  have "c \<in> set ts \<or> c = FALLBACK_THEME"
    by (cases ts) (auto simp: c_def dest: find_in_set split: option.split)
  moreover have "c = t" if "find (\<lambda>t. th_name t = themeName s) ts = Some t" for t
    using that by (simp add: c_def)
  ultimately show ?thesis
    using assms unfolding s' by (simp add: prefs_inv_def reload_fields named_def)
qed (use assms in \<open>simp add: themes_fetched_def prefs_inv_def reload_fields named_def\<close>)

lemma theme_step_inv:
  assumes "prefs_inv s" "theme_choice a"
  shows "prefs_inv (theme_step a s)"
  using assms
  by (cases a)
    (auto simp: prefs_setFontSize prefs_setFontFamily prefs_setTheme prefs_themes_fetched loadThemes_def terminal_key_def
      split: option.splits)

interpretation prefs: store theme_step "\<lambda>a s. theme_choice a" prefs_inv
  by unfold_locales (rule theme_step_inv)

lemma prefs_enabled_run: "prefs.enabled_run acts s \<longleftrightarrow> list_all theme_choice acts"
  by (induction acts arbitrary: s) auto

section \<open>Properties\<close>

text \<open>
  C40: The preferences of the terminal stay well formed and survive a reload. After any sequence of choices, key
  presses and loads of the theme files the font size is between 8 and 24, the font list ends with the
  fallback, the theme is one of the loaded ones or the built-in one, and a reload reads back the same size,
  font and theme name. Once the reloaded page has loaded the same themes it shows the same theme, where the
  chosen name is among them.
\<close>

theorem terminal_prefs_survive_reload:
  assumes "list_all theme_choice acts"
  shows "let s = fold theme_step acts (useTerminalThemeStore st); s' = useTerminalThemeStore (saved s) in
     fontSize s \<in> {8..24} \<and> fontFamilyWithFallback s = with_fallback (fontFamily s) \<and>
     (cur_theme s \<in> set (themes s) \<or> cur_theme s = FALLBACK_THEME) \<and>
     fontSize s' = fontSize s \<and> fontFamily s' = fontFamily s \<and> themeName s' = themeName s \<and>
     (\<forall>ms fs. themes s = concat (map (theme_of fs) ms) \<and> themeName s \<in> th_name ` set (themes s) \<longrightarrow>
        cur_theme (loadThemes (Some ms) fs s') = cur_theme s)"
proof -
  define s where "s = fold theme_step acts (useTerminalThemeStore st)"
  have inv: "prefs_inv s"
    using prefs.run_inv [OF prefs_start, of acts st] assms by (simp add: s_def prefs.run_fold prefs_enabled_run)
  have "cur_theme (loadThemes (Some ms) fs (reload s)) = cur_theme s"
    if h: "themes s = concat (map (theme_of fs) ms)" "themeName s \<in> th_name ` set (themes s)" for ms fs
  proof -
    obtain t where "named s = Some t"
      using h(2) by (cases "named s") (auto simp: named_def find_None_iff)
    moreover have "\<not> loaded (reload s)"
      by (simp add: reload_def useTerminalThemeStore_def Let_def)
    ultimately show ?thesis
      using inv h(1) by (simp add: loadThemes_def themes_fetched_def Let_def prefs_inv_def named_def)
  qed
  then show ?thesis
    using inv
    by (auto simp: Let_def s_def [symmetric] reload_def [symmetric] prefs_inv_def MIN_FONT_SIZE_def MAX_FONT_SIZE_def)
qed

theorem terminal_prefs_survive_reload_witness:
  "fontSize (useTerminalThemeStore (saved (fold theme_step [SetFontSize 99, SetFontFamily (js ''Menlo'')]
     (useTerminalThemeStore Map.empty)))) = 24"
proof -
  have "list_all theme_choice [SetFontSize 99, SetFontFamily (js ''Menlo'')]"
    by (simp add: TERMINAL_FONTS_def)
  from terminal_prefs_survive_reload [OF this, of Map.empty] show ?thesis
    by (simp add: Let_def setFontSize_def setFontFamily_def clampFontSize_def MIN_FONT_SIZE_def MAX_FONT_SIZE_def)
qed

text \<open>A key is kept from the shell exactly when it changes the font size, and only then.\<close>

lemma terminal_key_forwarded:
  "fst (terminal_key e s) \<longleftrightarrow> ke_type e \<noteq> js ''keydown'' \<or> nextFontSize (fontSize s) e = None"
  "fst (terminal_key e s) \<Longrightarrow> snd (terminal_key e s) = s"
  by (auto simp: terminal_key_def split: option.splits)

text \<open>What the gateway sends as a message is read as that message.\<close>

lemma parseMessage_stringify:
  assumes "decimal k" "code_units d"
  shows "parseMessage (stringify (JObj [(js ''kind'', JNum k), (js ''data'', JStr d)])) = Some (k, d)"
proof -
  have "wf_json (JObj [(js ''kind'', JNum k), (js ''data'', JStr d)])"
    using assms by (simp add: code_units_def js_def)
  then show ?thesis
    by (simp add: parseMessage_def parse_stringify del: stringify.simps)
qed

lemma replace_uid: "replace_all (js ''$uid'') uid (js ''/devices/$uid'') = js ''/devices/'' @ uid"
  by (simp add: js_def startsWith_def)

lemma errorMap_links:
  "list_all (\<lambda>(k, e). ee_links e = None \<or> ee_links e = Some [(js ''Device details'', js ''/devices/$uid'')]) errorMap"
  by (simp add: errorMap_def)

text \<open>The links of an error lead to this device or, where the edition has them, to the firewall rules.\<close>

lemma resolveError_link:
  assumes "(label, to) \<in> set (te_links (resolveError e raw uid))"
  shows "to = js ''/devices/'' @ uid \<or> isEnterpriseOrCloud e \<and> to = js ''/firewall-rules''"
proof (cases "map_of errorMap raw")
  case (Some entry)
  then have "ee_links entry = None \<or> ee_links entry = Some [(js ''Device details'', js ''/devices/$uid'')]"
    using errorMap_links map_of_SomeD [OF Some] by (auto simp: list_all_iff)
  then show ?thesis
    using assms Some replace_uid [of uid] by (auto simp: resolveError_def Let_def split: if_splits)
qed (use assms in \<open>simp add: resolveError_def\<close>)

end
