(* ===== verification/Utf8Stream.thy ===== *)
theory Utf8Stream
  imports Codec
begin

text \<open>
  \<open>TextDecoder\<close> in streaming mode, as \<open>components/terminal/TerminalInstance.tsx\<close> uses it for the output it
  records: the state between two frames is the unfinished sequence and whether the first character, which
  may be a byte order mark, has been seen. The lemmas show that frames may end anywhere: what comes out is
  the text whose bytes went in.
\<close>

section \<open>The decoder\<close>

type_synonym utf8_state = "nat \<times> nat \<times> nat \<times> nat"

definition prepend :: "jsstring \<Rightarrow> jsstring \<times> utf8_state \<Rightarrow> jsstring \<times> utf8_state" where
  "prepend t r = (t @ fst r, snd r)"

text \<open>The decoder of \<open>Codec\<close> that stops at the end of the input instead of replacing an unfinished sequence.\<close>

function utf8_feed :: "nat \<Rightarrow> nat \<Rightarrow> nat \<Rightarrow> nat \<Rightarrow> nat list \<Rightarrow> jsstring \<times> utf8_state" where
  "utf8_feed k lo hi cp [] = ([], (k, lo, hi, cp))"
| "utf8_feed k lo hi cp (b # bs) =
     (if k = 0 then
        (if b < 128 then prepend [b] (utf8_feed 0 128 191 0 bs)
         else if 194 \<le> b \<and> b \<le> 223 then utf8_feed 1 128 191 (b - 192) bs
         else if 224 \<le> b \<and> b \<le> 239 then
           utf8_feed 2 (if b = 224 then 160 else 128) (if b = 237 then 159 else 191) (b - 224) bs
         else if 240 \<le> b \<and> b \<le> 244 then
           utf8_feed 3 (if b = 240 then 144 else 128) (if b = 244 then 143 else 191) (b - 240) bs
         else prepend [65533] (utf8_feed 0 128 191 0 bs))
      else if lo \<le> b \<and> b \<le> hi then
        (if k = 1 then prepend (utf16_point (cp * 64 + (b - 128))) (utf8_feed 0 128 191 0 bs)
         else utf8_feed (k - 1) 128 191 (cp * 64 + (b - 128)) bs)
      else prepend [65533] (utf8_feed 0 128 191 0 (b # bs)))"
  by pat_completeness auto
termination
  by (relation "measure (\<lambda>(k, lo, hi, cp, bs). 2 * length bs + (if k = 0 then 0 else 1))") auto

record text_decoder =
  d_seq :: utf8_state
  bom_seen :: bool

definition fresh_decoder :: text_decoder where
  "fresh_decoder = \<lparr>d_seq = (0, 128, 191, 0), bom_seen = False\<rparr>"

definition decode_stream :: "byte list \<Rightarrow> text_decoder \<Rightarrow> jsstring \<times> text_decoder" where
  "decode_stream bytes d =
     (case d_seq d of (k, lo, hi, cp) \<Rightarrow>
      (case utf8_feed k lo hi cp (map unat bytes) of (t, q) \<Rightarrow>
        (if \<not> bom_seen d \<and> t \<noteq> [] \<and> hd t = 65279 then tl t else t,
         \<lparr>d_seq = q, bom_seen = bom_seen d \<or> t \<noteq> []\<rparr>)))"

fun decode_frames :: "byte list list \<Rightarrow> text_decoder \<Rightarrow> jsstring list \<times> text_decoder" where
  "decode_frames [] d = ([], d)"
| "decode_frames (f # fs) d =
     (case decode_stream f d of (t, d1) \<Rightarrow> case decode_frames fs d1 of (ts, d2) \<Rightarrow> (t # ts, d2))"

section \<open>Frames may end anywhere\<close>

lemma prepend_simps [simp]: "fst (prepend t r) = t @ fst r" "snd (prepend t r) = snd r"
  by (simp_all add: prepend_def)

lemma prepend_append [simp]: "prepend t (prepend u r) = prepend (t @ u) r"
  by (simp add: prepend_def)

lemma prepend_Nil [simp]: "prepend [] r = r"
  by (simp add: prepend_def)

definition feed :: "nat list \<Rightarrow> utf8_state \<Rightarrow> jsstring \<times> utf8_state" where
  "feed bs q = (case q of (k, lo, hi, cp) \<Rightarrow> utf8_feed k lo hi cp bs)"

lemma utf8_cases:
  fixes k lo hi b :: nat
  obtains (ascii) "k = 0" "b < 128"
  | (two) "k = 0" "194 \<le> b" "b \<le> 223"
  | (three) "k = 0" "224 \<le> b" "b \<le> 239"
  | (four) "k = 0" "240 \<le> b" "b \<le> 244"
  | (bad) "k = 0" "128 \<le> b" "b < 194 \<or> 244 < b"
  | (last) "k = 1" "lo \<le> b" "b \<le> hi"
  | (more) "1 < k" "lo \<le> b" "b \<le> hi"
  | (broken) "0 < k" "b < lo \<or> hi < b"
proof (cases "k = 0")
  case True
  consider "b < 128" | "128 \<le> b" "b < 194" | "194 \<le> b" "b \<le> 223" | "224 \<le> b" "b \<le> 239" | "240 \<le> b" "b \<le> 244" | "244 < b"
    by linarith
  then show ?thesis
    using True that(1-5) by cases auto
next
  case False
  then show ?thesis
    using that(6-8) by (metis One_nat_def Suc_lessI not_le neq0_conv)
qed

lemma utf8_feed_append:
  "utf8_feed k lo hi cp (xs @ ys) =
     prepend (fst (utf8_feed k lo hi cp xs)) (feed ys (snd (utf8_feed k lo hi cp xs)))"
proof (induction k lo hi cp xs rule: utf8_feed.induct)
  case (1 k lo hi cp)
  then show ?case
    by (simp add: feed_def)
next
  case (2 k lo hi cp b bs)
  show ?case
    by (rule utf8_cases [where k = k and b = b and lo = lo and hi = hi]) (use 2 in \<open>simp_all del: utf8_feed.simps add: utf8_feed.simps(2) [of k lo hi cp b] utf8_feed.simps(2) [of 0 lo hi cp b] utf8_feed.simps(2) [of "Suc 0" lo hi cp b]\<close>)
qed

lemma feed_append: "feed (xs @ ys) q = prepend (fst (feed xs q)) (feed ys (snd (feed xs q)))"
  by (cases q) (simp add: feed_def utf8_feed_append)

text \<open>The one-shot decoder adds a replacement character for what is left unfinished.\<close>

lemma utf8_dec_feed:
  "utf8_dec k lo hi cp bs =
     fst (utf8_feed k lo hi cp bs) @ (if fst (snd (utf8_feed k lo hi cp bs)) = 0 then [] else [65533])"
proof (induction k lo hi cp bs rule: utf8_feed.induct)
  case (2 k lo hi cp b bs)
  show ?case
    by (rule utf8_cases [where k = k and b = b and lo = lo and hi = hi]) (use 2 in \<open>simp_all del: utf8_feed.simps utf8_dec.simps add: utf8_feed.simps(2) [of k lo hi cp b] utf8_feed.simps(2) [of 0 lo hi cp b] utf8_feed.simps(2) [of "Suc 0" lo hi cp b] utf8_dec.simps(2) [of k lo hi cp b] utf8_dec.simps(2) [of 0 lo hi cp b] utf8_dec.simps(2) [of "Suc 0" lo hi cp b]\<close>)
qed simp

definition strip_bom :: "jsstring \<Rightarrow> jsstring" where
  "strip_bom t = (if t \<noteq> [] \<and> hd t = 65279 then tl t else t)"

lemma decode_frames_feed:
  "concat (fst (decode_frames fs d)) =
     (if bom_seen d then id else strip_bom) (fst (feed (map unat (concat fs)) (d_seq d)))"
proof (induction fs arbitrary: d)
  case (Cons f fs)
  obtain t q where f: "feed (map unat f) (d_seq d) = (t, q)"
    by (cases "feed (map unat f) (d_seq d)")
  define d1 where "d1 = \<lparr>d_seq = q, bom_seen = bom_seen d \<or> t \<noteq> []\<rparr>"
  have "decode_stream f d = (if \<not> bom_seen d \<and> t \<noteq> [] \<and> hd t = 65279 then tl t else t, d1)"
    using f by (cases "d_seq d") (simp add: decode_stream_def feed_def d1_def)
  moreover have "concat (fst (decode_frames fs d1)) =
      (if bom_seen d1 then id else strip_bom) (fst (feed (map unat (concat fs)) q))"
    using Cons.IH [of d1] by (simp add: d1_def)
  ultimately show ?case
    by (auto simp: f feed_append strip_bom_def d1_def split: prod.splits)
qed (simp add: feed_def strip_bom_def split: prod.splits)

lemma decode_frames_append:
  "decode_frames (fs @ gs) d =
     (fst (decode_frames fs d) @ fst (decode_frames gs (snd (decode_frames fs d))),
      snd (decode_frames gs (snd (decode_frames fs d))))"
  by (induction fs arbitrary: d) (simp_all add: case_prod_beta)

lemma length_decode_frames [simp]: "length (fst (decode_frames fs d)) = length fs"
proof (induction fs arbitrary: d)
  case (Cons f fs)
  then show ?case
    using Cons [of "snd (decode_stream f d)"] by (simp add: case_prod_beta)
qed simp

text \<open>
  A state with a sequence under way waits for bytes in a range of continuation bytes. Such a state is never
  left behind by a whole character: the next continuation byte would be taken into it instead of being
  replaced.
\<close>

definition waits_ok :: "utf8_state \<Rightarrow> bool" where
  "waits_ok q = (case q of (k, lo, hi, cp) \<Rightarrow> 128 \<le> lo \<and> lo \<le> hi \<and> hi \<le> 191)"

lemma utf8_feed_waits:
  "waits_ok (k, lo, hi, cp) \<Longrightarrow> waits_ok (snd (utf8_feed k lo hi cp bs))"
proof (induction k lo hi cp bs rule: utf8_feed.induct)
  case (2 k lo hi cp b bs)
  show ?case
    by (rule utf8_cases [where k = k and b = b and lo = lo and hi = hi]) (use 2 in \<open>simp_all del: utf8_feed.simps add: utf8_feed.simps(2) [of k lo hi cp b] utf8_feed.simps(2) [of 0 lo hi cp b] utf8_feed.simps(2) [of "Suc 0" lo hi cp b] waits_ok_def\<close>)
qed simp

lemma utf16_point_not_replaced: "utf16_point c \<noteq> [65533, 65533]"
  by (auto simp: utf16_point_def)

lemma feed_units:
  assumes "well_formed s"
  shows "fst (utf8_feed 0 128 191 0 (utf8_units s)) = s \<and> fst (snd (utf8_feed 0 128 191 0 (utf8_units s))) = 0"
proof -
  obtain t k lo hi cp where f: "utf8_feed 0 128 191 0 (utf8_units s) = (t, (k, lo, hi, cp))"
    by (cases "utf8_feed 0 128 191 0 (utf8_units s)") auto
  have w: "128 \<le> lo" "lo \<le> hi" "hi \<le> 191"
    using utf8_feed_waits [of 0 128 191 0 "utf8_units s"] by (simp_all add: f waits_ok_def)
  have dec: "t @ utf8_dec k lo hi cp bs = s @ utf8_dec 0 128 191 0 bs" for bs
    using utf8_dec_units_append [OF assms, of bs]
    by (simp add: utf8_dec_feed utf8_feed_append feed_def f del: utf8_feed.simps utf8_dec.simps)
  have "k = 0"
  proof (rule ccontr)
    assume k: "k \<noteq> 0"
    then have s: "s = t @ [65533]"
      using dec [of "[]"] by simp
    have "utf8_dec 0 128 191 0 [lo] = [65533]"
      using w by simp
    then have "utf8_dec k lo hi cp [lo] = [65533, 65533]"
      using dec [of "[lo]"] s by simp
    then show False
      using k w utf16_point_not_replaced by (auto split: if_splits)
  qed
  then show ?thesis
    using dec [of "[]"] f by simp
qed

text \<open>The output of a well-formed text comes out as that text, however it is cut into frames.\<close>

lemma frames_decode:
  assumes "concat fs = utf8_encode s" "well_formed s" "s = [] \<or> hd s \<noteq> 65279"
  shows "concat (fst (decode_frames fs fresh_decoder)) = s"
proof -
  have "map unat (concat fs) = utf8_units s"
    using utf8_bytes well_formed_code_units assms(1,2) by metis
  then show ?thesis
    using feed_units [OF assms(2)] assms(3)
    by (auto simp: decode_frames_feed fresh_decoder_def feed_def strip_bom_def)
qed

end
