(* ===== verification/TerminalLink.thy ===== *)
theory TerminalLink
  imports Terminal Recordings SshIdentity TerminalUi Utf8Stream
begin

text \<open>
  The connection of a web terminal (\<open>components/terminal/TerminalInstance.tsx\<close>): the request for a session, the
  socket with its handlers, the answer to the challenge of the gateway, the recording and the cleanup. It
  puts together the terminal store, the recorder and the store of recordings, the signatures and the
  streaming decoder. The state holds what the effect keeps in its variables and refs; what xterm shows
  and what the socket sends are lists. Every continuation of an \<open>await\<close> is an event of its own.
  The server, the key parser and signer, the disk and \<open>Buffer.from\<close> are parameters.
\<close>

section \<open>State\<close>

datatype stage = Requesting | NoSession | SocketOpening | SocketOpen | SocketClosing | SocketDown

datatype ws_message = InputMsg jsstring | ResizeMsg int int | SignatureMsg jsstring

datatype term_write = WBytes "byte list" | WText jsstring

fun encode_message :: "ws_message \<Rightarrow> jsstring" where
  "encode_message (InputMsg d) = stringify (JObj [(js ''kind'', JNum WS_INPUT), (js ''data'', JStr d)])"
| "encode_message (ResizeMsg cols rows) = stringify (JObj [(js ''kind'', JNum WS_RESIZE),
     (js ''data'', JObj [(js ''cols'', JNum (of_int cols)), (js ''rows'', JNum (of_int rows))])])"
| "encode_message (SignatureMsg s) = stringify (JObj [(js ''kind'', JNum WS_SIGNATURE), (js ''data'', JStr s)])"

record link_env =
  le_edition :: edition
  le_signer :: signer
  le_parse :: key_parser
  buffer_from :: "jsstring \<Rightarrow> byte list"
  le_disk :: "jsstring \<Rightarrow> bool"
  le_side_ok :: bool

record link =
  sid :: jsstring
  session :: session_params
  l_stage :: stage
  cancelled :: bool
  lastError :: bool
  l_token :: jsstring
  keyMaterial :: "jsstring option"
  keyPassphrase :: "jsstring option"
  resizeRegistered :: bool
  decoder :: text_decoder
  creating :: "recorder option"
  recorderRef :: "recorder option"
  l_error :: "terminal_error option"
  approvalCode :: "jsstring option"
  term_size :: "int \<times> int"
  screen :: "term_write list"
  sent :: "ws_message list"
  signing :: "byte list list"
  l_store :: terminal_state
  l_recs :: recordings_state

section \<open>Operations\<close>

definition updateStatus :: "connection_status \<Rightarrow> link \<Rightarrow> link" where
  "updateStatus s w = w\<lparr>l_store := setConnectionStatus (sid w) s (l_store w)\<rparr>"

definition clear_secrets :: "link \<Rightarrow> link" where
  "clear_secrets w = w\<lparr>l_store := clearSensitiveData (sid w) (l_store w)\<rparr>"

definition term_write :: "term_write \<Rightarrow> link \<Rightarrow> link" where
  "term_write x w = w\<lparr>screen := screen w @ [x]\<rparr>"

text \<open>A socket that is not open discards what it is given.\<close>

definition ws_send :: "ws_message \<Rightarrow> link \<Rightarrow> link" where
  "ws_send m w = (if l_stage w = SocketOpen then w\<lparr>sent := sent w @ [m]\<rparr> else w)"

definition ws_close :: "link \<Rightarrow> link" where
  "ws_close w = (if l_stage w \<in> {SocketOpening, SocketOpen} then w\<lparr>l_stage := SocketClosing\<rparr> else w)"

definition on_recorder :: "(recorder \<Rightarrow> recorder) \<Rightarrow> link \<Rightarrow> link" where
  "on_recorder f w = w\<lparr>recorderRef := map_option f (recorderRef w)\<rparr>"

definition registerResizeHandler :: "link \<Rightarrow> link" where
  "registerResizeHandler w = w\<lparr>resizeRegistered := True\<rparr>"

text \<open>The ref is emptied before the file is finished, so a recording is finished once.\<close>

definition finalizeRecording :: "link_env \<Rightarrow> jsstring \<Rightarrow> link \<Rightarrow> link" where
  "finalizeRecording env stamp w =
     (case recorderRef w of
        None \<Rightarrow> w
      | Some r \<Rightarrow>
          (case finish (le_disk env) (le_side_ok env) stamp r (rs_fs (l_recs w)) of
             (meta, fs) \<Rightarrow>
               let w1 = w\<lparr>recorderRef := None, l_recs := (l_recs w)\<lparr>rs_fs := fs\<rparr>\<rparr>
               in case meta of None \<Rightarrow> w1 | Some m \<Rightarrow> w1\<lparr>l_recs := notify m (l_recs w1)\<rparr>))"

text \<open>The body of the request for a session: a key by its fingerprint, or the password.\<close>

definition connect_body :: "session_params \<Rightarrow> (jsstring \<times> jsstring) list" where
  "connect_body p =
     (js ''device'', deviceUid p) # (js ''username'', username p) #
     (case key_fingerprint p of
        Some f \<Rightarrow> if f \<noteq> []
                    then (js ''fingerprint'', f) # (case session_params.publicKeyLine p of None \<Rightarrow> [] | Some l \<Rightarrow> [(js ''public_key'', l)])
                    else [(js ''password'', password p)]
      | None \<Rightarrow> [(js ''password'', password p)])"

definition connect :: "jsstring \<Rightarrow> session_params \<Rightarrow> terminal_state \<Rightarrow> recordings_state \<Rightarrow> link" where
  "connect i p st rs = updateStatus Connecting
     \<lparr>sid = i, session = p, l_stage = Requesting, cancelled = False, lastError = False, l_token = [],
      keyMaterial = None, keyPassphrase = None, resizeRegistered = False, decoder = fresh_decoder,
      creating = None, recorderRef = None, l_error = None, approvalCode = None, term_size = (0, 0),
      screen = [], sent = [], signing = [], l_store = st, l_recs = rs\<rparr>"

definition session_error :: "link \<Rightarrow> link" where
  "session_error w0 =
     (let w = w0\<lparr>l_stage := NoSession\<rparr> in
      if cancelled w then w else (updateStatus Disconnected w)\<lparr>l_error := Some HTTP_CONNECT_ERROR\<rparr>)"

definition ws_url :: "bool \<Rightarrow> jsstring \<Rightarrow> link \<Rightarrow> jsstring" where
  "ws_url https host w =
     (if https then js ''wss:'' else js ''ws:'') @ js ''//'' @ host @ js ''/ws/ssh?token='' @ l_token w @
     js ''&cols='' @ int_text (fst (term_size w)) @ js ''&rows='' @ int_text (snd (term_size w))"

text \<open>The token has arrived: the terminal and the socket are made, the key is copied from the session.\<close>

definition session_ok :: "jsstring \<Rightarrow> int \<Rightarrow> int \<Rightarrow> link \<Rightarrow> link" where
  "session_ok token cols rows w =
     (if cancelled w then w\<lparr>l_stage := NoSession\<rparr>
      else w\<lparr>l_stage := SocketOpening, l_token := token, term_size := (cols, rows), resizeRegistered := False,
             decoder := fresh_decoder, keyMaterial := session_params.privateKey (session w), keyPassphrase := passphrase (session w)\<rparr>)"

text \<open>\<open>onopen\<close> up to the recorder, and the rest once it has been created.\<close>

definition onopen :: "jsstring \<Rightarrow> link \<Rightarrow> link" where
  "onopen rid w0 =
     (let w = w0\<lparr>l_stage := SocketOpen\<rparr> in
      if cancelled w then w
      else
        let w1 = updateStatus Connected w; p = session w1 in
        if session_params.recording p \<noteq> Some True then w1
        else case create_recorder rid (deviceName p) (deviceUid p) (username p) None (rs_fs (l_recs w1)) of
          (Inl e, fs) \<Rightarrow> w1\<lparr>l_recs := (l_recs w1)\<lparr>rs_fs := fs\<rparr>\<rparr>
        | (Inr r, fs) \<Rightarrow> w1\<lparr>creating := Some r, l_recs := (l_recs w1)\<lparr>rs_fs := fs\<rparr>\<rparr>)"

definition recorder_created :: "int \<Rightarrow> link \<Rightarrow> link" where
  "recorder_created now w =
     (case creating w of
        None \<Rightarrow> w
      | Some r \<Rightarrow>
          let w1 = w\<lparr>creating := None\<rparr> in
          if cancelled w1 then w1\<lparr>l_recs := (l_recs w1)\<lparr>rs_fs := snd (discard r (rs_fs (l_recs w1)))\<rparr>\<rparr>
          else w1\<lparr>recorderRef := Some (start_recorder (of_int now) (fst (term_size w1)) (snd (term_size w1)) r)\<rparr>)"

text \<open>The decoder is fed also while there is no recorder.\<close>

definition on_binary :: "int \<Rightarrow> byte list \<Rightarrow> link \<Rightarrow> link" where
  "on_binary now bytes w =
     (if cancelled w then w
      else case decode_stream bytes (decoder w) of
        (decoded, d) \<Rightarrow>
          registerResizeHandler (on_recorder (recordOutput (of_int now) decoded)
            ((term_write (WBytes bytes) w)\<lparr>decoder := d\<rparr>)))"

definition forget_key :: "link \<Rightarrow> link" where
  "forget_key w = clear_secrets (w\<lparr>keyMaterial := None, keyPassphrase := None\<rparr>)"

definition SIGN_FAILED :: jsstring where
  "SIGN_FAILED = [13, 10, 27] @ js ''[1;31mFailed to sign authentication challenge.'' @ [27] @ js ''[0m'' @ [13, 10]"

definition send_signature :: "jsstring \<Rightarrow> link \<Rightarrow> link" where
  "send_signature s w = registerResizeHandler (forget_key (ws_send (SignatureMsg s) w))"

definition sign_failed :: "link \<Rightarrow> link" where
  "sign_failed w = ws_close (forget_key (term_write (WText SIGN_FAILED) w))"

definition on_challenge :: "link_env \<Rightarrow> jsstring \<Rightarrow> link \<Rightarrow> link" where
  "on_challenge env data w =
     (let challenge = buffer_from env data in
      case browserKey (session w) of
        Some k \<Rightarrow> w\<lparr>signing := signing w @ [challenge]\<rparr>
      | None \<Rightarrow>
          (case keyMaterial w of
             None \<Rightarrow> w
           | Some key \<Rightarrow>
               if key = [] then w
               else case generateSignature (le_signer env) (le_parse env) key challenge (keyPassphrase w) of
                 Inl e \<Rightarrow> sign_failed w
               | Inr s \<Rightarrow> send_signature s w))"

text \<open>The browser has signed a challenge with its own key, or could not.\<close>

definition sign_done :: "(exn + byte list) \<Rightarrow> link \<Rightarrow> link" where
  "sign_done res w0 =
     (let w = w0\<lparr>signing := tl (signing w0)\<rparr> in
      case res of Inl e \<Rightarrow> sign_failed w | Inr bytes \<Rightarrow> send_signature (toBase64 bytes) w)"

definition on_text :: "link_env \<Rightarrow> jsstring \<Rightarrow> link \<Rightarrow> link" where
  "on_text env data w =
     (if cancelled w then w
      else case parseMessage data of
        None \<Rightarrow> if lastError w then w else term_write (WText data) w
      | Some (kind, d) \<Rightarrow>
          if kind = WS_SIGNATURE then on_challenge env d w
          else if kind = WS_ERROR then
            (updateStatus Disconnected (w\<lparr>lastError := True\<rparr>))
              \<lparr>l_error := Some (resolveError (le_edition env) d (deviceUid (session w)))\<rparr>
          else if kind = WS_SESSION then on_recorder (setSessionUid d) w
          else if kind = WS_REAUTH then w\<lparr>approvalCode := Some d\<rparr>
          else w)"

definition onclose :: "link_env \<Rightarrow> jsstring \<Rightarrow> link \<Rightarrow> link" where
  "onclose env stamp w0 =
     (let w = w0\<lparr>l_stage := SocketDown\<rparr> in
      if cancelled w then w
      else
        let w1 = updateStatus Disconnected w;
            w2 = (if lastError w1 then w1 else w1\<lparr>l_error := Some WS_CLOSE_ERROR\<rparr>)
        in finalizeRecording env stamp w2)"

definition onerror :: "link \<Rightarrow> link" where
  "onerror w =
     (if cancelled w then w
      else (updateStatus Disconnected (w\<lparr>lastError := True\<rparr>))\<lparr>l_error := Some WS_NETWORK_ERROR\<rparr>)"

text \<open>Typed or pasted text goes out cut to 4096 code units.\<close>

definition onData :: "jsstring \<Rightarrow> link \<Rightarrow> link" where
  "onData data w = (if l_stage w = SocketOpen then ws_send (InputMsg (JsBase.slice 0 4096 data)) w else w)"

definition onResize :: "int \<Rightarrow> int \<Rightarrow> int \<Rightarrow> link \<Rightarrow> link" where
  "onResize now cols rows w =
     (if resizeRegistered w
      then on_recorder (recordResize (of_int now) cols rows)
             (if l_stage w = SocketOpen then ws_send (ResizeMsg cols rows) w else w)
      else w)"

text \<open>The cleanup of the effect: the recording is kept exactly when the session is gone from the store.\<close>

definition cleanup :: "link_env \<Rightarrow> jsstring \<Rightarrow> link \<Rightarrow> link" where
  "cleanup env stamp w0 =
     (let w = w0\<lparr>cancelled := True\<rparr>;
          w1 = (if list_ex (\<lambda>s. session_id s = sid w) (sessions (l_store w))
                then (case recorderRef w of
                        None \<Rightarrow> w
                      | Some r \<Rightarrow> w\<lparr>recorderRef := None,
                          l_recs := (l_recs w)\<lparr>rs_fs := snd (discard r (rs_fs (l_recs w)))\<rparr>\<rparr>)
                else finalizeRecording env stamp w)
      in ws_close (clear_secrets w1))"

definition close_approval :: "link \<Rightarrow> link" where
  "close_approval w = w\<lparr>approvalCode := None, l_error := Some WS_REAUTH_CANCELLED\<rparr>"

definition approval_decided :: "link \<Rightarrow> link" where
  "approval_decided w = w\<lparr>approvalCode := None\<rparr>"

section \<open>Runs\<close>

datatype link_event =
    SessionOk jsstring int int
  | SessionError
  | Opened jsstring
  | RecorderCreated int
  | Binary int "byte list"
  | Message jsstring
  | SignDone "exn + byte list"
  | SocketClosed jsstring
  | SocketError
  | Typed jsstring
  | Resized int int int
  | DiskWrite
  | Unmount jsstring
  | CloseApproval
  | ApprovalDecided
  | StoreAction terminal_action

fun link_step :: "link_env \<Rightarrow> link_event \<Rightarrow> link \<Rightarrow> link" where
  "link_step env (SessionOk t cols rows) = session_ok t cols rows"
| "link_step env SessionError = session_error"
| "link_step env (Opened rid) = onopen rid"
| "link_step env (RecorderCreated now) = recorder_created now"
| "link_step env (Binary now bs) = on_binary now bs"
| "link_step env (Message d) = on_text env d"
| "link_step env (SignDone r) = sign_done r"
| "link_step env (SocketClosed stamp) = onclose env stamp"
| "link_step env SocketError = onerror"
| "link_step env (Typed d) = onData d"
| "link_step env (Resized now cols rows) = onResize now cols rows"
| "link_step env DiskWrite = on_recorder (flush_one (le_disk env))"
| "link_step env (Unmount stamp) = cleanup env stamp"
| "link_step env CloseApproval = close_approval"
| "link_step env ApprovalDecided = approval_decided"
| "link_step env (StoreAction a) = (\<lambda>w. w\<lparr>l_store := terminal_step a (l_store w)\<rparr>)"

text \<open>When an event can happen. Other sessions get other ids.\<close>

fun can_happen :: "link_event \<Rightarrow> link \<Rightarrow> bool" where
  "can_happen (SessionOk t cols rows) w = (l_stage w = Requesting)"
| "can_happen SessionError w = (l_stage w = Requesting)"
| "can_happen (Opened rid) w = (l_stage w = SocketOpening)"
| "can_happen (RecorderCreated now) w = (creating w \<noteq> None)"
| "can_happen (Binary now bs) w = (l_stage w = SocketOpen)"
| "can_happen (Message d) w = (l_stage w = SocketOpen)"
| "can_happen (SignDone r) w = (signing w \<noteq> [])"
| "can_happen (SocketClosed stamp) w = (l_stage w \<in> {SocketOpening, SocketOpen, SocketClosing})"
| "can_happen SocketError w = (l_stage w \<in> {SocketOpening, SocketOpen, SocketClosing})"
| "can_happen (StoreAction a) w = (\<not> opens (sid w) a)"
| "can_happen (Unmount stamp) w = (\<not> cancelled w)"
| "can_happen _ w = True"

inductive lreach :: "link_env \<Rightarrow> link \<Rightarrow> bool" for env where
  start: "lreach env (connect i p st rs)"
| step: "lreach env w \<Longrightarrow> can_happen e w \<Longrightarrow> lreach env (link_step env e w)"

section \<open>Keys\<close>

fun is_signature :: "ws_message \<Rightarrow> bool" where
  "is_signature (SignatureMsg s) = True"
| "is_signature _ = False"

definition signatures :: "link \<Rightarrow> nat" where
  "signatures w = length (filter is_signature (sent w))"

definition forgotten :: "link \<Rightarrow> bool" where
  "forgotten w \<longleftrightarrow> keyMaterial w = None \<and> keyPassphrase w = None \<and> cleared (sid w) (l_store w)"

definition link_inv :: "link \<Rightarrow> bool" where
  "link_inv w \<longleftrightarrow>
     (browserKey (session w) = None \<longrightarrow>
        signing w = [] \<and> (signatures w = 0 \<or> signatures w = 1 \<and> forgotten w)) \<and>
     (l_stage w = Requesting \<longrightarrow> sent w = []) \<and>
     (cancelled w \<longrightarrow> cleared (sid w) (l_store w))"

lemma cleared_setStatus [simp]: "cleared i st \<Longrightarrow> cleared i (setConnectionStatus j c st)"
  using cleared_step [of i st "SetConnectionStatus j c"] by simp

lemma cleared_clear_other [simp]: "cleared i st \<Longrightarrow> cleared i (clearSensitiveData j st)"
  using cleared_step [of i st "ClearSensitiveData j"] by simp

lemmas link_ops = updateStatus_def clear_secrets_def term_write_def ws_send_def ws_close_def on_recorder_def
  registerResizeHandler_def forget_key_def

lemma finalize_fields [simp]:
  "sid (finalizeRecording env x w) = sid w" "session (finalizeRecording env x w) = session w"
  "l_stage (finalizeRecording env x w) = l_stage w" "cancelled (finalizeRecording env x w) = cancelled w"
  "keyMaterial (finalizeRecording env x w) = keyMaterial w"
  "keyPassphrase (finalizeRecording env x w) = keyPassphrase w" "sent (finalizeRecording env x w) = sent w"
  "signing (finalizeRecording env x w) = signing w" "l_store (finalizeRecording env x w) = l_store w"
  by (simp_all add: finalizeRecording_def Let_def split: option.split prod.split)

lemma finalize_inv [simp]: "link_inv (finalizeRecording env x w) = link_inv w"
  by (simp add: link_inv_def signatures_def forgotten_def)

text \<open>An operation that leaves the keys, the socket and what was sent alone keeps the invariant.\<close>

lemma link_inv_frame:
  assumes "link_inv w" "sid w' = sid w" "session w' = session w" "sent w' = sent w" "signing w' = signing w"
    "keyMaterial w' = keyMaterial w" "keyPassphrase w' = keyPassphrase w" "cancelled w' = cancelled w"
    "l_stage w' = Requesting \<Longrightarrow> l_stage w = Requesting" "cleared (sid w) (l_store w) \<Longrightarrow> cleared (sid w) (l_store w')"
  shows "link_inv w'"
  using assms by (auto simp: link_inv_def signatures_def forgotten_def)

lemma send_inv:
  assumes "link_inv w" "l_stage w = SocketOpen" "\<not> is_signature m"
  shows "link_inv (w\<lparr>sent := sent w @ [m]\<rparr>)"
  using assms by (auto simp: link_inv_def signatures_def forgotten_def)

lemma signature_inv:
  assumes "link_inv w" "browserKey (session w) = None \<Longrightarrow> \<not> forgotten w"
  shows "link_inv (send_signature x w)"
  using assms cleared_clear
  by (auto simp: link_inv_def signatures_def forgotten_def send_signature_def link_ops)

lemma sign_failed_inv:
  assumes "link_inv w"
  shows "link_inv (sign_failed w)"
  using assms cleared_clear
  by (auto simp: link_inv_def signatures_def forgotten_def sign_failed_def link_ops)

lemma challenge_inv:
  assumes "link_inv w"
  shows "link_inv (on_challenge env d w)"
proof (cases "browserKey (session w)")
  case (Some k)
  then show ?thesis
    using assms by (simp add: on_challenge_def link_inv_def signatures_def)
next
  case None
  then show ?thesis
    using assms
    by (auto simp: on_challenge_def Let_def forgotten_def split: option.split sum.split intro!: signature_inv sign_failed_inv)
qed

lemma cleanup_inv:
  assumes "link_inv w"
  shows "link_inv (cleanup env x w)"
proof -
  let ?w = "w\<lparr>cancelled := True\<rparr>"
  have "link_inv (ws_close (clear_secrets v))"
    if "sid v = sid w" "session v = session w" "sent v = sent w" "signing v = signing w" "keyMaterial v = keyMaterial w"
      "keyPassphrase v = keyPassphrase w" "l_store v = l_store w" "l_stage v = l_stage w" for v
    using that assms cleared_clear by (auto simp: link_inv_def signatures_def forgotten_def link_ops)
  then show ?thesis
    by (simp add: cleanup_def Let_def split: option.split)
qed

lemma link_step_inv:
  assumes "link_inv w" "can_happen e w"
  shows "link_inv (link_step env e w)"
proof (cases e)
  case (SessionOk t c r)
  then show ?thesis
    using assms by (auto simp: session_ok_def link_inv_def signatures_def forgotten_def)
next
  case (Message d)
  then show ?thesis
    using assms challenge_inv
    by (auto simp: on_text_def link_ops split: option.split intro: link_inv_frame)
next
  case (SignDone r)
  then have "signing w \<noteq> []" using assms(2) by simp
  then have b: "browserKey (session w) \<noteq> None" and "link_inv (w\<lparr>signing := tl (signing w)\<rparr>)"
    using assms(1) by (auto simp: link_inv_def signatures_def forgotten_def)
  then show ?thesis
    using SignDone by (auto simp: sign_done_def Let_def split: sum.split intro!: signature_inv sign_failed_inv)
next
  case (Typed d)
  then show ?thesis
    using assms send_inv by (auto simp: onData_def link_ops)
next
  case (Resized n c r)
  have "link_inv (if l_stage w = SocketOpen then ws_send (ResizeMsg c r) w else w)"
    using assms send_inv by (auto simp: link_ops)
  then show ?thesis
    using Resized assms(1) by (auto simp: onResize_def on_recorder_def elim!: link_inv_frame)
next
  case (Unmount x)
  then show ?thesis
    using assms cleanup_inv by simp
next
  case (StoreAction a)
  then show ?thesis
    using assms by (auto intro!: link_inv_frame [OF assms(1)] cleared_step)
next
  case (SocketClosed x)
  then show ?thesis
    using assms by (auto simp: onclose_def Let_def link_ops intro!: link_inv_frame [OF assms(1)])
next
  case (Opened rid)
  then show ?thesis
    using assms
    by (auto simp: onopen_def Let_def link_ops split: sum.split prod.split intro!: link_inv_frame [OF assms(1)])
qed (use assms(1) in \<open>auto simp: session_error_def recorder_created_def on_binary_def onerror_def close_approval_def
    approval_decided_def link_ops Let_def split: option.split prod.split intro!: link_inv_frame [OF assms(1)]\<close>)

lemma connect_inv: "link_inv (connect i p st rs)"
  by (simp add: connect_def link_inv_def signatures_def link_ops)

lemma lreach_inv: "lreach env w \<Longrightarrow> link_inv w"
  by (induction rule: lreach.induct) (auto intro: connect_inv link_step_inv)

section \<open>What is recorded\<close>

text \<open>The events of a connection while it is up.\<close>

fun quiet_event :: "link_event \<Rightarrow> bool" where
  "quiet_event (Binary now bs) = True"
| "quiet_event (Message d) = True"
| "quiet_event (SignDone r) = True"
| "quiet_event SocketError = True"
| "quiet_event (Typed d) = True"
| "quiet_event (Resized now cols rows) = True"
| "quiet_event DiskWrite = True"
| "quiet_event CloseApproval = True"
| "quiet_event ApprovalDecided = True"
| "quiet_event (StoreAction a) = True"
| "quiet_event _ = False"

text \<open>The texts in a message are strings of 16-bit code units.\<close>

fun units_event :: "link_event \<Rightarrow> bool" where
  "units_event (Message d) = (case parseMessage d of None \<Rightarrow> True | Some (kind, t) \<Rightarrow> code_units t)"
| "units_event _ = True"

fun frame :: "link_event \<Rightarrow> byte list list" where
  "frame (Binary now bs) = [bs]"
| "frame _ = []"

definition frames :: "link_event list \<Rightarrow> byte list list" where
  "frames es = concat (map frame es)"

fun output_of :: "rec_event \<Rightarrow> jsstring list" where
  "output_of (EOutput now t) = [t]"
| "output_of _ = []"

definition outputs :: "rec_event list \<Rightarrow> jsstring list" where
  "outputs tr = concat (map output_of tr)"

definition with_uid :: "jsstring option \<Rightarrow> recorder \<Rightarrow> recorder" where
  "with_uid u r = (case u of None \<Rightarrow> r | Some x \<Rightarrow> setSessionUid x r)"

definition later :: "jsstring option \<Rightarrow> jsstring option \<Rightarrow> jsstring option" where
  "later u v = (case v of None \<Rightarrow> u | Some x \<Rightarrow> Some x)"

lemma outputs_simps [simp]: "outputs [] = []" "outputs (e # es) = output_of e @ outputs es"
  "outputs (es @ fs) = outputs es @ outputs fs"
  by (simp_all add: outputs_def)

lemma frames_simps [simp]: "frames [] = []" "frames (e # es) = frame e @ frames es" "frames (es @ fs) = frames es @ frames fs"
  by (simp_all add: frames_def)

lemma with_uid_None [simp]: "with_uid None r = r"
  by (simp add: with_uid_def)

lemma with_uid_twice: "with_uid v (with_uid u r) = with_uid (later u v) r"
  by (simp add: with_uid_def later_def setSessionUid_def split: option.split)

lemma setSessionUid_step: "setSessionUid x (rec_step disk e r) = rec_step disk e (setSessionUid x r)"
  by (cases e)
    (simp_all add: setSessionUid_def start_recorder_def recordOutput_def recordResize_def write_line_def elapsed_def
      Let_def flush_one_def split: list.split option.split)

lemma with_uid_run: "with_uid u (fold (rec_step disk) tr r) = fold (rec_step disk) tr (with_uid u r)"
proof (induction tr arbitrary: r)
  case (Cons e tr)
  then show ?case
    by (cases u) (simp_all add: with_uid_def setSessionUid_step)
qed simp

text \<open>What an event does to the recorder and the decoder, and that it leaves the rest of the recording alone.\<close>

definition effect_on ::
  "link_env \<Rightarrow> byte list list \<Rightarrow> rec_event list \<Rightarrow> jsstring option \<Rightarrow> link \<Rightarrow> link \<Rightarrow> bool" where
  "effect_on env fs tr u w w' \<longleftrightarrow>
     recorderRef w' = map_option (\<lambda>r. fold (rec_step (le_disk env)) tr (with_uid u r)) (recorderRef w) \<and>
     decoder w' = snd (decode_frames fs (decoder w)) \<and> outputs tr = fst (decode_frames fs (decoder w)) \<and>
     \<not> cancelled w' \<and> l_recs w' = l_recs w \<and> creating w' = creating w \<and> term_size w' = term_size w \<and>
     pred_option code_units u"

lemma effect_none:
  assumes "\<not> cancelled w'" "recorderRef w' = recorderRef w" "decoder w' = decoder w" "l_recs w' = l_recs w"
    "creating w' = creating w" "term_size w' = term_size w"
  shows "effect_on env [] [] None w w'"
  using assms by (simp add: effect_on_def option.map_ident)

lemma effect_uid:
  assumes "\<not> cancelled w" "code_units x"
  shows "effect_on env [] [] (Some x) w (on_recorder (setSessionUid x) w)"
  using assms by (simp add: effect_on_def on_recorder_def with_uid_def)

lemma effect_event:
  assumes "\<not> cancelled w" "output_of e = []"
  shows "effect_on env [] [e] None w (on_recorder (rec_step (le_disk env) e) w)"
  using assms by (simp add: effect_on_def on_recorder_def)

lemma message_effect:
  assumes "\<not> cancelled w" "units_event (Message d)"
  shows "\<exists>tr u. effect_on env [] tr u w (on_text env d w)"
proof (cases "\<exists>t. parseMessage d = Some (WS_SESSION, t)")
  case True
  then obtain t where t: "parseMessage d = Some (WS_SESSION, t)"
    by blast
  then have "on_text env d w = on_recorder (setSessionUid t) w"
    using assms(1) by (simp add: on_text_def ws_kinds)
  then show ?thesis
    using effect_uid [of w t env] assms t by auto
next
  case False
  have "effect_on env [] [] None w (on_text env d w)"
    using assms(1) False
    by (intro effect_none)
      (auto simp: on_text_def on_challenge_def send_signature_def sign_failed_def link_ops Let_def
        split: option.split sum.split)
  then show ?thesis
    by blast
qed

lemma quiet_effect:
  assumes "\<not> cancelled w" "quiet_event e" "units_event e"
  shows "\<exists>tr u. effect_on env (frame e) tr u w (link_step env e w)"
proof (cases e)
  case (Binary now bs)
  obtain t d where t: "decode_stream bs (decoder w) = (t, d)"
    by (cases "decode_stream bs (decoder w)")
  have "effect_on env [bs] [EOutput now t] None w (on_binary now bs w)"
    using assms(1) t by (simp add: effect_on_def on_binary_def link_ops)
  then show ?thesis
    using Binary by auto
next
  case (Message d)
  then show ?thesis
    using message_effect assms by simp
next
  case (Resized now cols rows)
  show ?thesis
  proof (cases "resizeRegistered w")
    case True
    have "effect_on env [] [EResize now cols rows] None w (onResize now cols rows w)"
      using assms(1) True by (simp add: effect_on_def onResize_def link_ops)
    then show ?thesis
      using Resized by auto
  next
    case False
    then have "effect_on env [] [] None w (onResize now cols rows w)"
      using assms(1) by (intro effect_none) (simp_all add: onResize_def)
    then show ?thesis
      using Resized by auto
  qed
next
  case DiskWrite
  then show ?thesis
    using effect_event [OF assms(1), of EFlush env] by auto
qed (use assms in \<open>auto simp: sign_done_def onerror_def onData_def close_approval_def approval_decided_def
    send_signature_def sign_failed_def link_ops Let_def split: sum.split intro!: exI [of _ "[]"] exI [of _ None] effect_none\<close>)

lemma effect_compose:
  assumes "effect_on env fs tr u w w1" "effect_on env gs ur v w1 w2"
  shows "effect_on env (fs @ gs) (tr @ ur) (later u v) w w2"
  using assms
  by (auto simp: effect_on_def decode_frames_append with_uid_run with_uid_twice option.map_comp comp_def later_def
      split: option.split)

lemma quiet_run:
  assumes "\<not> cancelled w" "list_all quiet_event es" "list_all units_event es"
  shows "\<exists>tr u. effect_on env (frames es) tr u w (fold (link_step env) es w)"
  using assms
proof (induction es arbitrary: w)
  case Nil
  then have "effect_on env [] [] None w w"
    by (intro effect_none) auto
  then show ?case
    by auto
next
  case (Cons e es)
  obtain tr u where e: "effect_on env (frame e) tr u w (link_step env e w)"
    using quiet_effect [of w e env] Cons.prems by auto
  then have "\<not> cancelled (link_step env e w)"
    by (simp add: effect_on_def)
  then obtain ur v where "effect_on env (frames es) ur v (link_step env e w) (fold (link_step env) es (link_step env e w))"
    using Cons.IH [of "link_step env e w"] Cons.prems by auto
  from effect_compose [OF e this] show ?case
    by auto
qed

lemma create_with_uid:
  assumes "create_recorder rid n du un None w = (Inr r, w1)"
  shows "create_recorder rid n du un u w = (Inr (with_uid u r), w1)"
  using assms
  by (cases u) (auto simp: create_recorder_def with_uid_def setSessionUid_def split: sum.splits)

text \<open>The text of an output line of a recording.\<close>

fun output_text :: "json \<Rightarrow> jsstring list" where
  "output_text (JArr [JNum t, JStr k, JStr x]) = (if k = js ''o'' then [x] else [])"
| "output_text _ = []"

definition output_texts :: "json list \<Rightarrow> jsstring list" where
  "output_texts ls = concat (map output_text ls)"

lemma cast_outputs: "output_texts (cast_lines (Some t) tr) = outputs tr"
  by (induction "Some t" tr rule: cast_lines.induct) (simp_all add: output_texts_def)

lemma outputs_count: "length (outputs tr) \<le> length (cast_lines (Some t) tr)"
  by (induction "Some t" tr rule: cast_lines.induct) simp_all

lemma outputs_units: "code_units (concat (outputs tr)) \<Longrightarrow> list_all event_ok tr"
  by (induction tr) (auto simp: event_ok_def split: rec_event.split)

text \<open>The recorder has been made and started, then output has come; closing the socket saves and announces it.\<close>

lemma close_saves:
  assumes "create_recorder rid n du un None fs = (Inr r0, fs1)" "code_units rid" "code_units n" "code_units du" "code_units un"
    and "pred_option code_units u" "code_units stamp" "code_units (concat (outputs tr))" "outputs tr \<noteq> []"
    and w: "\<not> cancelled w" "recorderRef w = Some (fold (rec_step roomy) (EStart now c r # tr) (with_uid u r0))"
    and rs: "supported (rs_fs (l_recs w))" "userScope (rs_fs (l_recs w)) = userScope fs" "rs_retentionDays (l_recs w) = None"
    and env: "le_disk env = roomy" "le_side_ok env"
  shows "\<exists>m body lines. let w' = onclose env stamp w; s' = l_recs w' in
     rs_notice s' = Some m \<and> m\<lparr>rm_size := byte_size body\<rparr> \<in> set (rs_recordings s') \<and>
     readRecording m (rs_fs s') = (Inr body, rs_fs s') \<and>
     map JSON_parse (split_on 10 body) = map Some lines @ [None] \<and> output_texts lines = outputs tr"
proof -
  define es where "es = EStart now c r # tr"
  define lines where "lines = cast_lines None es"
  define body where "body = json_lines lines"
  obtain res w2 where fin: "finish roomy True stamp (fold (rec_step roomy) es (with_uid u r0)) (rs_fs (l_recs w)) = (res, w2)"
    by (cases "finish roomy True stamp (fold (rec_step roomy) es (with_uid u r0)) (rs_fs (l_recs w))")
  have ok: "list_all event_ok es"
    using outputs_units [OF assms(8)] by (simp add: es_def event_ok_def)
  have more: "\<not> length lines \<le> 1"
    using outputs_count [of tr "of_int now"] assms(9) by (cases "outputs tr") (auto simp: lines_def es_def)
  have scope: "userScope w2 = userScope fs"
    using fin rs(2) by (auto simp: finish_def removeFiles_def change_dir_def Let_def split: option.splits if_splits)
  then have same: "setRecordingsScope (userScope fs) w2 = w2"
    by (simp add: setRecordingsScope_def)
  obtain m where m: "res = Some m" "m\<lparr>rm_size := byte_size body\<rparr> \<in> set (listRecordings w2)" "readRecording m w2 = (Inr body, w2)"
      "map JSON_parse (split_on 10 body) = map Some lines @ [None]"
    using recording_readable [OF create_with_uid [OF assms(1)] assms(2-7) ok rs(1)] fin more same
    by (auto simp: Let_def lines_def body_def)
  have "output_texts lines = outputs tr"
    using cast_outputs [of "of_int now" tr] by (simp add: lines_def es_def output_texts_def)
  moreover have "onclose env stamp w = (let w1 = updateStatus Disconnected (w\<lparr>l_stage := SocketDown\<rparr>);
      v = (if lastError w1 then w1 else w1\<lparr>l_error := Some WS_CLOSE_ERROR\<rparr>)
      in v\<lparr>recorderRef := None, l_recs := notify m ((l_recs w)\<lparr>rs_fs := w2\<rparr>)\<rparr>)"
    using fin w env m(1)
    by (simp add: onclose_def finalizeRecording_def Let_def updateStatus_def es_def)
  then have "l_recs (onclose env stamp w) = notify m ((l_recs w)\<lparr>rs_fs := w2\<rparr>)"
    by (simp add: Let_def)
  ultimately show ?thesis
    using m rs(3) by (auto simp: notify_def refresh_def Let_def intro!: exI [of _ m] exI [of _ body] exI [of _ lines])
qed

section \<open>Properties\<close>


definition sample_session :: session_params where
  "sample_session = \<lparr>deviceUid = js ''d'', deviceName = js ''box'', username = js ''root'', password = [],
     key_fingerprint = Some (js ''f''), privateKey = Some (js ''pem''), passphrase = None, browserKey = None,
     publicKeyLine = None, recording = Some True\<rparr>"

definition sample_recs :: recordings_state where
  "sample_recs = \<lparr>rs_recordings = [], rs_loading = False, rs_retentionDays = None, rs_notice = None,
     rs_retentionItem = None, rs_fs = \<lparr>dirs = (\<lambda>_. []), userScope = Some (js ''u''), supported = True, now_date = 0\<rparr>\<rparr>"

definition sample_env :: link_env where
  "sample_env = \<lparr>le_edition = Community, le_signer = length_signer, le_parse = (\<lambda>_ _. Inr p256_key),
     buffer_from = (\<lambda>_. [1, 2]), le_disk = roomy, le_side_ok = True\<rparr>"

definition sample_link :: link where
  "sample_link = fold (link_step sample_env) [SessionOk (js ''t'') 80 24, Opened (js ''r'')]
     (connect (js ''i'') sample_session (open_session (js ''i'') [] sample_session (initial_terminal None Map.empty)) sample_recs)"

definition challenge :: jsstring where
  "challenge = stringify (JObj [(js ''kind'', JNum WS_SIGNATURE), (js ''data'', JStr (js ''AQI=''))])"

lemma challenge_parsed: "parseMessage challenge = Some (WS_SIGNATURE, js ''AQI='')"
  unfolding challenge_def
  by (rule parseMessage_stringify) (simp_all add: ws_kinds decimal_def code_units_def js_def)

lemma sample_link_reached: "lreach sample_env sample_link" "l_stage sample_link = SocketOpen" "\<not> cancelled sample_link"
  "session sample_link = sample_session" "keyMaterial sample_link = Some (js ''pem'')" "keyPassphrase sample_link = None"
  "sent sample_link = []"
  unfolding sample_link_def fold.simps comp_apply id_apply
  by (rule lreach.intros | simp add: connect_def link_ops session_ok_def onopen_def Let_def sample_session_def sample_recs_def
      create_recorder_def recordingsDir_def)+


text \<open>
  C14: A recorded connection can be played back. The output of the device may be cut into frames anywhere, also
  within a character and also before the recorder is ready: the text that is recorded is what follows the
  output that came before the recorder. When the socket closes the recording is saved, announced and listed;
  read back it is one JSON value per line, and the output lines together are that text.
\<close>

theorem connection_records_output:
  assumes "session_params.recording p = Some True" "le_disk env = roomy" "le_side_ok env"
    and rs: "userScope (rs_fs rs) = Some u" "u \<noteq> []" "supported (rs_fs rs)" "rs_retentionDays rs = None"
    and units: "code_units rid" "code_units (deviceName p)" "code_units (deviceUid p)" "code_units (username p)" "code_units stamp"
    and quiet: "list_all quiet_event (pre @ es)" "list_all units_event (pre @ es)"
    and out: "concat (frames (pre @ es)) = utf8_encode s" "well_formed s" "s = [] \<or> hd s \<noteq> 65279" "frames es \<noteq> []"
  shows "let w = fold (link_step env) (SessionOk t c r # Opened rid # pre @ RecorderCreated now # es @ [SocketClosed stamp])
                   (connect i p st rs);
             s0 = concat (fst (decode_frames (frames pre) fresh_decoder)); recs = l_recs w
         in \<exists>m body lines. rs_notice recs = Some m \<and> m\<lparr>rm_size := byte_size body\<rparr> \<in> set (rs_recordings recs) \<and>
              readRecording m (rs_fs recs) = (Inr body, rs_fs recs) \<and>
              map JSON_parse (split_on 10 body) = map Some lines @ [None] \<and>
              s = s0 @ concat (output_texts lines)"
proof -
  obtain r0 fs1 where made: "create_recorder rid (deviceName p) (deviceUid p) (username p) None (rs_fs rs) = (Inr r0, fs1)"
    and fs1: "supported fs1" "userScope fs1 = userScope (rs_fs rs)"
    using rs by (simp add: create_recorder_def recordingsDir_def change_dir_def)
  define w1 where "w1 = link_step env (Opened rid) (link_step env (SessionOk t c r) (connect i p st rs))"
  have w1: "\<not> cancelled w1" "recorderRef w1 = None" "creating w1 = Some r0" "decoder w1 = fresh_decoder"
    "l_recs w1 = rs\<lparr>rs_fs := fs1\<rparr>" "term_size w1 = (c, r)"
    using assms(1) made by (simp_all add: w1_def connect_def link_ops session_ok_def onopen_def Let_def)
  define w2 where "w2 = fold (link_step env) pre w1"
  obtain tr1 u1 where e1: "effect_on env (frames pre) tr1 u1 w1 w2"
    using quiet_run [OF w1(1), of pre env] quiet by (auto simp: w2_def)
  define w3 where "w3 = link_step env (RecorderCreated now) w2"
  have w3: "recorderRef w3 = Some (start_recorder (of_int now) c r r0)" "\<not> cancelled w3" "l_recs w3 = rs\<lparr>rs_fs := fs1\<rparr>"
    "decoder w3 = snd (decode_frames (frames pre) fresh_decoder)"
    using e1 w1 by (simp_all add: w3_def effect_on_def recorder_created_def)
  define w4 where "w4 = fold (link_step env) es w3"
  obtain tr v where e2: "effect_on env (frames es) tr v w3 w4"
    using quiet_run [OF w3(2), of es env] quiet by (auto simp: w4_def)
  let ?s0 = "concat (fst (decode_frames (frames pre) fresh_decoder))"
  have s: "s = ?s0 @ concat (outputs tr)"
    using frames_decode [OF out(1-3)] e2 w3(4) by (simp add: effect_on_def decode_frames_append)
  have "code_units (concat (outputs tr))"
    using well_formed_code_units [OF out(2)] by (subst (asm) s) (simp add: code_units_def)
  moreover have "outputs tr \<noteq> []"
    using e2 out(4) by (metis effect_on_def length_decode_frames length_0_conv)
  moreover have "recorderRef w4 = Some (fold (rec_step roomy) (EStart now c r # tr) (with_uid v r0))"
    using e2 w3(1) assms(2) with_uid_run [of v roomy "[EStart now c r]" r0] by (simp add: effect_on_def)
  moreover have "\<not> cancelled w4" "l_recs w4 = rs\<lparr>rs_fs := fs1\<rparr>" "pred_option code_units v"
    using e2 w3(3) by (simp_all add: effect_on_def)
  ultimately have "\<exists>m body lines. let w' = onclose env stamp w4; s' = l_recs w' in
     rs_notice s' = Some m \<and> m\<lparr>rm_size := byte_size body\<rparr> \<in> set (rs_recordings s') \<and>
     readRecording m (rs_fs s') = (Inr body, rs_fs s') \<and>
     map JSON_parse (split_on 10 body) = map Some lines @ [None] \<and> output_texts lines = outputs tr"
    using fs1 rs units assms(2,3) by (intro close_saves [OF made, where now = now and c = c and r = r]) auto
  then show ?thesis
    using s by (auto simp: Let_def w4_def w3_def w2_def w1_def)
qed

lemma sample_frames:
  "concat (frames [Binary 0 [72, 195], Binary 1 [169]]) = utf8_encode [72, 233]" "well_formed [72, 233]"
  by (simp_all add: utf8_encode_def utf8_point_def high_surrogate_def low_surrogate_def)

lemma sample_fields:
  "session_params.recording sample_session = Some True" "deviceName sample_session = js ''box''"
  "deviceUid sample_session = js ''d''" "username sample_session = js ''root''"
  "le_disk sample_env = roomy" "le_side_ok sample_env" "userScope (rs_fs sample_recs) = Some (js ''u'')"
  "supported (rs_fs sample_recs)" "rs_retentionDays sample_recs = None"
  by (simp_all add: sample_session_def sample_env_def sample_recs_def)

theorem connection_records_output_witness:
  "\<exists>m body lines. rs_notice (l_recs (fold (link_step sample_env) [SessionOk (js ''t'') 80 24, Opened (js ''r''),
       RecorderCreated 0, Binary 0 [72, 195], Binary 1 [169], SocketClosed (js ''x'')]
       (connect (js ''i'') sample_session (initial_terminal None Map.empty) sample_recs))) = Some m \<and>
     map JSON_parse (split_on 10 body) = map Some lines @ [None] \<and> concat (output_texts lines) = [72, 233]"
proof -
  have "code_units (js ''r'')" "code_units (js ''box'')" "code_units (js ''d'')" "code_units (js ''root'')" "code_units (js ''x'')"
    by (simp_all add: code_units_def js_def)
  then show ?thesis
    using connection_records_output [of sample_session sample_env sample_recs "js ''u''" "js ''r''" "js ''x''" "[]"
        "[Binary 0 [72, 195], Binary 1 [169]]" "[72, 233]" "js ''t''" 80 24 0 "js ''i''" "initial_terminal None Map.empty"]
      sample_frames
    by (force simp: sample_fields Let_def simp del: link_step.simps)
qed

text \<open>A connection whose terminal is gone shows, sends, reports and records nothing more.\<close>

definition visible_part :: "link \<Rightarrow> term_write list \<times> ws_message list \<times> terminal_error option \<times> bool \<times> jsstring option" where
  "visible_part w = (screen w, sent w, l_error w, lastError w, approvalCode w)"

lemma unmounted_inert:
  assumes "cancelled w" "l_stage w \<notin> {SocketOpening, SocketOpen}" "can_happen e w" "e \<notin> {CloseApproval, ApprovalDecided}"
    and "\<And>r. e \<noteq> SignDone r"
  shows "visible_part (link_step env e w) = visible_part w"
  using assms
  by (cases e)
    (auto simp: visible_part_def session_ok_def session_error_def recorder_created_def on_binary_def on_text_def onclose_def
      onerror_def onData_def onResize_def cleanup_def link_ops Let_def split: option.split)

text \<open>An error the gateway has reported is not replaced by the one for the end of the connection.\<close>

lemma reported_error_stays:
  assumes "lastError w"
  shows "l_error (onclose env stamp w) = l_error w"
proof -
  have "l_error (finalizeRecording env stamp v) = l_error v" for v
    by (simp add: finalizeRecording_def Let_def split: option.split prod.split)
  then show ?thesis
    using assms by (simp add: onclose_def Let_def updateStatus_def)
qed

text \<open>
  What is typed or pasted at once is cut to 4096 code units before it is sent, and the rest is sent neither
  then nor later.
\<close>

lemma long_paste_cut:
  assumes "l_stage w = SocketOpen"
  shows "sent (onData d w) = sent w @ [InputMsg (take 4096 d)]"
  using assms by (simp add: onData_def ws_send_def JsBase.slice_def)

end
