(* ===== verification/Palette.thy ===== *)
theory Palette
  imports Account Navigation "HOL-Library.Multiset"
begin

text \<open>
  The command palette: \<open>components/commandPalette/items.tsx\<close> builds its rows and \<open>hooks/useCommandPalette.ts\<close>
  owns its state, its key handling and its actions. The palette acts on the session store and the terminal store
  of the page; a row's \<open>onSelect\<close> is a value that says which action it runs. Devices, permission and
  namespace are what the queries last returned. The icons and the scrolling are not modelled.
\<close>

section \<open>Rows\<close>

datatype badge_variant = Green | Yellow | Red | MutedBadge

datatype select_action =
    ConnectOrRestore jsstring jsstring bool jsstring
  | RestoreRow jsstring jsstring
  | Go jsstring
  | LogoutAction
  | Copy jsstring jsstring

record command_item =
  ci_id :: jsstring
  ci_label :: jsstring
  ci_sublabel :: "jsstring option"
  ci_section :: jsstring
  ci_badge :: "(jsstring \<times> badge_variant) option"
  ci_onSelect :: select_action
  ci_onDrillIn :: "jsstring option"
  ci_disabled :: bool

datatype feedback = ErrorFeedback jsstring | SuccessFeedback jsstring

record palette_device =
  pv_uid :: jsstring
  pv_name :: jsstring
  pv_online :: bool
  pv_mac :: "jsstring option"

definition optionId :: "jsstring \<Rightarrow> jsstring" where
  "optionId itemId = js ''cmdk-opt-'' @ itemId"

definition NO_CONNECT_PERMISSION :: jsstring where
  "NO_CONNECT_PERMISSION = js ''You don't have permission to connect to devices''"

text \<open>The loop of \<open>fuzzyMatch\<close> walks the text and advances in the query on a match.\<close>

fun fuzzy_loop :: "jsstring \<Rightarrow> jsstring \<Rightarrow> bool" where
  "fuzzy_loop [] t = True"
| "fuzzy_loop (c # q) [] = False"
| "fuzzy_loop (c # q) (x # t) = (if x = c then fuzzy_loop q t else fuzzy_loop (c # q) t)"

definition fuzzyMatch :: "jsstring \<Rightarrow> jsstring \<Rightarrow> bool" where
  "fuzzyMatch query t0 =
     (let q = toLower query; t = toLower t0 in contains t q \<or> fuzzy_loop q t)"

definition online_badge :: "bool \<Rightarrow> jsstring \<times> badge_variant" where
  "online_badge online = (if online then (js ''Online'', Green) else (js ''Offline'', MutedBadge))"

definition deviceRow :: "palette_device \<Rightarrow> jsstring \<Rightarrow> jsstring \<Rightarrow> jsstring \<Rightarrow> command_item" where
  "deviceRow d rowId sect sublabel =
     \<lparr>ci_id = rowId, ci_label = pv_name d, ci_sublabel = Some sublabel, ci_section = sect,
      ci_badge = Some (online_badge (pv_online d)),
      ci_onSelect = ConnectOrRestore (pv_uid d) (pv_name d) (pv_online d) rowId,
      ci_onDrillIn = Some (pv_uid d), ci_disabled = False\<rparr>"

fun status_badge :: "connection_status \<Rightarrow> jsstring \<times> badge_variant" where
  "status_badge Connected = (js ''Connected'', Green)"
| "status_badge Connecting = (js ''Connecting'', Yellow)"
| "status_badge Disconnected = (js ''Disconnected'', Red)"

fun window_label :: "window_state \<Rightarrow> jsstring" where
  "window_label Minimized = js ''Minimized''"
| "window_label Fullscreen = js ''Fullscreen''"
| "window_label Docked = js ''Docked''"

definition sessionRow :: "terminal_session \<Rightarrow> command_item" where
  "sessionRow s =
     \<lparr>ci_id = js ''term-'' @ session_id s, ci_label = username (params s) @ js ''@'' @ deviceName (params s),
      ci_sublabel = Some (window_label (window s)), ci_section = js ''Terminal Sessions'',
      ci_badge = Some (status_badge (connectionStatus s)),
      ci_onSelect = RestoreRow (session_id s) (js ''term-'' @ session_id s), ci_onDrillIn = None, ci_disabled = False\<rparr>"

definition buildConnectionItems ::
  "(jsstring \<Rightarrow> jsstring) \<Rightarrow> palette_device list \<Rightarrow> terminal_session list \<Rightarrow> (palette_device \<times> jsstring) list \<Rightarrow> command_item list" where
  "buildConnectionItems distance devices terminalSessions recentDevices =
     map sessionRow terminalSessions @
     map (\<lambda>(d, when). deviceRow d (js ''recent-'' @ pv_uid d) (js ''Recent'') (formatRelative distance when)) recentDevices @
     map (\<lambda>d. deviceRow d (js ''device-'' @ pv_uid d) (js ''Devices'')
            (case pv_mac d of Some m \<Rightarrow> m | None \<Rightarrow> JsBase.slice 0 12 (pv_uid d))) devices"

definition legacyPaths :: "jsstring list" where
  "legacyPaths = [js ''/sshkeys/public-keys'', js ''/secure-vault'']"

definition nav_entries :: "(jsstring \<times> jsstring) list" where
  "nav_entries =
     [(js ''Dashboard'', js ''/dashboard''), (js ''Devices'', js ''/devices''), (js ''Sessions'', js ''/sessions''),
      (js ''Public Keys'', js ''/sshkeys/public-keys''), (js ''Secure Vault'', js ''/secure-vault''),
      (js ''Team'', js ''/team''), (js ''Settings'', js ''/settings''), (js ''Add Device'', js ''/devices/add''),
      (js ''Claim a Device'', js ''/accept-device'')]"

definition buildCommandItems :: "bool \<Rightarrow> command_item list" where
  "buildCommandItems isIdentityMode =
     map (\<lambda>(label, path). \<lparr>ci_id = js ''nav-'' @ path, ci_label = label, ci_sublabel = Some path,
            ci_section = js ''Navigation'', ci_badge = None, ci_onSelect = Go path, ci_onDrillIn = None, ci_disabled = False\<rparr>)
       (filter (\<lambda>(label, path). \<not> isIdentityMode \<or> path \<notin> set legacyPaths) nav_entries) @
     [\<lparr>ci_id = js ''action-logout'', ci_label = js ''Logout'', ci_sublabel = None, ci_section = js ''Actions'',
       ci_badge = None, ci_onSelect = LogoutAction, ci_onDrillIn = None, ci_disabled = False\<rparr>]"

definition action_item :: "jsstring \<Rightarrow> jsstring \<Rightarrow> jsstring option \<Rightarrow> jsstring \<Rightarrow> select_action \<Rightarrow> command_item" where
  "action_item i label sublabel sect act =
     \<lparr>ci_id = i, ci_label = label, ci_sublabel = sublabel, ci_section = sect, ci_badge = None, ci_onSelect = act,
      ci_onDrillIn = None, ci_disabled = False\<rparr>"

definition buildDeviceActionItems ::
  "jsstring \<Rightarrow> palette_device option \<Rightarrow> jsstring \<Rightarrow> bool \<Rightarrow> bool \<Rightarrow> command_item list" where
  "buildDeviceActionItems host drillDevice nsName canConnect hasOpenSession =
     (case drillDevice of
        None \<Rightarrow> []
      | Some d \<Rightarrow>
          let uid = pv_uid d; name = pv_name d; online = pv_online d;
              sshid = (if nsName \<noteq> [] then buildSshid host nsName name else uid);
              sshCommand = js ''ssh <username>@'' @ sshid
          in [(action_item (js ''act-connect'') (js ''Connect'')
                 (if canConnect then None else Some (js ''Requires connect permission'')) name
                 (ConnectOrRestore uid name online (js ''act-connect'')))
                \<lparr>ci_badge := Some (online_badge online),
                 ci_disabled := (\<not> canConnect \<or> (\<not> online \<and> \<not> hasOpenSession))\<rparr>,
              action_item (js ''act-copy-sshid'') (js ''Copy SSHID'') (Some sshid) name (Copy sshid (js ''SSHID'')),
              action_item (js ''act-copy-ssh'') (js ''Copy ssh command'') (Some sshCommand) name
                (Copy sshCommand (js ''ssh command'')),
              action_item (js ''act-details'') (js ''View details'') (Some (js ''/devices/'' @ uid)) name
                (Go (js ''/devices/'' @ uid))])"

section \<open>State\<close>

record palette_data =
  pd_devices :: "palette_device list"
  pd_canConnect :: bool
  pd_nsName :: jsstring
  pd_identity :: bool
  pd_host :: jsstring
  pd_distance :: "jsstring \<Rightarrow> jsstring"

record ('s, 'k) palette =
  pl_open :: palette_state
  query :: jsstring
  activeIndex :: int
  drillInUid :: "jsstring option"
  pl_feedback :: "feedback option"
  shakeId :: "jsstring option"
  visited :: "jsstring list"
  clipboard :: "jsstring list"
  page :: "('s, 'k) app"

definition RECENT_LIMIT :: nat where
  "RECENT_LIMIT = 5"

section \<open>Actions\<close>

definition close_palette :: "('s, 'k) palette \<Rightarrow> ('s, 'k) palette" where
  "close_palette w = w\<lparr>query := [], activeIndex := 0, pl_feedback := None, shakeId := None, drillInUid := None,
     pl_open := closePalette (pl_open w)\<rparr>"

definition go :: "jsstring \<Rightarrow> ('s, 'k) palette \<Rightarrow> ('s, 'k) palette" where
  "go path w = (let w1 = close_palette w in w1\<lparr>visited := visited w1 @ [path]\<rparr>)"

definition onLogout :: "('s, 'k) palette \<Rightarrow> ('s, 'k) palette" where
  "onLogout w = (let w1 = close_palette w in w1\<lparr>page := logout (page w1), visited := visited w1 @ [js ''/login'']\<rparr>)"

definition rejectRow :: "jsstring \<Rightarrow> jsstring \<Rightarrow> ('s, 'k) palette \<Rightarrow> ('s, 'k) palette" where
  "rejectRow rowId message w = w\<lparr>pl_feedback := Some (ErrorFeedback message), shakeId := Some rowId\<rparr>"

definition copyAction :: "jsstring \<Rightarrow> jsstring \<Rightarrow> ('s, 'k) palette \<Rightarrow> ('s, 'k) palette" where
  "copyAction v label w = w\<lparr>clipboard := clipboard w @ [v],
     pl_feedback := Some (SuccessFeedback (js ''Copied '' @ label @ js '' to clipboard''))\<rparr>"

definition enterDrillIn :: "jsstring \<Rightarrow> ('s, 'k) palette \<Rightarrow> ('s, 'k) palette" where
  "enterDrillIn uid w = w\<lparr>drillInUid := Some uid, query := [], activeIndex := 0, pl_feedback := None, shakeId := None\<rparr>"

definition exitDrillIn :: "('s, 'k) palette \<Rightarrow> ('s, 'k) palette" where
  "exitDrillIn w = w\<lparr>drillInUid := None, query := [], activeIndex := 0, pl_feedback := None, shakeId := None\<rparr>"

definition on_terminals :: "(terminal_state \<Rightarrow> terminal_state) \<Rightarrow> ('s, 'k) palette \<Rightarrow> ('s, 'k) palette" where
  "on_terminals f w = w\<lparr>page := (page w)\<lparr>terminals := f (terminals (page w))\<rparr>\<rparr>"

definition connectOrRestore ::
  "palette_data \<Rightarrow> jsstring \<Rightarrow> jsstring \<Rightarrow> bool \<Rightarrow> jsstring \<Rightarrow> ('s, 'k) palette \<Rightarrow> ('s, 'k) palette" where
  "connectOrRestore d uid name online rowId w =
     (if \<not> pd_canConnect d then rejectRow rowId NO_CONNECT_PERMISSION w
      else case find (\<lambda>s. deviceUid (params s) = uid) (sessions (terminals (page w))) of
        Some existing \<Rightarrow> on_terminals (restore (session_id existing)) (close_palette w)
      | None \<Rightarrow>
          if \<not> online then rejectRow rowId (name @ js '' is offline '' @ [8212] @ js '' start it to connect'') w
          else on_terminals (requestConnect uid name) (close_palette w))"

definition restoreRow :: "palette_data \<Rightarrow> jsstring \<Rightarrow> jsstring \<Rightarrow> ('s, 'k) palette \<Rightarrow> ('s, 'k) palette" where
  "restoreRow d i rowId w =
     (if \<not> pd_canConnect d then rejectRow rowId NO_CONNECT_PERMISSION w
      else on_terminals (restore i) (close_palette w))"

fun run_select :: "palette_data \<Rightarrow> select_action \<Rightarrow> ('s, 'k) palette \<Rightarrow> ('s, 'k) palette" where
  "run_select d (ConnectOrRestore uid name online rowId) = connectOrRestore d uid name online rowId"
| "run_select d (RestoreRow i rowId) = restoreRow d i rowId"
| "run_select d (Go path) = go path"
| "run_select d LogoutAction = onLogout"
| "run_select d (Copy v label) = copyAction v label"

section \<open>What is shown\<close>

definition drill_device :: "palette_data \<Rightarrow> ('s, 'k) palette \<Rightarrow> palette_device option" where
  "drill_device d w = (case drillInUid w of
      None \<Rightarrow> None
    | Some uid \<Rightarrow> if uid = [] then None else find (\<lambda>v. pv_uid v = uid) (pd_devices d))"

definition recent_entries :: "('s, 'k) palette \<Rightarrow> recent_device list" where
  "recent_entries w =
     (let tenant = (case a_tenant (auth (page w)) of None \<Rightarrow> [] | Some t \<Rightarrow> t)
      in case byTenant (terminals (page w)) tenant of None \<Rightarrow> [] | Some ds \<Rightarrow> ds)"

text \<open>The loop over the recent devices, with those it has resolved so far.\<close>

fun resolve_recent ::
  "palette_device list \<Rightarrow> jsstring list \<Rightarrow> (palette_device \<times> jsstring) list \<Rightarrow> recent_device list \<Rightarrow> (palette_device \<times> jsstring) list" where
  "resolve_recent devices openUids acc [] = acc"
| "resolve_recent devices openUids acc (e # es) =
     (if rd_uid e \<in> set openUids then resolve_recent devices openUids acc es
      else case find (\<lambda>d. pv_uid d = rd_uid e) devices of
        None \<Rightarrow> resolve_recent devices openUids acc es
      | Some dev \<Rightarrow>
          let acc1 = acc @ [(dev, connectedAt e)]
          in if length acc1 \<ge> RECENT_LIMIT then acc1 else resolve_recent devices openUids acc1 es)"

definition recentDevices :: "palette_data \<Rightarrow> ('s, 'k) palette \<Rightarrow> (palette_device \<times> jsstring) list" where
  "recentDevices d w = resolve_recent (pd_devices d)
     (map (\<lambda>s. deviceUid (params s)) (sessions (terminals (page w)))) [] (recent_entries w)"

definition commandMode :: "palette_data \<Rightarrow> ('s, 'k) palette \<Rightarrow> bool" where
  "commandMode d w \<longleftrightarrow> drill_device d w = None \<and> startsWith (trimStart (query w)) (js ''>'')"

definition search_term :: "palette_data \<Rightarrow> ('s, 'k) palette \<Rightarrow> jsstring" where
  "search_term d w = (if commandMode d w then trim (drop 1 (trimStart (query w))) else trim (query w))"

definition activeItems :: "palette_data \<Rightarrow> ('s, 'k) palette \<Rightarrow> command_item list" where
  "activeItems d w =
     (case drill_device d w of
        Some dev \<Rightarrow> buildDeviceActionItems (pd_host d) (Some dev) (pd_nsName d) (pd_canConnect d)
          (list_ex (\<lambda>s. deviceUid (params s) = pv_uid dev) (sessions (terminals (page w))))
      | None \<Rightarrow>
          if commandMode d w then buildCommandItems (pd_identity d)
          else buildConnectionItems (pd_distance d) (pd_devices d) (sessions (terminals (page w))) (recentDevices d w))"

definition item_matches :: "jsstring \<Rightarrow> command_item \<Rightarrow> bool" where
  "item_matches t x \<longleftrightarrow> fuzzyMatch t (ci_label x) \<or>
     (case ci_sublabel x of None \<Rightarrow> False | Some s \<Rightarrow> s \<noteq> [] \<and> fuzzyMatch t s) \<or> fuzzyMatch t (ci_section x)"

definition filtered :: "palette_data \<Rightarrow> ('s, 'k) palette \<Rightarrow> command_item list" where
  "filtered d w = (let t = search_term d w in if t = [] then activeItems d w else filter (item_matches t) (activeItems d w))"

text \<open>A map in the order of its keys' first insertion.\<close>

fun push_section :: "command_item \<Rightarrow> (jsstring \<times> command_item list) list \<Rightarrow> (jsstring \<times> command_item list) list" where
  "push_section x [] = [(ci_section x, [x])]"
| "push_section x ((k, xs) # m) = (if k = ci_section x then (k, xs @ [x]) # m else (k, xs) # push_section x m)"

definition sections_of :: "command_item list \<Rightarrow> (jsstring \<times> command_item list) list" where
  "sections_of xs = fold push_section xs []"

definition flatList :: "palette_data \<Rightarrow> ('s, 'k) palette \<Rightarrow> command_item list" where
  "flatList d w = concat (map snd (sections_of (filtered d w)))"

definition indexById :: "command_item list \<Rightarrow> jsstring \<rightharpoonup> nat" where
  "indexById flat = fold (\<lambda>(i, x) m. m(ci_id x \<mapsto> i)) (enumerate 0 flat) Map.empty"

definition safeIndex :: "palette_data \<Rightarrow> ('s, 'k) palette \<Rightarrow> int" where
  "safeIndex d w = (let n = int (length (flatList d w)) in if n \<noteq> 0 then min (activeIndex w) (n - 1) else -1)"

definition activeItem :: "palette_data \<Rightarrow> ('s, 'k) palette \<Rightarrow> command_item option" where
  "activeItem d w = (let i = safeIndex d w; f = flatList d w in if 0 \<le> i \<and> i < int (length f) then Some (f ! nat i) else None)"

section \<open>Events\<close>

record input_state =
  selectionStart :: nat
  selectionEnd :: nat
  value_length :: nat

definition move :: "int \<Rightarrow> int \<Rightarrow> ('s, 'k) palette \<Rightarrow> ('s, 'k) palette" where
  "move len delta w = w\<lparr>activeIndex := (min (activeIndex w) (len - 1) + delta + len) mod len\<rparr>"

definition handleKeyDown :: "palette_data \<Rightarrow> jsstring \<Rightarrow> input_state \<Rightarrow> ('s, 'k) palette \<Rightarrow> ('s, 'k) palette" where
  "handleKeyDown d key inp w =
     (let len = int (length (flatList d w));
          caretAtEnd = (selectionStart inp = selectionEnd inp \<and> selectionStart inp = value_length inp);
          caretAtStart = (selectionStart inp = selectionEnd inp \<and> selectionStart inp = 0);
          isDrilledIn = (drill_device d w \<noteq> None)
      in if key = js ''ArrowDown'' then (if len \<noteq> 0 then move len 1 w else w)
         else if key = js ''ArrowUp'' then (if len \<noteq> 0 then move len (-1) w else w)
         else if key = js ''ArrowRight'' then
           (case Option.bind (activeItem d w) ci_onDrillIn of
              Some uid \<Rightarrow> if caretAtEnd \<and> \<not> isDrilledIn then enterDrillIn uid w else w
            | None \<Rightarrow> w)
         else if key = js ''ArrowLeft'' then (if caretAtStart \<and> isDrilledIn then exitDrillIn w else w)
         else if key = js ''Home'' then (if len \<noteq> 0 then w\<lparr>activeIndex := 0\<rparr> else w)
         else if key = js ''End'' then (if len \<noteq> 0 then w\<lparr>activeIndex := len - 1\<rparr> else w)
         else if key = js ''Enter'' then
           (case activeItem d w of
              Some x \<Rightarrow> if ci_disabled x then w else run_select d (ci_onSelect x) w
            | None \<Rightarrow> w)
         else w)"

definition onQueryChange :: "jsstring \<Rightarrow> ('s, 'k) palette \<Rightarrow> ('s, 'k) palette" where
  "onQueryChange v w = w\<lparr>query := v, activeIndex := 0, pl_feedback := None, shakeId := None\<rparr>"

definition handleDismiss :: "palette_data \<Rightarrow> ('s, 'k) palette \<Rightarrow> ('s, 'k) palette" where
  "handleDismiss d w = (if drill_device d w \<noteq> None then exitDrillIn w else close_palette w)"

definition shake_timeout :: "('s, 'k) palette \<Rightarrow> ('s, 'k) palette" where
  "shake_timeout w = w\<lparr>shakeId := None\<rparr>"

definition shortcut :: "bool \<Rightarrow> jsstring \<Rightarrow> ('s, 'k) palette \<Rightarrow> ('s, 'k) palette" where
  "shortcut modified key w =
     (if modified \<and> toLower key = js ''k''
      then (if palette_open (pl_open w) then close_palette w else w\<lparr>pl_open := openPalette (pl_open w)\<rparr>)
      else w)"

text \<open>Rows react to a click on them, to the pointer and to a click on their chevron.\<close>

definition click_row :: "palette_data \<Rightarrow> nat \<Rightarrow> ('s, 'k) palette \<Rightarrow> ('s, 'k) palette" where
  "click_row d i w =
     (if i < length (flatList d w) \<and> \<not> ci_disabled (flatList d w ! i)
      then run_select d (ci_onSelect (flatList d w ! i)) w else w)"

definition hover_row :: "palette_data \<Rightarrow> nat \<Rightarrow> ('s, 'k) palette \<Rightarrow> ('s, 'k) palette" where
  "hover_row d i w =
     (if i < length (flatList d w)
      then (case indexById (flatList d w) (ci_id (flatList d w ! i)) of
              Some k \<Rightarrow> w\<lparr>activeIndex := int k\<rparr> | None \<Rightarrow> w) else w)"

definition click_chevron :: "palette_data \<Rightarrow> nat \<Rightarrow> ('s, 'k) palette \<Rightarrow> ('s, 'k) palette" where
  "click_chevron d i w =
     (if i < length (flatList d w)
      then (case ci_onDrillIn (flatList d w ! i) of Some uid \<Rightarrow> enterDrillIn uid w | None \<Rightarrow> w) else w)"

datatype palette_event =
    KeyDown jsstring input_state
  | QueryChange jsstring
  | Dismiss
  | ShakeTimeout
  | Shortcut bool jsstring
  | ClickRow nat
  | HoverRow nat
  | ClickChevron nat
  | BackButton

fun palette_step :: "palette_data \<Rightarrow> palette_event \<Rightarrow> ('s, 'k) palette \<Rightarrow> ('s, 'k) palette" where
  "palette_step d (KeyDown key inp) = handleKeyDown d key inp"
| "palette_step d (QueryChange v) = onQueryChange v"
| "palette_step d Dismiss = handleDismiss d"
| "palette_step d ShakeTimeout = shake_timeout"
| "palette_step d (Shortcut b key) = shortcut b key"
| "palette_step d (ClickRow i) = click_row d i"
| "palette_step d (HoverRow i) = hover_row d i"
| "palette_step d (ClickChevron i) = click_chevron d i"
| "palette_step d BackButton = exitDrillIn"

section \<open>Sections\<close>

definition section_list :: "jsstring list \<Rightarrow> command_item list \<Rightarrow> (jsstring \<times> command_item list) list" where
  "section_list ks xs = map (\<lambda>k. (k, filter (\<lambda>x. ci_section x = k) xs)) ks"

lemma push_section_list:
  assumes "distinct ks" "ci_section x \<notin> set ks \<Longrightarrow> filter (\<lambda>y. ci_section y = ci_section x) xs = []"
  shows "push_section x (section_list ks xs) =
    section_list (if ci_section x \<in> set ks then ks else ks @ [ci_section x]) (xs @ [x])"
  using assms
proof (induction ks)
  case (Cons k ks)
  show ?case
  proof (cases "k = ci_section x")
    case True
    then have "\<forall>j\<in>set ks. j \<noteq> ci_section x"
      using Cons.prems(1) by auto
    then show ?thesis
      using True by (auto simp: section_list_def)
  next
    case False
    then have "push_section x (section_list ks xs) =
        section_list (if ci_section x \<in> set ks then ks else ks @ [ci_section x]) (xs @ [x])"
      using Cons by auto
    then show ?thesis
      using False by (auto simp: section_list_def)
  qed
qed (simp add: section_list_def)

lemma sections_of_list: "sections_of xs = section_list (dedupe (map ci_section xs)) xs"
proof (induction xs rule: rev_induct)
  case Nil
  then show ?case
    by (simp add: sections_of_def section_list_def)
next
  case (snoc x xs)
  have "filter (\<lambda>y. ci_section y = ci_section x) xs = []" if "ci_section x \<notin> set (dedupe (map ci_section xs))"
    unfolding filter_empty_conv using that by (metis image_eqI set_dedupe set_map)
  then show ?case
    using snoc push_section_list [of "dedupe (map ci_section xs)" x xs]
    by (simp add: sections_of_def dedupe_snoc)
qed

lemma mset_sections: "mset (concat (map snd (sections_of xs))) = mset xs"
proof -
  have "mset (concat (map snd (section_list ks xs))) = filter_mset (\<lambda>x. ci_section x \<in> set ks) (mset xs)"
    if "distinct ks" for ks
    using that
  proof (induction ks)
    case (Cons k ks)
    have "filter_mset (\<lambda>x. ci_section x = k) (mset xs) + filter_mset (\<lambda>x. ci_section x \<in> set ks) (mset xs) =
        filter_mset (\<lambda>x. ci_section x \<in> set (k # ks)) (mset xs)"
      using Cons.prems by (auto simp: multiset_eq_iff)
    then show ?case
      using Cons by (simp add: section_list_def)
  qed (simp add: section_list_def)
  from this [of "dedupe (map ci_section xs)"] show ?thesis
    by (auto simp: sections_of_list multiset_eq_iff)
qed

lemma set_flatList: "set (flatList d w) = set (filtered d w)"
  by (metis flatList_def mset_sections set_mset_mset)

section \<open>Recent devices\<close>

definition recent_resolved :: "palette_device list \<Rightarrow> jsstring list \<Rightarrow> recent_device list \<Rightarrow> (palette_device \<times> jsstring) list" where
  "recent_resolved devices openUids es = concat (map (\<lambda>e. if rd_uid e \<in> set openUids then [] else
     case find (\<lambda>d. pv_uid d = rd_uid e) devices of None \<Rightarrow> [] | Some dev \<Rightarrow> [(dev, connectedAt e)]) es)"

text \<open>The loop that stops at the limit gives the first five entries.\<close>

lemma resolve_recent_take:
  assumes "length acc < RECENT_LIMIT"
  shows "resolve_recent devices openUids acc es = acc @ take (RECENT_LIMIT - length acc) (recent_resolved devices openUids es)"
  using assms
proof (induction es arbitrary: acc)
  case (Cons e es)
  show ?case
  proof (cases "rd_uid e \<in> set openUids \<or> find (\<lambda>d. pv_uid d = rd_uid e) devices = None")
    case True
    then show ?thesis
      using Cons by (auto simp: recent_resolved_def)
  next
    case False
    then obtain dev where dev: "find (\<lambda>d. pv_uid d = rd_uid e) devices = Some dev"
      by auto
    show ?thesis
    proof (cases "length acc + 1 \<ge> RECENT_LIMIT")
      case True
      then have "RECENT_LIMIT - length acc = 1"
        using Cons.prems by simp
      then show ?thesis
        using True False dev by (simp add: recent_resolved_def Let_def)
    next
      case less: False
      then have "RECENT_LIMIT - length acc = Suc (RECENT_LIMIT - length (acc @ [(dev, connectedAt e)]))"
        by simp
      then show ?thesis
        using less False dev Cons.IH [of "acc @ [(dev, connectedAt e)]"] by (simp add: recent_resolved_def Let_def)
    qed
  qed
qed (simp add: recent_resolved_def)

lemma recentDevices_take:
  "recentDevices d w = take 5 (recent_resolved (pd_devices d)
     (map (\<lambda>s. deviceUid (params s)) (sessions (terminals (page w)))) (recent_entries w))"
  by (simp add: recentDevices_def resolve_recent_take RECENT_LIMIT_def)

lemma recentDevices_known: "(v, when) \<in> set (recentDevices d w) \<Longrightarrow> v \<in> set (pd_devices d)"
  by (auto simp: recentDevices_take recent_resolved_def dest!: in_set_takeD find_in_set [OF sym] split: if_splits option.splits)

section \<open>What a row may do\<close>

definition allowed_item :: "palette_data \<Rightarrow> ('s, 'k) palette \<Rightarrow> command_item \<Rightarrow> bool" where
  "allowed_item d w x =
     (case ci_onSelect x of
        ConnectOrRestore uid name online rowId \<Rightarrow> (\<exists>v\<in>set (pd_devices d). uid = pv_uid v \<and> name = pv_name v \<and> online = pv_online v)
      | RestoreRow i rowId \<Rightarrow> i \<in> set (ids (terminals (page w)))
      | _ \<Rightarrow> True)"

lemma drill_device_known: "drill_device d w = Some v \<Longrightarrow> v \<in> set (pd_devices d)"
  by (auto simp: drill_device_def dest: find_in_set split: option.splits if_splits)

lemma activeItems_allowed: "x \<in> set (activeItems d w) \<Longrightarrow> allowed_item d w x"
  using drill_device_known [of d w] recentDevices_known [of _ _ d w]
  by (fastforce simp: activeItems_def buildDeviceActionItems_def buildCommandItems_def buildConnectionItems_def
      allowed_item_def action_item_def sessionRow_def deviceRow_def Let_def split: option.splits if_splits)

lemma flatList_allowed: "x \<in> set (flatList d w) \<Longrightarrow> allowed_item d w x"
  using activeItems_allowed by (auto simp: set_flatList filtered_def Let_def split: if_splits)

lemma activeItem_member: "activeItem d w = Some x \<Longrightarrow> x \<in> set (flatList d w)"
  by (auto simp: activeItem_def Let_def split: if_splits)

section \<open>Properties\<close>

lemma close_palette_page [simp]: "page (close_palette w) = page w"
  by (simp add: close_palette_def)

definition no_session :: "jsstring \<Rightarrow> terminal_state \<Rightarrow> bool" where
  "no_session uid t \<longleftrightarrow> list_all (\<lambda>s. deviceUid (params s) \<noteq> uid) (sessions t)"

text \<open>The three things that can happen to the terminals.\<close>

definition terminals_change :: "palette_data \<Rightarrow> ('s, 'k) palette \<Rightarrow> ('s, 'k) palette \<Rightarrow> bool" where
  "terminals_change d w w' \<longleftrightarrow>
     page w' = page w \<or> page w' = logout (page w) \<or>
     pd_canConnect d \<and>
       ((\<exists>i\<in>set (ids (terminals (page w))). page w' = (page w)\<lparr>terminals := restore i (terminals (page w))\<rparr>) \<or>
        (\<exists>v\<in>set (pd_devices d). pv_online v \<and> no_session (pv_uid v) (terminals (page w)) \<and>
           page w' = (page w)\<lparr>terminals := requestConnect (pv_uid v) (pv_name v) (terminals (page w))\<rparr>))"

lemma select_change:
  assumes "allowed_item d w x"
  shows "terminals_change d w (run_select d (ci_onSelect x) w)"
proof (cases "ci_onSelect x")
  case (ConnectOrRestore uid name online rowId)
  then obtain v where v: "v \<in> set (pd_devices d)" "uid = pv_uid v" "name = pv_name v" "online = pv_online v"
    using assms by (auto simp: allowed_item_def)
  show ?thesis
  proof (cases "find (\<lambda>s. deviceUid (params s) = uid) (sessions (terminals (page w)))")
    case None
    then have "no_session uid (terminals (page w))"
      by (auto simp: no_session_def list_all_iff find_None_iff)
    then show ?thesis
      using ConnectOrRestore v None
      by (auto simp: terminals_change_def connectOrRestore_def rejectRow_def on_terminals_def)
  next
    case (Some s)
    then show ?thesis
      using ConnectOrRestore find_in_set [OF Some]
      by (auto simp: terminals_change_def connectOrRestore_def rejectRow_def on_terminals_def)
  qed
next
  case (RestoreRow i rowId)
  then show ?thesis
    using assms
    by (auto simp: allowed_item_def terminals_change_def restoreRow_def rejectRow_def on_terminals_def)
qed (auto simp: terminals_change_def go_def onLogout_def copyAction_def Let_def)

lemma same_page: "page w' = page w \<Longrightarrow> terminals_change d w w'"
  by (simp add: terminals_change_def)

text \<open>What a key press does, one case per kind of effect.\<close>

lemma handleKeyDown_cases:
  assumes "P w" "\<And>delta. flatList d w \<noteq> [] \<Longrightarrow> P (move (int (length (flatList d w))) delta w)"
    "\<And>uid. P (enterDrillIn uid w)" "P (exitDrillIn w)"
    "\<And>i. 0 \<le> i \<Longrightarrow> P (w\<lparr>activeIndex := i\<rparr>)"
    "\<And>x. activeItem d w = Some x \<Longrightarrow> P (run_select d (ci_onSelect x) w)"
  shows "P (handleKeyDown d key inp w)"
proof -
  have "P (case Option.bind (activeItem d w) ci_onDrillIn of Some uid \<Rightarrow> if b then enterDrillIn uid w else w | None \<Rightarrow> w)" for b
    using assms(1,3) by (simp split: option.split)
  moreover have "P (case activeItem d w of Some x \<Rightarrow> if ci_disabled x then w else run_select d (ci_onSelect x) w | None \<Rightarrow> w)"
    using assms(1,6) by (simp split: option.split)
  moreover have "P (if int (length (flatList d w)) \<noteq> 0 then w\<lparr>activeIndex := int (length (flatList d w)) - 1\<rparr> else w)"
    using assms(1) assms(5) [of "int (length (flatList d w)) - 1"] by (cases "flatList d w") simp_all
  moreover have "P (if int (length (flatList d w)) \<noteq> 0 then move (int (length (flatList d w))) delta w else w)" for delta
    using assms(1,2) by (cases "flatList d w = []") simp_all
  ultimately show ?thesis
    using assms(1,4) assms(5) [of 0] unfolding handleKeyDown_def Let_def by (simp only: split: if_split) blast
qed

lemma palette_step_change: "terminals_change d w (palette_step d e w)"
proof (cases e)
  case (KeyDown key inp)
  have "terminals_change d w (handleKeyDown d key inp w)"
    by (rule handleKeyDown_cases)
      (simp_all add: same_page move_def enterDrillIn_def exitDrillIn_def select_change flatList_allowed activeItem_member)
  then show ?thesis
    by (simp add: KeyDown)
next
  case (ClickRow i)
  then show ?thesis
    using flatList_allowed [of "flatList d w ! i" d w] select_change [of d w "flatList d w ! i"]
    by (auto simp: click_row_def intro: same_page)
qed (simp_all add: onQueryChange_def handleDismiss_def exitDrillIn_def shake_timeout_def shortcut_def hover_row_def
    click_chevron_def enterDrillIn_def same_page split: option.split)

text \<open>
  C25: The palette connects only when it may. Whatever is typed, pressed or clicked, a connection is requested only
  by a user with the permission, for a device of the list that is online and has no open terminal, under that
  device's own name; windows change only by restoring an open terminal with the permission, or by logging
  out, which closes them all.
\<close>

theorem palette_connects_when_allowed:
  "let t = terminals (page w); w' = palette_step d e w; t' = terminals (page w') in
     (reconnectTarget t' \<noteq> reconnectTarget t \<longrightarrow> pd_canConnect d \<and>
        (\<exists>v\<in>set (pd_devices d). pv_online v \<and> no_session (pv_uid v) t \<and> reconnectTarget t' = Some (pv_uid v, pv_name v))) \<and>
     (sessions t' \<noteq> sessions t \<longrightarrow>
        sessions t' = [] \<and> page w' = logout (page w) \<or>
        pd_canConnect d \<and> (\<exists>i\<in>set (ids t). sessions t' = sessions (restore i t)))"
proof -
  have "reconnectTarget (fold (\<lambda>s. Terminal.close (session_id s)) ss t) = reconnectTarget t" for ss t
    by (induction ss arbitrary: t) (simp_all add: close_def)
  then have "reconnectTarget (terminals (logout (page w))) = reconnectTarget (terminals (page w))"
    by (simp add: logout_def Let_def set_auth_def close_all_def)
  moreover have "sessions (terminals (logout (page w))) = []"
    by (simp add: logout_def Let_def set_auth_def close_all_empty)
  ultimately show ?thesis
    using palette_step_change [of d w e]
    by (auto simp: terminals_change_def Let_def restore_def requestConnect_def)
qed

definition sample_data :: "bool \<Rightarrow> palette_data" where
  "sample_data can = \<lparr>pd_devices = [\<lparr>pv_uid = js ''d'', pv_name = js ''box'', pv_online = True, pv_mac = None\<rparr>],
     pd_canConnect = can, pd_nsName = [], pd_identity = False, pd_host = [], pd_distance = (\<lambda>t. t)\<rparr>"

definition fresh_palette :: "('s, 'k) app \<Rightarrow> ('s, 'k) palette" where
  "fresh_palette a = \<lparr>pl_open = \<lparr>palette_open = True\<rparr>, query = [], activeIndex = 0, drillInUid = None, pl_feedback = None,
     shakeId = None, visited = [], clipboard = [], page = a\<rparr>"

theorem palette_connects_when_allowed_witness:
  "reconnectTarget (terminals (page (palette_step (sample_data False) (ClickRow 0) (fresh_palette (loaded_page toy_vault None))))) = None"
  using palette_connects_when_allowed [of "fresh_palette (loaded_page toy_vault None)" "sample_data False" "ClickRow 0"]
  by (simp add: Let_def sample_data_def fresh_palette_def loaded_page_def rehydrate_def initial_terminal_def
      del: palette_step.simps)

section \<open>The highlighted row\<close>

lemma move_range: "0 < len \<Longrightarrow> 0 \<le> activeIndex (move len delta w)"
  by (simp add: move_def)

lemma run_select_index: "0 \<le> activeIndex w \<Longrightarrow> 0 \<le> activeIndex (run_select d a w)"
  by (cases a)
    (auto simp: connectOrRestore_def restoreRow_def go_def onLogout_def copyAction_def rejectRow_def on_terminals_def
      close_palette_def Let_def split: option.split)

lemma palette_step_index:
  assumes "0 \<le> activeIndex w"
  shows "0 \<le> activeIndex (palette_step d e w)"
proof (cases e)
  case (KeyDown key inp)
  have "0 \<le> activeIndex (handleKeyDown d key inp w)"
    by (rule handleKeyDown_cases) (simp_all add: assms enterDrillIn_def exitDrillIn_def move_range run_select_index)
  then show ?thesis
    by (simp add: KeyDown)
qed (use assms run_select_index in \<open>auto simp: click_row_def onQueryChange_def handleDismiss_def exitDrillIn_def
    close_palette_def shake_timeout_def shortcut_def hover_row_def click_chevron_def enterDrillIn_def split: option.split\<close>)

lemma palette_run_index:
  "0 \<le> activeIndex w \<Longrightarrow> 0 \<le> activeIndex (fold (\<lambda>(d, e). palette_step d e) es w)"
  by (induction es arbitrary: w) (auto simp: palette_step_index)

lemma enumerate_fold_index:
  assumes "distinct (map ci_id xs)" "i < length xs"
  shows "fold (\<lambda>(i, x) m. m(ci_id x \<mapsto> i)) (enumerate n xs) m (ci_id (xs ! i)) = Some (n + i)"
  using assms
proof (induction xs arbitrary: i rule: rev_induct)
  case (snoc x xs)
  show ?case
  proof (cases "i < length xs")
    case True
    have "\<forall>y\<in>set xs. ci_id x \<noteq> ci_id y"
      using snoc.prems(1) by auto
    then have "ci_id (xs ! i) \<noteq> ci_id x"
      using nth_mem [OF True] by metis
    then show ?thesis
      using True snoc by (simp add: enumerate_append_eq nth_append)
  next
    case False
    then show ?thesis
      using snoc.prems by (simp add: enumerate_append_eq nth_append)
  qed
qed simp

lemma indexById_nth: "distinct (map ci_id xs) \<Longrightarrow> i < length xs \<Longrightarrow> indexById xs (ci_id (xs ! i)) = Some i"
  using enumerate_fold_index [of xs i 0 Map.empty] by (simp add: indexById_def)

lemma recent_resolved_uids:
  "map (\<lambda>(v, when). pv_uid v) (recent_resolved devices openUids es) =
     map rd_uid (filter (\<lambda>e. rd_uid e \<notin> set openUids \<and> find (\<lambda>d. pv_uid d = rd_uid e) devices \<noteq> None) es)"
proof (induction es)
  case (Cons e es)
  show ?case
  proof (cases "find (\<lambda>d. pv_uid d = rd_uid e) devices")
    case None
    then show ?thesis
      using Cons by (simp add: recent_resolved_def)
  next
    case (Some v)
    then have "pv_uid v = rd_uid e"
      by (auto simp: find_Some_iff)
    then show ?thesis
      using Cons Some by (simp add: recent_resolved_def)
  qed
qed (simp add: recent_resolved_def)

lemma recentDevices_distinct:
  assumes "distinct (map rd_uid (recent_entries w))"
  shows "distinct (map (\<lambda>(v, when). pv_uid v) (recentDevices d w))"
proof -
  have "distinct (map rd_uid (filter P (recent_entries w)))" for P
    using assms by (simp add: distinct_map_filter)
  then show ?thesis
    unfolding recentDevices_take take_map [symmetric] by (intro distinct_take) (simp add: recent_resolved_uids)
qed

lemma connection_ids_distinct:
  assumes "distinct (map pv_uid devices)" "distinct (map session_id ss)" "distinct (map (\<lambda>(v, when). pv_uid v) rs)"
  shows "distinct (map ci_id (buildConnectionItems f devices ss rs))"
proof -
  have "distinct (map (\<lambda>x. p @ g x) xs) \<longleftrightarrow> distinct (map g xs)" for p :: jsstring and g :: "'z \<Rightarrow> jsstring" and xs
    by (auto simp: distinct_map inj_on_def)
  note pre = this
  have "map ci_id (buildConnectionItems f devices ss rs) =
    map (\<lambda>s. js ''term-'' @ session_id s) ss @
    map (\<lambda>x. js ''recent-'' @ (\<lambda>(v, when). pv_uid v) x) rs @ map (\<lambda>v. js ''device-'' @ pv_uid v) devices"
    by (auto simp: buildConnectionItems_def sessionRow_def deviceRow_def)
  moreover have "js ''term-'' @ a \<noteq> js ''recent-'' @ b" "js ''term-'' @ a \<noteq> js ''device-'' @ b"
    "js ''recent-'' @ a \<noteq> js ''device-'' @ b" for a b
    by (simp_all add: js_def)
  ultimately show ?thesis
    using assms by (auto simp: pre)
qed

lemma activeItems_ids:
  assumes "distinct (map pv_uid (pd_devices d))" "distinct (ids (terminals (page w)))" "distinct (map rd_uid (recent_entries w))"
  shows "distinct (map ci_id (activeItems d w))"
proof -
  have "distinct (map ci_id (buildCommandItems b))" for b
    by (cases b) (simp_all add: buildCommandItems_def nav_entries_def legacyPaths_def js_def)
  moreover have "distinct (map ci_id (buildDeviceActionItems h v n a o'))" for h v n a o'
    by (simp add: buildDeviceActionItems_def action_item_def Let_def js_def split: option.split)
  ultimately show ?thesis
    using connection_ids_distinct [OF assms(1,2) recentDevices_distinct [OF assms(3)]]
    by (simp add: activeItems_def split: option.split)
qed

lemma flatList_ids:
  assumes "distinct (map pv_uid (pd_devices d))" "distinct (ids (terminals (page w)))" "distinct (map rd_uid (recent_entries w))"
  shows "distinct (map ci_id (flatList d w))"
proof -
  have "distinct (map ci_id (filtered d w))"
    using activeItems_ids [OF assms] by (simp add: filtered_def Let_def distinct_map_filter)
  moreover have "mset (map ci_id (flatList d w)) = mset (map ci_id (filtered d w))"
    by (simp add: flatList_def mset_sections)
  ultimately show ?thesis
    by (metis mset_eq_imp_distinct_iff)
qed

lemma index_irrelevant [simp]:
  "drill_device d (w\<lparr>activeIndex := k\<rparr>) = drill_device d w" "recent_entries (w\<lparr>activeIndex := k\<rparr>) = recent_entries w"
  by (simp_all add: drill_device_def recent_entries_def)

lemma index_irrelevant2 [simp]:
  "recentDevices d (w\<lparr>activeIndex := k\<rparr>) = recentDevices d w" "commandMode d (w\<lparr>activeIndex := k\<rparr>) = commandMode d w"
  by (simp_all add: recentDevices_def commandMode_def)

lemma flatList_index [simp]: "flatList d (w\<lparr>activeIndex := k\<rparr>) = flatList d w"
proof -
  have "activeItems d (w\<lparr>activeIndex := k\<rparr>) = activeItems d w"
    by (simp add: activeItems_def cong: option.case_cong)
  moreover have "search_term d (w\<lparr>activeIndex := k\<rparr>) = search_term d w"
    by (simp add: search_term_def)
  ultimately show ?thesis
    by (simp add: flatList_def filtered_def Let_def)
qed

lemma activeItem_at:
  assumes "i < length (flatList d w)"
  shows "activeItem d (w\<lparr>activeIndex := int i\<rparr>) = Some (flatList d w ! i)"
  using assms by (auto simp: activeItem_def safeIndex_def Let_def min_def)

text \<open>
  C39: Whatever was pressed, typed and clicked before, as long as rows are shown exactly one of them is
  highlighted, and pointing at a row highlights that row. The rows shown are the matching ones, each once,
  grouped by section in the order in which the sections first appear, with the order within a section kept.
\<close>

theorem palette_highlight:
  assumes "0 \<le> activeIndex w0" "w = fold (\<lambda>(d, e). palette_step d e) es w0"
    and "distinct (map pv_uid (pd_devices d))" "distinct (ids (terminals (page w)))" "distinct (map rd_uid (recent_entries w))"
  shows "(flatList d w \<noteq> [] \<longrightarrow> (\<exists>x\<in>set (flatList d w). activeItem d w = Some x)) \<and>
    (\<forall>i<length (flatList d w). activeItem d (hover_row d i w) = Some (flatList d w ! i)) \<and>
    flatList d w = concat (map (\<lambda>k. filter (\<lambda>x. ci_section x = k) (filtered d w)) (dedupe (map ci_section (filtered d w)))) \<and>
    mset (flatList d w) = mset (filtered d w)"
proof -
  have "0 \<le> activeIndex w"
    using palette_run_index [OF assms(1)] assms(2) by simp
  then have "\<exists>x\<in>set (flatList d w). activeItem d w = Some x" if "flatList d w \<noteq> []"
    using that nth_mem [of "nat (safeIndex d w)" "flatList d w"]
    by (cases "flatList d w") (auto simp: activeItem_def safeIndex_def Let_def)
  moreover have "activeItem d (hover_row d i w) = Some (flatList d w ! i)" if "i < length (flatList d w)" for i
    using that indexById_nth [OF flatList_ids [OF assms(3-5)] that] activeItem_at [OF that] by (simp add: hover_row_def)
  moreover have "flatList d w = concat (map (\<lambda>k. filter (\<lambda>x. ci_section x = k) (filtered d w)) (dedupe (map ci_section (filtered d w))))"
    by (simp add: flatList_def sections_of_list section_list_def comp_def)
  moreover have "mset (flatList d w) = mset (filtered d w)"
    by (simp add: flatList_def mset_sections)
  ultimately show ?thesis
    by blast
qed

lemma sample_rows:
  "flatList (sample_data True) (fresh_palette (loaded_page toy_vault None)) \<noteq> []"
  "distinct (ids (terminals (page (fresh_palette (loaded_page toy_vault None)))))"
  "distinct (map rd_uid (recent_entries (fresh_palette (loaded_page toy_vault None))))"
proof -
  let ?w = "fresh_palette (loaded_page toy_vault None)"
  have "filtered (sample_data True) ?w = activeItems (sample_data True) ?w" "activeItems (sample_data True) ?w \<noteq> []"
    by (simp_all add: filtered_def search_term_def commandMode_def activeItems_def drill_device_def fresh_palette_def
        trim_Nil trimStart_def startsWith_def buildConnectionItems_def sample_data_def)
  then show "flatList (sample_data True) ?w \<noteq> []"
    by (metis set_empty set_flatList)
qed (simp_all add: fresh_palette_def recent_entries_def loaded_page_def rehydrate_def initial_terminal_def initialState_def Let_def)

theorem palette_highlight_witness:
  "activeItem (sample_data True) (fresh_palette (loaded_page toy_vault None)) \<noteq> None"
  using palette_highlight [of "fresh_palette (loaded_page toy_vault None)" "fresh_palette (loaded_page toy_vault None)" "[]"
      "sample_data True"] sample_rows
  by (auto simp: fresh_palette_def sample_data_def)

text \<open>The loop of the search finds a query in a text that contains it, so the shortcut for contained queries changes nothing.\<close>

lemma fuzzy_loop_Cons: "(fuzzy_loop (c # q) s \<longrightarrow> fuzzy_loop q s) \<and> (fuzzy_loop p s \<longrightarrow> fuzzy_loop p (x # s))"
proof (induction s arbitrary: c q p x)
  case Nil
  show ?case
    by (cases p) auto
next
  case (Cons y s)
  have A: "fuzzy_loop q (y # s)" if "fuzzy_loop (c # q) (y # s)" for c q
    using that Cons by (metis fuzzy_loop.simps(3))
  then show ?case
    by (cases p) auto
qed

lemma fuzzy_loop_prefix: "fuzzy_loop q (q @ t)"
  by (induction q) auto

lemma fuzzyMatch_subsequence: "fuzzyMatch q t \<longleftrightarrow> fuzzy_loop (toLower q) (toLower t)"
proof -
  have "fuzzy_loop p s" if c: "contains s p" for p s
    using c
  proof (induction s)
    case (Cons x s)
    then show ?case
      using fuzzy_loop_prefix fuzzy_loop_Cons by (auto simp: contains_def startsWith_iff split: if_splits)
  qed (auto simp: contains_def split: if_splits)
  then show ?thesis
    by (auto simp: fuzzyMatch_def Let_def)
qed

end
