(* ===== verification/Spec2Isabelle.thy ===== *)
theory Spec2Isabelle
  imports VaultRaces ListParams Permission SourceIp AdminForms Auth Recordings Approval Enrollment InstallKeys Navigation SshIdentity Account TerminalUi Utf8Stream TerminalLink Palette
begin

text \<open>
  Verification of the ShellHub console.
\<close>

end
